(* ===== verification/Prelude.thy ===== *)
theory Prelude
  imports Complex_Main "HOL-Library.Word"
begin

text \<open>
  What the components share: the names of the machine integers, the values that stand for C++
  exceptions, failed assertions and \<^verbatim>\<open>absl::Status\<close>, the string functions of Abseil that the
  code calls, and generic lemmas about lists, options and words.

  Fallible operations return a sum: \<open>Inl\<close> carries the failure, \<open>Inr\<close> the result. The model is of
  the release build: a debug-only \<^verbatim>\<open>ASSERT\<close> has no effect (that its condition holds is proved
  instead), whereas \<^verbatim>\<open>RELEASE_ASSERT\<close> and \<^verbatim>\<open>PANIC\<close> abort and are failures.
\<close>

section \<open>Machine integers, failures and statuses\<close>

type_synonym u64 = "64 word"
type_synonym i64 = "64 word"
type_synonym u32 = "32 word"
type_synonym i32 = "32 word"

text \<open>
  Exceptions, process aborts and operations that the language leaves undefined. All exceptions but
  \<open>EnvoyException\<close> and those of the standard library (\<open>StdException\<close>) derive from \<^verbatim>\<open>NighthawkException\<close> (\<^verbatim>\<open>include/nighthawk/common/exception.h\<close>).
\<close>

datatype failure =
    NighthawkException string
  | EnvoyException string
  | StdException string
  | UriException string
  | MalformedArgvException string
  | NoServingException
  | ReleaseAssertFailure string
  | PanicFailure string
  | UndefinedBehaviour string

datatype status_code =
    kOk | kCancelled | kUnknown | kInvalidArgument | kDeadlineExceeded | kNotFound
  | kAlreadyExists | kPermissionDenied | kResourceExhausted | kFailedPrecondition | kAborted
  | kOutOfRange | kUnimplemented | kInternal | kUnavailable | kDataLoss | kUnauthenticated

datatype status = Status (code: status_code) (message: string)

definition ok :: "status \<Rightarrow> bool" where
  "ok s \<longleftrightarrow> code s = kOk"

abbreviation OkStatus :: status where
  "OkStatus \<equiv> Status kOk []"

text \<open>\<^verbatim>\<open>absl::StatusOr<T>\<close>: an error status or a value.\<close>

type_synonym 'a status_or = "status + 'a"

fun is_Inr :: "'a + 'b \<Rightarrow> bool" where
  "is_Inr (Inl _) = False"
| "is_Inr (Inr _) = True"

text \<open>\<^verbatim>\<open>google.protobuf.Duration\<close> and \<^verbatim>\<open>Timestamp\<close>: a message with these two fields.\<close>

record proto_duration =
  seconds :: int
  nanos :: int

definition zero_duration :: proto_duration where
  "zero_duration = \<lparr>seconds = 0, nanos = 0\<rparr>"

text \<open>A block of statements, each of which may fail, is the list of its steps.\<close>

primrec run_steps :: "('s \<Rightarrow> 'e + 's) list \<Rightarrow> 's \<Rightarrow> 'e + 's" where
  "run_steps [] s = Inr s"
| "run_steps (f # fs) s = (case f s of Inl e \<Rightarrow> Inl e | Inr s' \<Rightarrow> run_steps fs s')"

definition assign :: "('s \<Rightarrow> 's) \<Rightarrow> 's \<Rightarrow> 'e + 's" where
  "assign f s = Inr (f s)"

definition throw_if :: "('s \<Rightarrow> bool) \<Rightarrow> 'e \<Rightarrow> 's \<Rightarrow> 'e + 's" where
  "throw_if c e s = (if c s then Inl e else Inr s)"

section \<open>Strings\<close>

definition quote_char :: char where
  "quote_char = CHR 0x27"

abbreviation "newline \<equiv> CHR 0x0A"
abbreviation "dquote \<equiv> CHR 0x22"

abbreviation code_of :: "char \<Rightarrow> nat" where
  "code_of c \<equiv> of_char c"

definition lower_char :: "char \<Rightarrow> char" where
  "lower_char c = (if 65 \<le> code_of c \<and> code_of c \<le> 90 then char_of (code_of c + 32) else c)"

text \<open>\<^verbatim>\<open>absl::AsciiStrToLower\<close>\<close>

definition str_lower :: "string \<Rightarrow> string" where
  "str_lower = map lower_char"

definition upper_char :: "char \<Rightarrow> char" where
  "upper_char c = (if 97 \<le> code_of c \<and> code_of c \<le> 122 then char_of (code_of c - 32) else c)"

text \<open>\<^verbatim>\<open>absl::AsciiStrToUpper\<close>\<close>

definition str_upper :: "string \<Rightarrow> string" where
  "str_upper = map upper_char"

definition is_space :: "char \<Rightarrow> bool" where
  "is_space c \<longleftrightarrow> code_of c = 32 \<or> 9 \<le> code_of c \<and> code_of c \<le> 13"

text \<open>\<^verbatim>\<open>absl::StripAsciiWhitespace\<close>\<close>

definition strip_whitespace :: "string \<Rightarrow> string" where
  "strip_whitespace s = rev (dropWhile is_space (rev (dropWhile is_space s)))"

definition is_digit :: "char \<Rightarrow> bool" where
  "is_digit c \<longleftrightarrow> 48 \<le> code_of c \<and> code_of c \<le> 57"

definition digit_value :: "char \<Rightarrow> nat" where
  "digit_value c = code_of c - 48"

text \<open>\<^verbatim>\<open>find(char)\<close> and \<^verbatim>\<open>rfind(char)\<close>: the position, \<open>None\<close> for \<^verbatim>\<open>npos\<close>.\<close>

fun find_char :: "char \<Rightarrow> string \<Rightarrow> nat option" where
  "find_char c [] = None"
| "find_char c (x # xs) = (if x = c then Some 0 else map_option Suc (find_char c xs))"

definition find_char_from :: "char \<Rightarrow> nat \<Rightarrow> string \<Rightarrow> nat option" where
  "find_char_from c pos s = map_option ((+) pos) (find_char c (drop pos s))"

definition rfind_char :: "char \<Rightarrow> string \<Rightarrow> nat option" where
  "rfind_char c s = map_option (\<lambda>i. length s - 1 - i) (find_char c (rev s))"

definition starts_with :: "string \<Rightarrow> string \<Rightarrow> bool" where
  "starts_with s p \<longleftrightarrow> take (length p) s = p"

definition ends_with :: "string \<Rightarrow> string \<Rightarrow> bool" where
  "ends_with s p \<longleftrightarrow> length p \<le> length s \<and> drop (length s - length p) s = p"

text \<open>\<^verbatim>\<open>absl::StripPrefix\<close>\<close>

definition strip_prefix :: "string \<Rightarrow> string \<Rightarrow> string" where
  "strip_prefix s p = (if starts_with s p then drop (length p) s else s)"

fun find_sub :: "string \<Rightarrow> string \<Rightarrow> nat option" where
  "find_sub p [] = (if p = [] then Some 0 else None)"
| "find_sub p (x # xs) =
     (if starts_with (x # xs) p then Some 0 else map_option Suc (find_sub p xs))"

text \<open>\<^verbatim>\<open>absl::StrSplit(s, c)\<close> (never empty) and \<^verbatim>\<open>absl::StrJoin\<close>.\<close>

fun str_split :: "char \<Rightarrow> string \<Rightarrow> string list" where
  "str_split c [] = [[]]"
| "str_split c (x # xs) =
     (if x = c then [] # str_split c xs
      else (case str_split c xs of [] \<Rightarrow> [[x]] | y # ys \<Rightarrow> (x # y) # ys))"

fun str_join :: "string \<Rightarrow> string list \<Rightarrow> string" where
  "str_join d [] = []"
| "str_join d [x] = x"
| "str_join d (x # y # ys) = x @ d @ str_join d (y # ys)"

subsection \<open>Maps ordered by name\<close>

text \<open>
  \<^verbatim>\<open>std::map<std::string, T>\<close> is the list of its entries in the order of iteration;
  \<open>str_lt\<close> is the order of \<^verbatim>\<open>std::less<std::string>\<close> and \<open>map_set\<close> the assignment \<^verbatim>\<open>m[k] = v\<close>.
\<close>

fun str_lt :: "string \<Rightarrow> string \<Rightarrow> bool" where
  "str_lt _ [] = False"
| "str_lt [] (_ # _) = True"
| "str_lt (x # xs) (y # ys) = (code_of x < code_of y \<or> x = y \<and> str_lt xs ys)"

fun map_set :: "string \<Rightarrow> 'v \<Rightarrow> (string \<times> 'v) list \<Rightarrow> (string \<times> 'v) list" where
  "map_set k v [] = [(k, v)]"
| "map_set k v ((j, w) # m) =
     (if j = k then (k, v) # m else if str_lt k j then (k, v) # (j, w) # m else (j, w) # map_set k v m)"

fun sorted_map :: "(string \<times> 'v) list \<Rightarrow> bool" where
  "sorted_map ((j, w) # (k, v) # m) = (str_lt j k \<and> sorted_map ((k, v) # m))"
| "sorted_map _ = True"

subsection \<open>Decimal numbers\<close>

fun show_nat :: "nat \<Rightarrow> string" where
  "show_nat n = (if n < 10 then [char_of (48 + n)] else show_nat (n div 10) @ [char_of (48 + n mod 10)])"

declare show_nat.simps [simp del]

definition show_int :: "int \<Rightarrow> string" where
  "show_int i = (if i < 0 then CHR ''-'' # show_nat (nat (- i)) else show_nat (nat i))"

fun parse_digits :: "nat \<Rightarrow> string \<Rightarrow> nat option" where
  "parse_digits acc [] = Some acc"
| "parse_digits acc (c # cs) =
     (if is_digit c then parse_digits (10 * acc + digit_value c) cs else None)"

text \<open>
  The part of \<^verbatim>\<open>absl::SimpleAtoi\<close> that all integer types share: white space is stripped, one
  sign is allowed and at least one digit is required. The result is the sign and the magnitude.
\<close>

definition parse_decimal :: "string \<Rightarrow> (bool \<times> nat) option" where
  "parse_decimal s =
     (let t = strip_whitespace s;
          neg = (t \<noteq> [] \<and> hd t = CHR ''-'');
          d = (if t \<noteq> [] \<and> (hd t = CHR ''-'' \<or> hd t = CHR ''+'') then tl t else t)
      in if d = [] then None else map_option (\<lambda>n. (neg, n)) (parse_digits 0 d))"

definition simple_atou :: "nat \<Rightarrow> string \<Rightarrow> nat option" where
  "simple_atou max_value s =
     (case parse_decimal s of
        Some (False, n) \<Rightarrow> if n \<le> max_value then Some n else None
      | _ \<Rightarrow> None)"

definition simple_atoi :: "nat \<Rightarrow> string \<Rightarrow> int option" where
  "simple_atoi w s =
     (case parse_decimal s of
        None \<Rightarrow> None
      | Some (neg, n) \<Rightarrow>
          (let v = (if neg then - int n else int n)
           in if - (2 ^ (w - 1)) \<le> v \<and> v < 2 ^ (w - 1) then Some v else None))"

section \<open>Lemmas\<close>

named_theorems str_simps \<open>evaluation of the string functions on literals\<close>

lemma digit_chars [str_simps]:
  "char_of (48::nat) = CHR ''0''" "char_of (49::nat) = CHR ''1''" "char_of (50::nat) = CHR ''2''"
  "char_of (51::nat) = CHR ''3''" "char_of (52::nat) = CHR ''4''" "char_of (53::nat) = CHR ''5''"
  "char_of (54::nat) = CHR ''6''" "char_of (55::nat) = CHR ''7''" "char_of (56::nat) = CHR ''8''"
  "char_of (57::nat) = CHR ''9''"
  by code_simp+

lemma find_char_Some: "find_char c s = Some i \<Longrightarrow> i < length s \<and> s ! i = c \<and> c \<notin> set (take i s)"
  by (induction s arbitrary: i) (auto split: if_splits)

lemma find_char_None: "find_char c s = None \<longleftrightarrow> c \<notin> set s"
  by (induction s) auto

lemma rfind_char_None [simp]: "rfind_char c s = None \<longleftrightarrow> c \<notin> set s"
  by (simp add: rfind_char_def find_char_None)

lemma rfind_char_Some:
  assumes "rfind_char c s = Some i"
  shows "i < length s" and "s ! i = c" and "c \<notin> set (drop (Suc i) s)"
proof -
  obtain j where j: "find_char c (rev s) = Some j" and i: "i = length s - 1 - j"
    using assms by (auto simp: rfind_char_def)
  from find_char_Some [OF j] have jl: "j < length s" and jc: "rev s ! j = c"
    and nin: "c \<notin> set (take j (rev s))" by auto
  show "i < length s" using i jl by simp
  show "s ! i = c" using jc jl i by (simp add: rev_nth)
  have "drop (Suc i) s = rev (take j (rev s))" using i jl by (simp add: rev_take Suc_diff_Suc)
  then show "c \<notin> set (drop (Suc i) s)" using nin by simp
qed

lemma str_split_ne [simp]: "str_split c s \<noteq> []"
  by (induction s) (auto split: list.splits)

lemma str_join_Cons: "ys \<noteq> [] \<Longrightarrow> str_join d (x # ys) = x @ d @ str_join d ys"
  by (cases ys) auto

lemma str_join_split [simp]: "str_join [c] (str_split c s) = s"
proof (induction s)
  case (Cons x xs)
  obtain y ys where y: "str_split c xs = y # ys" by (cases "str_split c xs") auto
  show ?case using Cons y by (cases ys) (auto simp: str_join_Cons)
qed simp

lemma str_split_no_sep: "\<forall>p \<in> set (str_split c s). c \<notin> set p"
  by (induction s) (auto split: list.splits)

lemma str_split_join:
  assumes "ps \<noteq> []" "\<forall>p \<in> set ps. c \<notin> set p"
  shows "str_split c (str_join [c] ps) = ps"
proof -
  have app: "c \<notin> set p \<Longrightarrow> str_split c (p @ c # s) = p # str_split c s" for p s
    by (induction p) auto
  have one: "c \<notin> set p \<Longrightarrow> str_split c p = [p]" for p
    by (induction p) auto
  show ?thesis using assms by (induction "[c]" ps rule: str_join.induct) (auto simp: app one)
qed

subsection \<open>Blocks of statements\<close>

lemma run_steps_append:
  "run_steps (fs @ gs) s = (case run_steps fs s of Inl e \<Rightarrow> Inl e | Inr s' \<Rightarrow> run_steps gs s')"
  by (induction fs arbitrary: s) (auto split: sum.splits)

lemma run_steps_appendE:
  assumes "run_steps (fs @ gs) s = Inr s'"
  obtains t where "run_steps fs s = Inr t" "run_steps gs t = Inr s'"
  using assms by (auto simp: run_steps_append split: sum.splits)

lemma run_steps_passes:
  "run_steps fs s = Inr s' \<Longrightarrow> throw_if (\<lambda>_. c) e \<in> set fs \<Longrightarrow> \<not> c"
  by (induction fs arbitrary: s) (auto simp: throw_if_def split: sum.splits if_splits)

text \<open>A step that succeeds keeps a property of the state.\<close>

named_theorems keeps_intros \<open>which steps keep a property\<close>

definition keeps :: "('s \<Rightarrow> bool) \<Rightarrow> ('s \<Rightarrow> 'e + 's) \<Rightarrow> bool" where
  "keeps P f \<longleftrightarrow> (\<forall>s s'. f s = Inr s' \<longrightarrow> P s \<longrightarrow> P s')"

lemma keepsI: "(\<And>s s'. f s = Inr s' \<Longrightarrow> P s \<Longrightarrow> P s') \<Longrightarrow> keeps P f"
  by (auto simp: keeps_def)

lemma run_steps_keeps: "list_all (keeps P) fs \<Longrightarrow> keeps P (run_steps fs)"
  unfolding keeps_def
  by (induction fs) (auto split: sum.splits)

lemma keepsD: "keeps P f \<Longrightarrow> f s = Inr s' \<Longrightarrow> P s \<Longrightarrow> P s'"
  by (auto simp: keeps_def)

lemma keeps_assign [keeps_intros]: "(\<And>s. P s \<Longrightarrow> P (g s)) \<Longrightarrow> keeps P (assign g)"
  by (auto simp: keeps_def assign_def)

lemma keeps_throw_if [keeps_intros]: "keeps P (throw_if c e)"
  by (auto simp: keeps_def throw_if_def)

lemma keeps_map_sum [keeps_intros]: "(\<And>s x. P s \<Longrightarrow> P (g s x)) \<Longrightarrow> keeps P (\<lambda>s. map_sum id (g s) (h s))"
  unfolding keeps_def
proof (intro allI impI)
  show "P s'" if "\<And>s x. P s \<Longrightarrow> P (g s x)" "map_sum id (g s) (h s) = Inr s'" "P s" for s s'
    using that by (cases "h s") auto
qed

lemma map_sum_Inr_eq: "map_sum id f r = Inr y \<longleftrightarrow> (\<exists>x. r = Inr x \<and> y = f x)"
  by (cases r) auto

subsection \<open>Ordered maps\<close>

lemma str_lt_irrefl [simp]: "\<not> str_lt s s"
  by (induction s) auto

lemma str_lt_trans: "str_lt r s \<Longrightarrow> str_lt s t \<Longrightarrow> str_lt r t"
proof (induction r t arbitrary: s rule: str_lt.induct)
  case (3 x xs y ys)
  then show ?case by (cases s) auto
qed auto

lemma str_lt_asym: "str_lt s t \<Longrightarrow> \<not> str_lt t s"
  using str_lt_trans str_lt_irrefl by blast

lemma str_lt_total: "s \<noteq> t \<Longrightarrow> str_lt s t \<or> str_lt t s"
proof (induction s t rule: str_lt.induct)
  case (1 s)
  then show ?case by (cases s) auto
next
  case (3 x xs y ys)
  then show ?case by (metis less_linear list.inject of_char_eq_iff str_lt.simps(3))
qed auto

lemma sorted_map_Cons: "sorted_map ((k, v) # m) \<longleftrightarrow> sorted_map m \<and> (\<forall>(j, w) \<in> set m. str_lt k j)"
proof (induction m arbitrary: k v)
  case (Cons e m)
  obtain j w where e: "e = (j, w)" by fastforce
  show ?case using Cons [of j w] by (auto simp: e dest: str_lt_trans)
qed simp

lemma map_set_last:
  "(\<And>j w. (j, w) \<in> set m \<Longrightarrow> str_lt j k) \<Longrightarrow> map_set k v m = m @ [(k, v)]"
  by (induction k v m rule: map_set.induct) (use str_lt_asym in \<open>fastforce+\<close>)

lemma fold_map_set_append:
  "sorted_map (acc @ m) \<Longrightarrow> fold (\<lambda>(k, v). map_set k v) m acc = acc @ m"
proof (induction m arbitrary: acc)
  case (Cons e m)
  obtain k v where e: "e = (k, v)" by fastforce
  have "sorted_map (acc @ (k, v) # m) \<Longrightarrow> (j, w) \<in> set acc \<Longrightarrow> str_lt j k" for j w
    by (induction acc) (auto simp: sorted_map_Cons)
  then have "map_set k v acc = acc @ [(k, v)]" using Cons.prems by (intro map_set_last) (auto simp: e)
  then show ?case using Cons by (simp add: e)
qed simp

text \<open>Copying an ordered map entry by entry gives the same map.\<close>

lemma fold_map_set [simp]: "sorted_map m \<Longrightarrow> fold (\<lambda>(k, v). map_set k v) m [] = m"
  using fold_map_set_append [of "[]" m] by simp

lemma map_set_in: "(j, w) \<in> set (map_set k v m) \<Longrightarrow> (j, w) = (k, v) \<or> (j, w) \<in> set m"
  by (induction k v m rule: map_set.induct) (auto split: if_splits)

lemma sorted_map_set: "sorted_map m \<Longrightarrow> sorted_map (map_set k v m)"
proof (induction k v m rule: map_set.induct)
  case (2 k v j w m)
  then show ?case
    using str_lt_total [of j k]
    by (auto simp: sorted_map_Cons dest: str_lt_trans dest!: map_set_in)
qed simp

lemma map_of_map_set: "sorted_map m \<Longrightarrow> map_of (map_set k v m) = (map_of m)(k \<mapsto> v)"
  by (induction k v m rule: map_set.induct) (auto simp: sorted_map_Cons fun_eq_iff)

subsection \<open>Words\<close>

lemma unat_plus_one: "unat x + 1 < 2 ^ LENGTH('a) \<Longrightarrow> unat (x + 1 :: 'a::len word) = unat x + 1"
  by (simp add: unat_word_ariths)

lemma unat_lt2p: "unat (x :: 'a::len word) < 2 ^ LENGTH('a)"
  by (rule unsigned_less)

lemma unat_plus_one_nz:
  fixes x :: "'a::len word"
  assumes "x + 1 \<noteq> 0"
  shows "unat (x + 1) = unat x + 1"
proof (cases "unat x + 1 < 2 ^ LENGTH('a)")
  case True
  then show ?thesis by (rule unat_plus_one)
next
  case False
  with unat_lt2p [of x] have "unat x + 1 = 2 ^ LENGTH('a)" by linarith
  then have "unat (x + 1) = 0" by (simp add: unat_word_ariths)
  then show ?thesis using assms by (simp add: unat_eq_0)
qed

lemma sint_of_int_64: "- (2 ^ 63) \<le> i \<Longrightarrow> i < 2 ^ 63 \<Longrightarrow> sint (word_of_int i :: i64) = i"
  by (simp add: sint_sbintrunc' signed_take_bit_int_eq_self)

text \<open>Mixed signed and unsigned arithmetic that stays in the signed range.\<close>

lemma sint_minus_unat:
  fixes a b :: "64 word"
  assumes "- (2 ^ 63) \<le> sint a - int (unat b)" "sint a - int (unat b) < 2 ^ 63"
  shows "sint (a - b) = sint a - int (unat b)"
proof -
  have "word_of_int (sint a - int (unat b)) = a - b" by simp
  then show ?thesis using sint_of_int_64 [OF assms] by (simp only:)
qed

lemma sint_minus_uint:
  fixes a b :: "64 word"
  shows "- (2 ^ 63) \<le> sint a - uint b \<Longrightarrow> sint a - uint b < 2 ^ 63 \<Longrightarrow> sint (a - b) = sint a - uint b"
  using sint_minus_unat [of a b] by simp

lemma uint_plus_one: "uint x + 1 < 2 ^ LENGTH('a) \<Longrightarrow> uint (x + 1 :: 'a::len word) = uint x + 1"
  by (simp add: uint_word_ariths)

lemma uint_minus_one: "0 < uint x \<Longrightarrow> uint (x - 1 :: 'a::len word) = uint x - 1"
  by (simp add: uint_sub_if')

text \<open>A counter that has not passed a modulus is a multiple of it only when it has reached it.\<close>

lemma word_mod_full:
  "(w :: 'a::len word) mod n = 0 \<Longrightarrow> uint w \<le> uint n \<Longrightarrow> w \<noteq> 0 \<Longrightarrow> w = n"
  by (metis mod_pos_pos_trivial order_le_less uint_mod_distrib unsigned_greater_eq unsigned_word_eqI)

lemma word_mod_part:
  "(w :: 'a::len word) mod n \<noteq> 0 \<Longrightarrow> uint w \<le> uint n \<Longrightarrow> uint w < uint n"
  by (metis linorder_not_le mod_word_self order_antisym_conv word_of_int_uint)

lemma sint_minus_one: "- (2 ^ 63) < sint a \<Longrightarrow> sint (a - 1 :: i64) = sint a - 1"
  using sint_lt [of a] sint_minus_unat [of a 1] by simp

lemma sint_plus_one: "sint a + 1 < 2 ^ 63 \<Longrightarrow> sint (a + 1 :: i64) = sint a + 1"
proof -
  assume "sint a + 1 < 2 ^ 63"
  moreover have "- (2 ^ 63) \<le> sint a" using sint_ge [of a] by simp
  moreover have "word_of_int (sint a + 1) = a + 1" by simp
  ultimately show ?thesis using sint_of_int_64 [of "sint a + 1"] by simp
qed

subsection \<open>Printing and parsing decimals are inverse\<close>

lemma digit_of_char [simp]:
  "d < 10 \<Longrightarrow> is_digit (char_of (48 + d))" "d < 10 \<Longrightarrow> digit_value (char_of (48 + d)) = d"
  by (simp_all add: is_digit_def digit_value_def)

lemma parse_digits_append:
  "parse_digits acc (xs @ ys) = Option.bind (parse_digits acc xs) (\<lambda>a. parse_digits a ys)"
  by (induction xs arbitrary: acc) auto

lemma show_nat_ne [simp]: "show_nat n \<noteq> []"
  by (subst show_nat.simps) simp

lemma show_nat_digits: "c \<in> set (show_nat n) \<Longrightarrow> is_digit c"
proof (induction n rule: show_nat.induct)
  case (1 n)
  then show ?case by (subst (asm) (2) show_nat.simps) (auto split: if_splits)
qed

lemma parse_show_nat: "parse_digits 0 (show_nat n) = Some n"
proof (induction n rule: show_nat.induct)
  case (1 n)
  then show ?case
    by (subst show_nat.simps) (simp add: parse_digits_append)
qed

lemma digit_not_space: "is_digit c \<Longrightarrow> \<not> is_space c"
  by (simp add: is_digit_def is_space_def)

lemma digit_not_sign: "is_digit c \<Longrightarrow> c \<noteq> CHR ''-'' \<and> c \<noteq> CHR ''+'' \<and> c \<noteq> CHR ''.'' \<and> c \<noteq> CHR '':''"
  by (auto simp: is_digit_def)

lemma strip_whitespace_id: "(\<And>c. c \<in> set s \<Longrightarrow> \<not> is_space c) \<Longrightarrow> strip_whitespace s = s"
proof -
  assume a: "\<And>c. c \<in> set s \<Longrightarrow> \<not> is_space c"
  have d: "dropWhile is_space t = t" if "set t \<subseteq> set s" for t
    using that a by (cases t) auto
  show ?thesis by (simp add: strip_whitespace_def d)
qed

lemma parse_decimal_show: "parse_decimal (show_nat n) = Some (False, n)"
proof -
  have s: "strip_whitespace (show_nat n) = show_nat n"
    by (rule strip_whitespace_id) (auto dest: show_nat_digits digit_not_space)
  have h: "hd (show_nat n) \<noteq> CHR ''-'' \<and> hd (show_nat n) \<noteq> CHR ''+''"
    using show_nat_digits [of "hd (show_nat n)" n] digit_not_sign by simp
  show ?thesis using h by (simp add: parse_decimal_def s Let_def parse_show_nat)
qed

lemma simple_atou_show [simp]: "n \<le> m \<Longrightarrow> simple_atou m (show_nat n) = Some n"
  by (simp add: simple_atou_def parse_decimal_show)

lemma simple_atou_le: "simple_atou m s = Some n \<Longrightarrow> n \<le> m"
  by (auto simp: simple_atou_def split: option.splits prod.splits bool.splits if_splits)

end
