(* ===== verification/Doubles.thy ===== *)
theory Doubles
  imports Prelude "HOL-Library.Log_Nat"
begin

text \<open>
  The C++ type \<^verbatim>\<open>double\<close>: IEEE-754 binary64 with round-to-nearest, ties-to-even, as an
  executable datatype. A finite value is the rational it denotes; every arithmetic operation
  is the exact rational operation followed by \<open>to_double\<close>, which rounds to 53 significant bits
  (fewer below the normal range) and overflows to an infinity. The sign of a zero is not
  represented: no modelled operation divides by a computed zero or prints a zero's sign.

  The lemmas show that rounding is monotone, is exact on the integers up to two to the 53rd and
  has relative error at most two to the minus 53rd on the normal range.
\<close>

section \<open>Rounding of rationals\<close>

text \<open>The exponent of the leading bit of a positive rational.\<close>

definition ilog2 :: "rat \<Rightarrow> int" where
  "ilog2 x = (case quotient_of x of (p, q) \<Rightarrow>
     (let k = bitlen p - bitlen q in if 2 powi k \<le> x then k else k - 1))"

text \<open>Round to the nearest integer, ties to even.\<close>

definition rne :: "rat \<Rightarrow> int" where
  "rne x = (let f = \<lfloor>x\<rfloor>; d = x - of_int f in
     if d < 1/2 then f else if 1/2 < d then f + 1 else if even f then f else f + 1)"

text \<open>The exponent of the last significand bit of a binary64 number near \<open>x\<close>.\<close>

definition ulp_exp :: "rat \<Rightarrow> int" where
  "ulp_exp x = max (ilog2 \<bar>x\<bar> - 52) (-1074)"

definition rnd :: "rat \<Rightarrow> rat" where
  "rnd x = (if x = 0 then 0 else of_int (rne (x * 2 powi (- ulp_exp x))) * 2 powi (ulp_exp x))"

section \<open>The datatype and its operations\<close>

datatype double = NaN | NegInf | PosInf | Fin rat

definition to_double :: "rat \<Rightarrow> double" where
  "to_double x = (let r = rnd x in
     if 2 ^ 1024 \<le> r then PosInf else if r \<le> - (2 ^ 1024) then NegInf else Fin r)"

definition double_of_u64 :: "u64 \<Rightarrow> double" where
  "double_of_u64 w = to_double (of_nat (unat w))"

definition double_of_int :: "int \<Rightarrow> double" where
  "double_of_int i = to_double (of_int i)"

fun isnan :: "double \<Rightarrow> bool" where
  "isnan NaN = True"
| "isnan _ = False"

fun is_finite :: "double \<Rightarrow> bool" where
  "is_finite (Fin _) = True"
| "is_finite _ = False"

fun dneg :: "double \<Rightarrow> double" where
  "dneg (Fin x) = Fin (- x)"
| "dneg PosInf = NegInf"
| "dneg NegInf = PosInf"
| "dneg NaN = NaN"

fun dabs :: "double \<Rightarrow> double" where
  "dabs (Fin x) = Fin \<bar>x\<bar>"
| "dabs PosInf = PosInf"
| "dabs NegInf = PosInf"
| "dabs NaN = NaN"

fun dadd :: "double \<Rightarrow> double \<Rightarrow> double" where
  "dadd (Fin x) (Fin y) = to_double (x + y)"
| "dadd NaN _ = NaN"
| "dadd _ NaN = NaN"
| "dadd PosInf NegInf = NaN"
| "dadd NegInf PosInf = NaN"
| "dadd PosInf _ = PosInf"
| "dadd NegInf _ = NegInf"
| "dadd _ PosInf = PosInf"
| "dadd _ NegInf = NegInf"

definition inf_of_sign :: "rat \<Rightarrow> double" where
  "inf_of_sign x = (if x = 0 then NaN else if 0 < x then PosInf else NegInf)"

fun dmul :: "double \<Rightarrow> double \<Rightarrow> double" where
  "dmul (Fin x) (Fin y) = to_double (x * y)"
| "dmul NaN _ = NaN"
| "dmul _ NaN = NaN"
| "dmul PosInf (Fin y) = inf_of_sign y"
| "dmul NegInf (Fin y) = inf_of_sign (- y)"
| "dmul (Fin x) PosInf = inf_of_sign x"
| "dmul (Fin x) NegInf = inf_of_sign (- x)"
| "dmul PosInf PosInf = PosInf"
| "dmul NegInf NegInf = PosInf"
| "dmul PosInf NegInf = NegInf"
| "dmul NegInf PosInf = NegInf"

fun ddiv :: "double \<Rightarrow> double \<Rightarrow> double" where
  "ddiv (Fin x) (Fin y) = (if y = 0 then inf_of_sign x else to_double (x / y))"
| "ddiv NaN _ = NaN"
| "ddiv _ NaN = NaN"
| "ddiv (Fin _) PosInf = Fin 0"
| "ddiv (Fin _) NegInf = Fin 0"
| "ddiv PosInf (Fin y) = (if y < 0 then NegInf else PosInf)"
| "ddiv NegInf (Fin y) = (if y < 0 then PosInf else NegInf)"
| "ddiv _ _ = NaN"

fun dle :: "double \<Rightarrow> double \<Rightarrow> bool" where
  "dle (Fin x) (Fin y) = (x \<le> y)"
| "dle NaN _ = False"
| "dle _ NaN = False"
| "dle NegInf _ = True"
| "dle _ PosInf = True"
| "dle _ _ = False"

definition dlt :: "double \<Rightarrow> double \<Rightarrow> bool" where
  "dlt x y \<longleftrightarrow> dle x y \<and> \<not> dle y x"

text \<open>
  C++ writes these operations with the arithmetic symbols; the instances below let the model do
  so too. They are the syntactic classes: floating-point arithmetic satisfies no algebraic law
  that the numeric classes would demand.
\<close>

instantiation double :: "{zero, one, plus, minus, uminus, times, inverse, ord, abs}"
begin

definition zero_double :: double where "0 = Fin 0"

definition one_double :: double where "1 = Fin 1"

definition plus_double :: "double \<Rightarrow> double \<Rightarrow> double" where "x + y = dadd x y"

definition uminus_double :: "double \<Rightarrow> double" where "- x = dneg x"

definition minus_double :: "double \<Rightarrow> double \<Rightarrow> double" where "x - y = dadd x (dneg y)"

definition times_double :: "double \<Rightarrow> double \<Rightarrow> double" where "x * y = dmul x y"

definition divide_double :: "double \<Rightarrow> double \<Rightarrow> double" where "x div y = ddiv x y"

definition inverse_double :: "double \<Rightarrow> double" where "inverse x = ddiv (Fin 1) x"

definition abs_double :: "double \<Rightarrow> double" where "\<bar>x\<bar> = dabs x"

definition less_eq_double :: "double \<Rightarrow> double \<Rightarrow> bool" where "x \<le> y \<longleftrightarrow> dle x y"

definition less_double :: "double \<Rightarrow> double \<Rightarrow> bool" where "x < y \<longleftrightarrow> dlt x y"

instance ..

end

text \<open>
  \<^verbatim>\<open>std::floor\<close> and \<^verbatim>\<open>std::round\<close> (halves away from zero). The integer part of a binary64
  number is a binary64 number, so neither rounds.
\<close>

fun dfloor :: "double \<Rightarrow> double" where
  "dfloor (Fin x) = Fin (of_int \<lfloor>x\<rfloor>)"
| "dfloor d = d"

definition round_half_away :: "rat \<Rightarrow> int" where
  "round_half_away x = (if 0 \<le> x then \<lfloor>x + 1/2\<rfloor> else - \<lfloor>- x + 1/2\<rfloor>)"

fun dround :: "double \<Rightarrow> double" where
  "dround (Fin x) = Fin (of_int (round_half_away x))"
| "dround d = d"

text \<open>
  The cast to \<^verbatim>\<open>int64_t\<close> truncates towards zero. Out of range the language leaves the result
  undefined; the model takes the value the x86-64 conversion instruction delivers, the smallest
  \<^verbatim>\<open>int64_t\<close>.
\<close>

definition truncate_rat :: "rat \<Rightarrow> int" where
  "truncate_rat x = (if 0 \<le> x then \<lfloor>x\<rfloor> else \<lceil>x\<rceil>)"

fun i64_of_double :: "double \<Rightarrow> i64" where
  "i64_of_double (Fin x) =
     (let t = truncate_rat x in
      if - (2 ^ 63) \<le> t \<and> t < 2 ^ 63 then word_of_int t else word_of_int (- (2 ^ 63)))"
| "i64_of_double _ = word_of_int (- (2 ^ 63))"


section \<open>Properties of rounding\<close>

lemma pow2_pos [simp]: "(0::rat) < 2 powi k"
  by (simp add: zero_less_power_int)

lemma pow2_mono: "a \<le> b \<Longrightarrow> (2::rat) powi a \<le> 2 powi b"
  by (simp add: power_int_increasing)

lemma pow2_cancel [simp]: "(2::rat) powi k * 2 powi (- k) = 1" "(2::rat) powi (- k) * 2 powi k = 1"
  by (simp_all add: power_int_minus)

lemma ilog2_bounds:
  assumes "0 < x"
  shows "2 powi (ilog2 x) \<le> x" and "x < 2 powi (ilog2 x + 1)"
proof -
  obtain p q where pq: "quotient_of x = (p, q)" by (cases "quotient_of x")
  have q: "0 < q" using quotient_of_denom_pos [OF pq] .
  have x: "x = of_int p / of_int q" using quotient_of_div [OF pq] .
  have p: "0 < p" using assms q by (simp add: x zero_less_divide_iff)
  define a where "a = bitlen p"
  define b where "b = bitlen q"
  have a1: "1 \<le> a" and b1: "1 \<le> b"
    using p q by (simp_all add: a_def b_def bitlen_alt_def)
  have "of_int (2 ^ nat (a - 1)) \<le> (of_int p :: rat)" and "(of_int p :: rat) < of_int (2 ^ nat a)"
    using bitlen_bounds [OF p] unfolding of_int_le_iff of_int_less_iff a_def by simp_all
  then have pl: "2 powi (a - 1) \<le> (of_int p :: rat)" and pu: "(of_int p :: rat) < 2 powi a"
    using a1 by (simp_all add: power_int_def)
  have "of_int (2 ^ nat (b - 1)) \<le> (of_int q :: rat)" and "(of_int q :: rat) < of_int (2 ^ nat b)"
    using bitlen_bounds [OF q] unfolding of_int_le_iff of_int_less_iff b_def by simp_all
  then have ql: "2 powi (b - 1) \<le> (of_int q :: rat)" and qu: "(of_int q :: rat) < 2 powi b"
    using b1 by (simp_all add: power_int_def)
  have upper: "x < 2 powi (a - b + 1)"
  proof -
    have "of_int p < (2::rat) powi (a - b + 1) * 2 powi (b - 1)"
      using pu by (simp flip: power_int_add)
    also have "\<dots> \<le> 2 powi (a - b + 1) * of_int q"
      using ql by (intro mult_left_mono) simp_all
    finally show ?thesis using q by (simp add: x divide_less_eq)
  qed
  have lower: "2 powi (a - b - 1) \<le> x"
  proof -
    have "(2::rat) powi (a - b - 1) * of_int q \<le> 2 powi (a - b - 1) * 2 powi b"
      using qu by (intro mult_left_mono) simp_all
    also have "\<dots> \<le> of_int p" using pl by (simp flip: power_int_add)
    finally show ?thesis using q by (simp add: x le_divide_eq)
  qed
  show "2 powi (ilog2 x) \<le> x" and "x < 2 powi (ilog2 x + 1)"
    using upper lower by (simp_all add: ilog2_def pq a_def b_def Let_def)
qed

lemma ilog2_le_iff: "0 < x \<Longrightarrow> k \<le> ilog2 x \<longleftrightarrow> 2 powi k \<le> x"
proof
  assume x: "0 < x" and "k \<le> ilog2 x"
  then show "2 powi k \<le> x" using ilog2_bounds(1) [OF x] pow2_mono by (meson order_trans)
next
  assume x: "0 < x" and k: "2 powi k \<le> x"
  show "k \<le> ilog2 x"
  proof (rule ccontr)
    assume "\<not> k \<le> ilog2 x"
    then have "(2::rat) powi (ilog2 x + 1) \<le> 2 powi k" by (intro pow2_mono) simp
    then show False using ilog2_bounds(2) [OF x] k by simp
  qed
qed

lemma ilog2_mono: "0 < x \<Longrightarrow> x \<le> y \<Longrightarrow> ilog2 x \<le> ilog2 y"
  using ilog2_bounds(1) [of x] by (simp add: ilog2_le_iff)

lemma ilog2_pow2 [simp]: "ilog2 (2 powi k) = k"
proof -
  have "\<not> k + 1 \<le> ilog2 (2 powi k)" by (simp add: ilog2_le_iff power_int_add)
  moreover have "k \<le> ilog2 (2 powi k)" by (simp add: ilog2_le_iff)
  ultimately show ?thesis by simp
qed

lemma rne_of_int [simp]: "rne (of_int k) = k"
  by (simp add: rne_def Let_def)

lemma rne_lower: "of_int (rne x) \<ge> x - 1/2" and rne_upper: "of_int (rne x) \<le> x + 1/2"
  using floor_correct [of x] unfolding rne_def Let_def by (auto simp: not_less) linarith+

lemma rne_mono: assumes "x \<le> y" shows "rne x \<le> rne y"
proof (cases "\<lfloor>x\<rfloor> = \<lfloor>y\<rfloor>")
  case True
  then show ?thesis using assms by (auto simp: rne_def Let_def)
next
  case False
  then have "\<lfloor>x\<rfloor> + 1 \<le> \<lfloor>y\<rfloor>" using floor_mono [OF assms] by simp
  then show ?thesis by (auto simp: rne_def Let_def)
qed

lemma rne_minus [simp]: "rne (- x) = - rne x"
proof (cases "x = of_int \<lfloor>x\<rfloor>")
  case True
  have "rne (- x) = - \<lfloor>x\<rfloor>" by (subst True) (metis of_int_minus rne_of_int)
  moreover have "rne x = \<lfloor>x\<rfloor>" by (subst True) simp
  ultimately show ?thesis by simp
next
  case False
  then have "\<lfloor>- x\<rfloor> = - \<lfloor>x\<rfloor> - 1"
    using floor_correct [of x] by (intro floor_unique) (auto simp: less_le)
  then show ?thesis by (auto simp: rne_def Let_def not_less)
qed

lemma rnd_0 [simp]: "rnd 0 = 0"
  by (simp add: rnd_def)

lemma rnd_minus [simp]: "rnd (- x) = - rnd x"
  by (simp add: rnd_def ulp_exp_def)

lemma pow2_scaled: "e \<le> k \<Longrightarrow> (2::rat) powi k * 2 powi (- e) = of_int (2 ^ nat (k - e))"
proof -
  assume "e \<le> k"
  have "(2::rat) powi k * 2 powi (- e) = 2 powi (k - e)" by (simp flip: power_int_add)
  then show ?thesis using \<open>e \<le> k\<close> by (simp add: power_int_def)
qed

lemma pow2_unscaled: "e \<le> k \<Longrightarrow> of_int (2 ^ nat (k - e)) * 2 powi e = (2::rat) powi k"
  by (simp only: pow2_scaled [symmetric] mult.assoc pow2_cancel mult_1_right)

lemma rnd_le_pow2:
  assumes "x \<noteq> 0" "ulp_exp x \<le> k" "x \<le> 2 powi k"
  shows "rnd x \<le> 2 powi k"
proof -
  let ?e = "ulp_exp x"
  have "x * 2 powi (- ?e) \<le> of_int (2 ^ nat (k - ?e))"
    unfolding pow2_scaled [OF assms(2), symmetric] using assms(3) by (intro mult_right_mono) simp_all
  then have "rne (x * 2 powi (- ?e)) \<le> rne (of_int (2 ^ nat (k - ?e)))" by (rule rne_mono)
  then have "(of_int (rne (x * 2 powi (- ?e))) :: rat) \<le> of_int (2 ^ nat (k - ?e))"
    by (simp only: rne_of_int of_int_le_iff)
  then have "rnd x \<le> of_int (2 ^ nat (k - ?e)) * 2 powi ?e"
    using assms(1) by (simp add: rnd_def mult_right_mono)
  then show ?thesis by (simp only: pow2_unscaled [OF assms(2)])
qed

lemma rnd_ge_pow2:
  assumes "ulp_exp x \<le> k" "2 powi k \<le> x"
  shows "2 powi k \<le> rnd x"
proof -
  let ?e = "ulp_exp x"
  have x: "x \<noteq> 0" using assms(2) pow2_pos [of k] by linarith
  have "of_int (2 ^ nat (k - ?e)) \<le> x * 2 powi (- ?e)"
    unfolding pow2_scaled [OF assms(1), symmetric] using assms(2) by (intro mult_right_mono) simp_all
  then have "rne (of_int (2 ^ nat (k - ?e))) \<le> rne (x * 2 powi (- ?e))" by (rule rne_mono)
  then have "of_int (2 ^ nat (k - ?e)) \<le> (of_int (rne (x * 2 powi (- ?e))) :: rat)"
    by (simp only: rne_of_int of_int_le_iff)
  then have "of_int (2 ^ nat (k - ?e)) * 2 powi ?e \<le> rnd x"
    using x by (simp add: rnd_def mult_right_mono)
  then show ?thesis by (simp only: pow2_unscaled [OF assms(1)])
qed

lemma rnd_nonneg: "0 \<le> x \<Longrightarrow> 0 \<le> rnd x"
  using rne_mono [of 0 "x * 2 powi (- ulp_exp x)"] rne_of_int [of 0]
  by (auto simp: rnd_def)

lemma rnd_mono_pos:
  assumes "0 < x" "x \<le> y"
  shows "rnd x \<le> rnd y"
proof (cases "ulp_exp x = ulp_exp y")
  case True
  have "rne (x * 2 powi (- ulp_exp x)) \<le> rne (y * 2 powi (- ulp_exp x))"
    using assms by (intro rne_mono mult_right_mono) simp_all
  then show ?thesis using assms True by (simp add: rnd_def mult_right_mono)
next
  case False
  let ?k = "ilog2 y"
  have "ilog2 x \<le> ilog2 y" using assms by (rule ilog2_mono)
  with False assms have less: "ilog2 x + 1 \<le> ?k" and ux: "ulp_exp x \<le> ?k" and uy: "ulp_exp y \<le> ?k"
    by (auto simp: ulp_exp_def max_def split: if_splits)
  have "x < 2 powi (ilog2 x + 1)" using ilog2_bounds(2) [OF assms(1)] .
  also have "\<dots> \<le> 2 powi ?k" using less by (rule pow2_mono)
  finally have "rnd x \<le> 2 powi ?k" using assms(1) ux by (intro rnd_le_pow2) simp_all
  also have "\<dots> \<le> rnd y" using uy ilog2_bounds(1) [of y] assms by (intro rnd_ge_pow2) simp_all
  finally show ?thesis .
qed

theorem rnd_mono: assumes "x \<le> y" shows "rnd x \<le> rnd y"
proof (cases "0 < x")
  case True
  then show ?thesis using assms by (rule rnd_mono_pos)
next
  case False
  show ?thesis
  proof (cases "y < 0")
    case True
    then have "rnd (- y) \<le> rnd (- x)" using assms by (intro rnd_mono_pos) simp_all
    then show ?thesis by simp
  next
    case y: False
    have "rnd x \<le> 0" using rnd_nonneg [of "- x"] False by simp
    also have "0 \<le> rnd y" using y by (simp add: rnd_nonneg)
    finally show ?thesis .
  qed
qed

text \<open>Every integer multiple of a power of two that fits the significand is representable.\<close>

lemma rnd_grid:
  assumes "\<bar>m\<bar> \<le> 2 ^ 53" "-1074 \<le> e"
  shows "rnd (of_int m * 2 powi e) = of_int m * 2 powi e"
proof (cases "m = 0")
  case False
  let ?x = "of_int m * 2 powi e :: rat"
  have nz: "?x \<noteq> 0" using False by simp
  have "\<bar>?x\<bar> \<le> 2 powi 53 * 2 powi e"
    using assms(1) by (simp add: abs_mult mult_right_mono)
  then have le: "\<bar>?x\<bar> \<le> 2 powi (53 + e)" by (simp add: power_int_add)
  show ?thesis
  proof (cases "\<bar>?x\<bar> = 2 powi (53 + e)")
    case True
    then have u: "ulp_exp ?x \<le> 53 + e"
      using assms(2) by (simp add: ulp_exp_def)
    have "rnd \<bar>?x\<bar> = \<bar>?x\<bar>"
      using rnd_le_pow2 [of "\<bar>?x\<bar>" "53 + e"] rnd_ge_pow2 [of "\<bar>?x\<bar>" "53 + e"] nz u True
      by (simp add: ulp_exp_def)
    then show ?thesis by (auto simp: abs_if split: if_splits)
  next
    case neq: False
    then have "\<bar>?x\<bar> < 2 powi (53 + e)" using le by simp
    then have "\<not> 53 + e \<le> ilog2 \<bar>?x\<bar>" using nz by (simp add: ilog2_le_iff)
    then have u: "ulp_exp ?x \<le> e" using assms(2) by (simp add: ulp_exp_def)
    have "?x * 2 powi (- ulp_exp ?x) = of_int (m * 2 ^ nat (e - ulp_exp ?x))"
      using pow2_scaled [OF u] by (simp add: mult.assoc)
    then have "rnd ?x = of_int (m * 2 ^ nat (e - ulp_exp ?x)) * 2 powi (ulp_exp ?x)"
      using nz unfolding rnd_def by (simp only: rne_of_int if_False)
    also have "\<dots> = ?x"
      using pow2_unscaled [OF u] by (simp add: mult.assoc)
    finally show ?thesis .
  qed
qed simp

corollary rnd_int: "\<bar>m\<bar> \<le> 2 ^ 53 \<Longrightarrow> rnd (of_int m) = of_int m"
  using rnd_grid [of m 0] by simp

corollary rnd_nat: "n \<le> 2 ^ 53 \<Longrightarrow> rnd (of_nat n) = of_nat n"
  using rnd_int [of "int n"] by simp

text \<open>On the normal range the relative error of rounding is at most half a unit in the last place.\<close>

theorem rnd_rel_err:
  assumes "2 powi (-1022) \<le> \<bar>x\<bar>"
  shows "\<bar>rnd x - x\<bar> \<le> 2 powi (-53) * \<bar>x\<bar>"
proof -
  have nz: "0 < \<bar>x\<bar>" using assms pow2_pos [of "-1022"] by linarith
  let ?e = "ulp_exp x"
  have e: "?e = ilog2 \<bar>x\<bar> - 52"
    using assms nz ilog2_le_iff [of "\<bar>x\<bar>" "-1022"] by (simp add: ulp_exp_def)
  let ?s = "x * 2 powi (- ?e)"
  have "rnd x - x = (of_int (rne ?s) - ?s) * 2 powi ?e"
    using nz by (simp add: rnd_def left_diff_distrib mult.assoc)
  moreover have "\<bar>of_int (rne ?s) - ?s\<bar> \<le> 1/2"
    using rne_lower [of ?s] rne_upper [of ?s] by linarith
  ultimately have "\<bar>rnd x - x\<bar> \<le> 1/2 * 2 powi ?e"
    by (simp add: abs_mult mult_right_mono)
  also have "(1/2 :: rat) * 2 powi ?e = 2 powi (-53) * 2 powi (ilog2 \<bar>x\<bar>)"
    by (simp add: e power_int_diff power_int_minus)
  also have "\<dots> \<le> 2 powi (-53) * \<bar>x\<bar>"
    using ilog2_bounds(1) [OF nz] by (intro mult_left_mono) simp_all
  finally show ?thesis .
qed

text \<open>The error bound in multiplicative form, with the unit roundoff \<open>2 powi (-53)\<close>.\<close>

abbreviation roundoff :: rat where
  "roundoff \<equiv> 1 / 9007199254740992"

lemma rnd_upper: "2 powi (-1022) \<le> x \<Longrightarrow> rnd x \<le> x * (1 + roundoff)"
  and rnd_lower: "2 powi (-1022) \<le> x \<Longrightarrow> x * (1 - roundoff) \<le> rnd x"
proof -
  assume x: "2 powi (-1022) \<le> x"
  then have "0 < x" using pow2_pos [of "-1022"] by linarith
  then have "\<bar>rnd x - x\<bar> \<le> 2 powi (-53) * x" using rnd_rel_err [of x] x by simp
  also have "2 powi (-53) * x = x * roundoff" by (simp add: power_int_minus)
  finally show "rnd x \<le> x * (1 + roundoff)" and "x * (1 - roundoff) \<le> rnd x"
    by (simp_all only: distrib_left right_diff_distrib mult_1_right)
qed

lemma rnd_pow2 [simp]: "-1074 \<le> k \<Longrightarrow> rnd (2 powi k) = 2 powi k"
  using rnd_grid [of 1 k] by simp

lemma rnd_ge_powI: "-1074 \<le> k \<Longrightarrow> 2 powi k \<le> x \<Longrightarrow> 2 powi k \<le> rnd x"
  using rnd_mono [of "2 powi k" x] by simp

lemma rnd_abs_leI:
  assumes "-1074 \<le> k" "\<bar>x\<bar> \<le> 2 powi k"
  shows "\<bar>rnd x\<bar> \<le> 2 powi k"
proof -
  have "rnd x \<le> rnd (2 powi k)" using assms by (intro rnd_mono) simp
  moreover have "rnd (- (2 powi k)) \<le> rnd x" using assms by (intro rnd_mono) simp
  ultimately show ?thesis using assms(1) by simp
qed

lemma ilog2_twice: "0 < x \<Longrightarrow> ilog2 (2 * x) = ilog2 x + 1"
proof -
  assume x: "0 < x"
  have "k \<le> ilog2 (2 * x) \<longleftrightarrow> k \<le> ilog2 x + 1" for k
  proof -
    have "k \<le> ilog2 (2 * x) \<longleftrightarrow> 2 powi k \<le> 2 * x" using x by (simp add: ilog2_le_iff)
    also have "(2 :: rat) powi k = 2 * 2 powi (k - 1)" by (simp add: power_int_diff)
    also have "2 * 2 powi (k - 1) \<le> 2 * x \<longleftrightarrow> k - 1 \<le> ilog2 x" using x by (simp add: ilog2_le_iff)
    finally show ?thesis by linarith
  qed
  from this [of "ilog2 (2 * x)"] this [of "ilog2 x + 1"] show ?thesis by linarith
qed

lemma rnd_twice: assumes "2 powi (-1022) \<le> \<bar>x\<bar>" shows "rnd (2 * x) = 2 * rnd x"
proof -
  have x: "0 < \<bar>x\<bar>" using assms pow2_pos [of "-1022"] by linarith
  have "-1022 \<le> ilog2 \<bar>x\<bar>" using assms x by (simp add: ilog2_le_iff)
  then have e: "ulp_exp (2 * x) = ulp_exp x + 1"
    using ilog2_twice [OF x] by (simp add: ulp_exp_def abs_mult)
  have "2 * x * 2 powi (- (ulp_exp x + 1)) = x * 2 powi (- ulp_exp x)" "(2 :: rat) powi (ulp_exp x + 1) = 2 * 2 powi (ulp_exp x)"
    by (simp_all add: power_int_diff power_int_add)
  then have "rnd (2 * x) = of_int (rne (x * 2 powi (- ulp_exp x))) * (2 * 2 powi (ulp_exp x))"
    using x by (simp only: rnd_def e) simp
  then show ?thesis using x by (simp add: rnd_def)
qed

lemma rnd_idem [simp]: "rnd (rnd x) = rnd x"
proof (cases "x = 0")
  case False
  let ?e = "ulp_exp x"
  have "\<bar>x\<bar> < 2 powi (ilog2 \<bar>x\<bar> + 1)" using ilog2_bounds(2) [of "\<bar>x\<bar>"] False by simp
  also have "\<dots> \<le> 2 powi (53 + ?e)" by (rule pow2_mono) (simp add: ulp_exp_def)
  finally have "\<bar>x\<bar> * 2 powi (- ?e) \<le> 2 powi (53 + ?e) * 2 powi (- ?e)" by (intro mult_right_mono) simp_all
  then have "\<bar>x * 2 powi (- ?e)\<bar> \<le> of_int (2 ^ 53)" by (simp add: abs_mult power_int_add mult.assoc)
  then have "rne (x * 2 powi (- ?e)) \<le> rne (of_int (2 ^ 53))" "rne (of_int (- (2 ^ 53))) \<le> rne (x * 2 powi (- ?e))"
    by (intro rne_mono; simp)+
  then have "\<bar>rne (x * 2 powi (- ?e))\<bar> \<le> 2 ^ 53" unfolding rne_of_int by linarith
  moreover have "-1074 \<le> ?e" by (simp add: ulp_exp_def)
  ultimately have "rnd (of_int (rne (x * 2 powi (- ?e))) * 2 powi ?e) = of_int (rne (x * 2 powi (- ?e))) * 2 powi ?e"
    by (rule rnd_grid)
  then show ?thesis using False unfolding rnd_def [of x] by simp
qed simp

section \<open>Facts for the operations\<close>

named_theorems dbl_defs \<open>the floating-point operators unfolded\<close>

lemmas [dbl_defs] =
  zero_double_def one_double_def plus_double_def minus_double_def uminus_double_def
  times_double_def divide_double_def abs_double_def less_eq_double_def less_double_def dlt_def

lemma to_double_Fin:
  assumes "\<bar>x\<bar> \<le> 2 ^ 1023"
  shows "to_double x = Fin (rnd x)"
proof -
  have b: "rnd (2 ^ 1023) = 2 ^ 1023" using rnd_grid [of 1 1023] by simp
  have "rnd x \<le> 2 ^ 1023" using rnd_mono [of x "2 ^ 1023"] assms b by simp
  moreover have "- (2 ^ 1023) \<le> rnd x"
    using rnd_mono [of "- (2 ^ 1023)" x] assms b by simp
  ultimately show ?thesis by (simp add: to_double_def Let_def)
qed

lemma to_double_small: "\<bar>x\<bar> \<le> 2 \<Longrightarrow> to_double x = Fin (rnd x)"
  by (rule to_double_Fin) (erule order_trans, simp)

lemma to_double_int: "\<bar>m\<bar> \<le> 2 ^ 53 \<Longrightarrow> to_double (of_int m) = Fin (of_int m)"
proof -
  assume m: "\<bar>m\<bar> \<le> 2 ^ 53"
  then have "\<bar>of_int m :: rat\<bar> \<le> 2 ^ 53"
    by (metis of_int_abs of_int_le_iff of_int_numeral of_int_power)
  also have "\<dots> \<le> 2 ^ 1023" by simp
  finally show ?thesis using m by (simp add: to_double_Fin rnd_int)
qed

lemma to_double_nat: "n \<le> 2 ^ 53 \<Longrightarrow> to_double (of_nat n) = Fin (of_nat n)"
  using to_double_int [of "int n"] by simp

lemma to_double_simps [simp]: "to_double 0 = Fin 0" "to_double 1 = Fin 1"
  using to_double_int [of 0] to_double_int [of 1] by simp_all

lemma to_double_dyadic:
  assumes "\<bar>m\<bar> \<le> 2 ^ 53" "k \<le> 1000"
  shows "to_double (of_int m / 2 ^ k) = Fin (of_int m / 2 ^ k)"
proof -
  have eq: "of_int m / 2 ^ k = (of_int m * 2 powi (- int k) :: rat)"
    by (simp add: power_int_minus power_int_of_nat divide_inverse)
  have "rnd (of_int m / 2 ^ k) = of_int m / 2 ^ k"
    unfolding eq using assms by (intro rnd_grid) simp_all
  moreover have "\<bar>of_int m / 2 ^ k :: rat\<bar> \<le> 2 ^ 1023"
  proof -
    have "\<bar>of_int m / 2 ^ k :: rat\<bar> \<le> of_int \<bar>m\<bar>"
      by (simp add: divide_le_eq mult_le_cancel_left1)
    also have "\<dots> \<le> of_int (2 ^ 53)" using assms(1) by (simp only: of_int_le_iff)
    also have "\<dots> \<le> 2 ^ 1023" by simp
    finally show ?thesis .
  qed
  ultimately show ?thesis using to_double_Fin by metis
qed

text \<open>Evaluation of small constants: integers, halves and quarters.\<close>

lemma to_double_const [simp]:
  "numeral n \<le> (9007199254740992 :: int) \<Longrightarrow> to_double (numeral n) = Fin (numeral n)"
  "numeral n \<le> (9007199254740992 :: int) \<Longrightarrow> to_double (- numeral n) = Fin (- numeral n)"
  "numeral n \<le> (9007199254740992 :: int) \<Longrightarrow> to_double (numeral n / 2) = Fin (numeral n / 2)"
  "numeral n \<le> (9007199254740992 :: int) \<Longrightarrow> to_double (numeral n / 4) = Fin (numeral n / 4)"
  "to_double (1 / 2) = Fin (1 / 2)" "to_double (1 / 4) = Fin (1 / 4)" "to_double (- 1) = Fin (- 1)"
  using to_double_dyadic [of "numeral n" 0] to_double_dyadic [of "- numeral n" 0]
    to_double_dyadic [of "numeral n" 1] to_double_dyadic [of "numeral n" 2]
    to_double_dyadic [of 1 1] to_double_dyadic [of 1 2] to_double_dyadic [of "- 1" 0]
  by simp_all

lemma double_of_u64_exact: "unat w \<le> 2 ^ 53 \<Longrightarrow> double_of_u64 w = Fin (of_nat (unat w))"
  unfolding double_of_u64_def by (rule to_double_nat)

lemma dle_Fin [simp]: "Fin x \<le> Fin y \<longleftrightarrow> x \<le> y" and dlt_Fin [simp]: "Fin x < Fin y \<longleftrightarrow> x < y"
  by (auto simp: dbl_defs)

lemma double_le_trans: "(x :: double) \<le> y \<Longrightarrow> y \<le> z \<Longrightarrow> x \<le> z"
  and double_less_trans: "(x :: double) < y \<Longrightarrow> y < z \<Longrightarrow> x < z"
  and double_less_le_trans: "(x :: double) < y \<Longrightarrow> y \<le> z \<Longrightarrow> x < z"
  and double_less_asym: "(x :: double) < y \<Longrightarrow> \<not> y < x"
  and double_le_less_trans: "(x :: double) \<le> y \<Longrightarrow> y < z \<Longrightarrow> x < z"
  and double_less_imp_le: "(x :: double) < y \<Longrightarrow> x \<le> y"
  and double_less_irrefl [simp]: "\<not> (x :: double) < x"
  by (cases x; cases y; cases z; auto simp: dbl_defs)+

lemma to_double_mono: "x \<le> y \<Longrightarrow> to_double x \<le> to_double y"
  using rnd_mono [of x y] by (auto simp: to_double_def Let_def dbl_defs)

lemma to_double_sorted: "sorted xs \<Longrightarrow> sorted_wrt (\<le>) (map to_double xs)"
  unfolding sorted_wrt_map by (rule sorted_wrt_mono_rel) (auto intro: to_double_mono)

lemma NaN_cmp [simp]: "\<not> NaN \<le> d" "\<not> d \<le> NaN" "\<not> NaN < d" "\<not> d < NaN"
  by (cases d; simp add: dbl_defs)+

text \<open>
  \<open>approx k x y\<close>: the computed \<open>y\<close> is within \<open>k\<close> relative roundoffs of the exact \<open>x\<close>. The rules
  follow a computation operation by operation.
\<close>

definition approx :: "nat \<Rightarrow> rat \<Rightarrow> rat \<Rightarrow> bool" where
  "approx k x y \<longleftrightarrow> x * (1 - roundoff) ^ k \<le> y \<and> y \<le> x * (1 + roundoff) ^ k"

lemma approx_refl: "approx 0 x x"
  by (simp add: approx_def)

lemma approx_weaken:
  assumes "approx k x y" "0 \<le> x" "k \<le> m"
  shows "approx m x y"
proof -
  have "x * (1 - roundoff) ^ m \<le> x * (1 - roundoff) ^ k"
    using assms(2,3) by (intro mult_left_mono power_decreasing) simp_all
  moreover have "x * (1 + roundoff) ^ k \<le> x * (1 + roundoff) ^ m"
    using assms(2,3) by (intro mult_left_mono power_increasing) simp_all
  ultimately show ?thesis using assms(1) by (simp add: approx_def)
qed

lemma approx_rnd:
  assumes "approx k x y" "2 powi (-1022) \<le> y"
  shows "approx (Suc k) x (rnd y)"
proof -
  have "x * (1 - roundoff) ^ k * (1 - roundoff) \<le> y * (1 - roundoff)"
    using assms(1) by (intro mult_right_mono) (simp_all add: approx_def)
  moreover have "y * (1 + roundoff) \<le> x * (1 + roundoff) ^ k * (1 + roundoff)"
    using assms(1) by (intro mult_right_mono) (simp_all add: approx_def)
  ultimately show ?thesis
    using rnd_upper [OF assms(2)] rnd_lower [OF assms(2)] by (simp add: approx_def mult_ac)
qed

lemma approx_scale:
  assumes "approx k x y" "0 \<le> c"
  shows "approx k (x * c) (y * c)"
  using mult_right_mono [OF _ assms(2), of "x * (1 - roundoff) ^ k" y]
    mult_right_mono [OF _ assms(2), of y "x * (1 + roundoff) ^ k"] assms(1)
  by (simp add: approx_def mult_ac)

lemma approx_add:
  "approx k x y \<Longrightarrow> approx k x' y' \<Longrightarrow> approx k (x + x') (y + y')"
  unfolding approx_def distrib_right by linarith

lemma approx_pos:
  assumes "approx k x y" "0 < x"
  shows "0 < y"
proof -
  have "0 < x * (1 - roundoff) ^ k" using assms(2) by (intro mult_pos_pos zero_less_power) simp_all
  then show ?thesis using assms(1) by (simp add: approx_def)
qed

lemma approx_divide:
  assumes "approx k x y" "approx m z w" "0 \<le> x" "0 < z"
  shows "x / z * ((1 - roundoff) ^ k / (1 + roundoff) ^ m) \<le> y / w"
    and "y / w \<le> x / z * ((1 + roundoff) ^ k / (1 - roundoff) ^ m)"
proof -
  have w: "0 < w" by (rule approx_pos [OF assms(2,4)])
  have lo: "0 < z * (1 - roundoff) ^ m"
    using assms(4) by (intro mult_pos_pos zero_less_power) simp_all
  have y: "0 \<le> y"
    using assms(1,3) unfolding approx_def
    by (elim conjE) (erule order_trans [rotated], simp)
  have "x * (1 - roundoff) ^ k / (z * (1 + roundoff) ^ m) \<le> y / w"
    using assms(1,2) y w by (intro frac_le) (simp_all add: approx_def)
  then show "x / z * ((1 - roundoff) ^ k / (1 + roundoff) ^ m) \<le> y / w" by simp
  have "y / w \<le> x * (1 + roundoff) ^ k / (z * (1 - roundoff) ^ m)"
    using assms(1-3) lo by (intro frac_le) (simp_all add: approx_def)
  then show "y / w \<le> x / z * ((1 + roundoff) ^ k / (1 - roundoff) ^ m)" by simp
qed

end
