(* ===== verification/Statistic.thy ===== *)
theory Statistic
  imports Doubles
begin

text \<open>
  The statistics of \<^verbatim>\<open>source/common/statistic_impl.{h,cc}\<close>.

  The arithmetic of the simple and the streaming statistic is a record of operations over a type
  of numbers. The code is the instance \<open>double_ops\<close>; the instance \<open>real_ops\<close> runs the same
  algorithm without rounding, and the theorems about it say which quantity the algorithm computes.
  The two histogram libraries (HdrHistogram and libcircllhist) and the protobuf wire format are
  parameters.
\<close>

section \<open>Square roots\<close>

text \<open>Integer square root, digit by digit in base four.\<close>

fun isqrt :: "nat \<Rightarrow> nat" where
  "isqrt n = (if n = 0 then 0 else
     (let r = 2 * isqrt (n div 4) in if (r + 1) * (r + 1) \<le> n then r + 1 else r))"

declare isqrt.simps [simp del]

text \<open>
  The correctly rounded square root. The root is computed to more than 54 bits, and half a unit is
  added when it is inexact, which rounds the way the exact root does.
\<close>

fun dsqrt :: "double \<Rightarrow> double" where
  "dsqrt (Fin x) =
     (if x < 0 then NaN
      else if x = 0 then Fin 0
      else
        (let k = 56 - ilog2 x div 2;
             y = x * 2 powi (2 * k);
             r = isqrt (nat \<lfloor>y\<rfloor>);
             root = (if of_nat (r * r) = y then of_nat r else of_nat r + 1 / 2)
         in to_double (root * 2 powi (- k))))"
| "dsqrt PosInf = PosInf"
| "dsqrt NegInf = NaN"
| "dsqrt NaN = NaN"

section \<open>Number types\<close>

record 'd float_ops =
  of_u64 :: "u64 \<Rightarrow> 'd"
  nan_value :: 'd
  is_nan :: "'d \<Rightarrow> bool"
  sqrt_fn :: "'d \<Rightarrow> 'd"

definition double_ops :: "double float_ops" where
  "double_ops = \<lparr>of_u64 = double_of_u64, nan_value = NaN, is_nan = isnan, sqrt_fn = dsqrt\<rparr>"

definition real_ops :: "real float_ops" where
  "real_ops = \<lparr>of_u64 = (\<lambda>w. real (unat w)), nan_value = 0, is_nan = (\<lambda>_. False), sqrt_fn = sqrt\<rparr>"

section \<open>The base class\<close>

record StatisticImpl =
  stat_id :: string
  stat_min :: u64
  stat_max :: u64
  stat_count :: u64

definition setId :: "string \<Rightarrow> 'a StatisticImpl_scheme \<Rightarrow> 'a StatisticImpl_scheme" where
  "setId i s = s\<lparr>stat_id := i\<rparr>"

definition StatisticImpl_addValue :: "u64 \<Rightarrow> 'a StatisticImpl_scheme \<Rightarrow> 'a StatisticImpl_scheme" where
  "StatisticImpl_addValue v s =
     s\<lparr>stat_min := min (stat_min s) v, stat_max := max (stat_max s) v, stat_count := stat_count s + 1\<rparr>"

definition StatisticImpl_serializeNative :: "'a StatisticImpl_scheme \<Rightarrow> string status_or" where
  "StatisticImpl_serializeNative s = Inl (Status kUnimplemented ''serializeNative not implemented.'')"

definition StatisticImpl_deserializeNative :: "string \<Rightarrow> 'a StatisticImpl_scheme \<Rightarrow> status" where
  "StatisticImpl_deserializeNative stream s =
     Status kUnimplemented ''deserializeNative not implemented.''"

section \<open>Sums of values and of squares\<close>

record 'd SimpleStatistic = StatisticImpl +
  sum_x :: 'd
  sum_x2 :: 'd

definition new_SimpleStatistic :: "'d::zero SimpleStatistic" where
  "new_SimpleStatistic =
     \<lparr>stat_id = [], stat_min = - 1, stat_max = 0, stat_count = 0, sum_x = 0, sum_x2 = 0\<rparr>"

definition SimpleStatistic_addValue ::
    "'d::{one, plus, times} float_ops \<Rightarrow> u64 \<Rightarrow> 'd SimpleStatistic \<Rightarrow> 'd SimpleStatistic" where
  "SimpleStatistic_addValue F v s =
     (let s = StatisticImpl_addValue v s
      in s\<lparr>sum_x := sum_x s + of_u64 F v, sum_x2 := sum_x2 s + 1 * of_u64 F v * of_u64 F v\<rparr>)"

definition SimpleStatistic_mean :: "'d::inverse float_ops \<Rightarrow> 'd SimpleStatistic \<Rightarrow> 'd" where
  "SimpleStatistic_mean F s =
     (if stat_count s = 0 then nan_value F else sum_x s / of_u64 F (stat_count s))"

definition SimpleStatistic_pvariance :: "'d::{minus, times, inverse} float_ops \<Rightarrow> 'd SimpleStatistic \<Rightarrow> 'd" where
  "SimpleStatistic_pvariance F s =
     (if stat_count s = 0 then nan_value F
      else sum_x2 s / of_u64 F (stat_count s) - SimpleStatistic_mean F s * SimpleStatistic_mean F s)"

definition SimpleStatistic_pstdev :: "'d::{minus, times, inverse} float_ops \<Rightarrow> 'd SimpleStatistic \<Rightarrow> 'd" where
  "SimpleStatistic_pstdev F s =
     (if stat_count s = 0 then nan_value F else sqrt_fn F (SimpleStatistic_pvariance F s))"

definition SimpleStatistic_combine ::
    "'d::plus SimpleStatistic \<Rightarrow> 'd SimpleStatistic \<Rightarrow> 'd SimpleStatistic" where
  "SimpleStatistic_combine a b =
     \<lparr>stat_id = [], stat_min = min (stat_min a) (stat_min b), stat_max = max (stat_max a) (stat_max b),
      stat_count = stat_count a + stat_count b,
      sum_x = sum_x a + sum_x b, sum_x2 = sum_x2 a + sum_x2 b\<rparr>"

text \<open>
  Serialisation goes through a protobuf message with the same fields; \<open>wire\<close> and \<open>parse\<close> are the
  protobuf encoder and decoder.
\<close>

definition SimpleStatistic_serializeNative ::
    "('d SimpleStatistic \<Rightarrow> string) \<Rightarrow> 'd SimpleStatistic \<Rightarrow> string status_or" where
  "SimpleStatistic_serializeNative wire s =
     Inr (wire \<lparr>stat_id = stat_id s, stat_min = stat_min s, stat_max = stat_max s,
                stat_count = stat_count s, sum_x = sum_x s, sum_x2 = sum_x2 s\<rparr>)"

definition SimpleStatistic_deserializeNative ::
    "(string \<Rightarrow> 'd SimpleStatistic option) \<Rightarrow> string \<Rightarrow> 'd SimpleStatistic
      \<Rightarrow> status \<times> 'd SimpleStatistic" where
  "SimpleStatistic_deserializeNative parse stream s =
     (case parse stream of
        None \<Rightarrow> (Status kInternal ''Failed to read back SimpleStatistic data'', s)
      | Some p \<Rightarrow> (OkStatus, s\<lparr>stat_id := stat_id p, stat_count := stat_count p, stat_min := stat_min p,
                     stat_max := stat_max p, sum_x := sum_x p, sum_x2 := sum_x2 p\<rparr>))"

section \<open>Streaming mean and variance\<close>

record 'd StreamingStatistic = StatisticImpl +
  mean_value :: 'd
  accumulated_variance :: 'd

definition new_StreamingStatistic :: "'d::zero StreamingStatistic" where
  "new_StreamingStatistic =
     \<lparr>stat_id = [], stat_min = - 1, stat_max = 0, stat_count = 0,
      mean_value = 0, accumulated_variance = 0\<rparr>"

definition StreamingStatistic_addValue ::
    "'d::{one, plus, minus, times, inverse} float_ops \<Rightarrow> u64 \<Rightarrow> 'd StreamingStatistic
      \<Rightarrow> 'd StreamingStatistic" where
  "StreamingStatistic_addValue F v s =
     (let s = StatisticImpl_addValue v s;
          delta = of_u64 F v - mean_value s;
          delta_n = delta / of_u64 F (stat_count s)
      in s\<lparr>mean_value := mean_value s + delta_n,
           accumulated_variance :=
             accumulated_variance s + delta * delta_n * (of_u64 F (stat_count s) - 1)\<rparr>)"

definition StreamingStatistic_mean :: "'d float_ops \<Rightarrow> 'd StreamingStatistic \<Rightarrow> 'd" where
  "StreamingStatistic_mean F s = (if stat_count s = 0 then nan_value F else mean_value s)"

definition StreamingStatistic_pvariance :: "'d::inverse float_ops \<Rightarrow> 'd StreamingStatistic \<Rightarrow> 'd" where
  "StreamingStatistic_pvariance F s =
     (if stat_count s = 0 then nan_value F else accumulated_variance s / of_u64 F (stat_count s))"

definition StreamingStatistic_pstdev :: "'d::inverse float_ops \<Rightarrow> 'd StreamingStatistic \<Rightarrow> 'd" where
  "StreamingStatistic_pstdev F s =
     (if stat_count s = 0 then nan_value F else sqrt_fn F (StreamingStatistic_pvariance F s))"

definition StreamingStatistic_combine ::
    "'d::{zero, plus, minus, times, inverse} float_ops \<Rightarrow> 'd StreamingStatistic \<Rightarrow> 'd StreamingStatistic
      \<Rightarrow> 'd StreamingStatistic" where
  "StreamingStatistic_combine F a b =
     (let n = stat_count a + stat_count b;
          a_mean = (if is_nan F (StreamingStatistic_mean F a) then 0 else StreamingStatistic_mean F a);
          b_mean = (if is_nan F (StreamingStatistic_mean F b) then 0 else StreamingStatistic_mean F b)
      in \<lparr>stat_id = [], stat_min = min (stat_min a) (stat_min b), stat_max = max (stat_max a) (stat_max b),
          stat_count = n,
          mean_value = (of_u64 F (stat_count a) * a_mean + of_u64 F (stat_count b) * b_mean) / of_u64 F n,
          accumulated_variance =
            accumulated_variance a + accumulated_variance b
            + (a_mean - b_mean) * (a_mean - b_mean) * of_u64 F (stat_count a) * of_u64 F (stat_count b)
              / of_u64 F n\<rparr>)"

definition StreamingStatistic_serializeNative ::
    "('d StreamingStatistic \<Rightarrow> string) \<Rightarrow> 'd StreamingStatistic \<Rightarrow> string status_or" where
  "StreamingStatistic_serializeNative wire s =
     Inr (wire \<lparr>stat_id = stat_id s, stat_min = stat_min s, stat_max = stat_max s,
                stat_count = stat_count s, mean_value = mean_value s,
                accumulated_variance = accumulated_variance s\<rparr>)"

definition StreamingStatistic_deserializeNative ::
    "(string \<Rightarrow> 'd StreamingStatistic option) \<Rightarrow> string \<Rightarrow> 'd StreamingStatistic
      \<Rightarrow> status \<times> 'd StreamingStatistic" where
  "StreamingStatistic_deserializeNative parse stream s =
     (case parse stream of
        None \<Rightarrow> (Status kInternal ''Failed to read back StreamingStatistic data'', s)
      | Some p \<Rightarrow> (OkStatus, s\<lparr>stat_id := stat_id p, stat_count := stat_count p, stat_min := stat_min p,
                     stat_max := stat_max p, mean_value := mean_value p,
                     accumulated_variance := accumulated_variance p\<rparr>))"

section \<open>Samples kept in memory\<close>

record 'd InMemoryStatistic = StatisticImpl +
  samples :: "i64 list"
  streaming_stats :: "'d StreamingStatistic"

definition new_InMemoryStatistic :: "'d::zero InMemoryStatistic" where
  "new_InMemoryStatistic =
     \<lparr>stat_id = [], stat_min = - 1, stat_max = 0, stat_count = 0, samples = [],
      streaming_stats = new_StreamingStatistic\<rparr>"

definition InMemoryStatistic_addValue ::
    "'d::{one, plus, minus, times, inverse} float_ops \<Rightarrow> u64 \<Rightarrow> 'd InMemoryStatistic
      \<Rightarrow> 'd InMemoryStatistic" where
  "InMemoryStatistic_addValue F v s =
     (let s = StatisticImpl_addValue v s
      in s\<lparr>samples := samples s @ [v],
           streaming_stats := StreamingStatistic_addValue F v (streaming_stats s)\<rparr>)"

definition InMemoryStatistic_combine ::
    "'d::{zero, plus, minus, times, inverse} float_ops \<Rightarrow> 'd InMemoryStatistic \<Rightarrow> 'd InMemoryStatistic
      \<Rightarrow> 'd InMemoryStatistic" where
  "InMemoryStatistic_combine F a b =
     \<lparr>stat_id = [], stat_min = min (stat_min a) (stat_min b), stat_max = max (stat_max a) (stat_max b),
      stat_count = of_nat (length (samples a @ samples b)), samples = samples a @ samples b,
      streaming_stats = StreamingStatistic_combine F (streaming_stats a) (streaming_stats b)\<rparr>"

section \<open>Histograms\<close>

text \<open>The operations of the HdrHistogram library that the code calls, over its histograms \<open>'h\<close>.\<close>

record 'h hdr_library =
  hdr_init :: "u64 \<Rightarrow> u64 \<Rightarrow> nat \<Rightarrow> 'h"
  hdr_record_value :: "'h \<Rightarrow> i64 \<Rightarrow> bool \<times> 'h"
  total_count :: "'h \<Rightarrow> u64"
  hdr_mean :: "'h \<Rightarrow> double"
  hdr_stddev :: "'h \<Rightarrow> double"
  hdr_value_at_percentile :: "'h \<Rightarrow> nat \<Rightarrow> u64"
  hdr_add :: "'h \<Rightarrow> 'h \<Rightarrow> i64 \<times> 'h"
  hdr_percentiles :: "'h \<Rightarrow> nat \<Rightarrow> (u64 \<times> double \<times> u64) list"
  hdr_log_encode :: "'h \<Rightarrow> string option"
  hdr_log_decode :: "string \<Rightarrow> 'h option"

record 'h HdrStatistic = StatisticImpl +
  histogram :: 'h

definition SignificantDigits :: nat where
  "SignificantDigits = 4"

definition new_HdrStatistic :: "'h hdr_library \<Rightarrow> 'h HdrStatistic" where
  "new_HdrStatistic L =
     (let max_latency = 1000 * 1000 * 1000 * 60
      in \<lparr>stat_id = [], stat_min = - 1, stat_max = 0, stat_count = 0,
          histogram = hdr_init L 1 max_latency SignificantDigits\<rparr>)"

definition HdrStatistic_addValue :: "'h hdr_library \<Rightarrow> u64 \<Rightarrow> 'h HdrStatistic \<Rightarrow> 'h HdrStatistic" where
  "HdrStatistic_addValue L v s =
     (case hdr_record_value L (histogram s) v of
        (False, h) \<Rightarrow> s\<lparr>histogram := h\<rparr>
      | (True, h) \<Rightarrow> StatisticImpl_addValue v (s\<lparr>histogram := h\<rparr>))"

definition HdrStatistic_count :: "'h hdr_library \<Rightarrow> 'h HdrStatistic \<Rightarrow> u64" where
  "HdrStatistic_count L s = total_count L (histogram s)"

definition HdrStatistic_mean :: "'h hdr_library \<Rightarrow> 'h HdrStatistic \<Rightarrow> double" where
  "HdrStatistic_mean L s = (if HdrStatistic_count L s = 0 then NaN else hdr_mean L (histogram s))"

definition HdrStatistic_pstdev :: "'h hdr_library \<Rightarrow> 'h HdrStatistic \<Rightarrow> double" where
  "HdrStatistic_pstdev L s = (if HdrStatistic_count L s = 0 then NaN else hdr_stddev L (histogram s))"

definition HdrStatistic_pvariance :: "'h hdr_library \<Rightarrow> 'h HdrStatistic \<Rightarrow> double" where
  "HdrStatistic_pvariance L s = HdrStatistic_pstdev L s * HdrStatistic_pstdev L s"

definition HdrStatistic_min :: "'h hdr_library \<Rightarrow> 'h HdrStatistic \<Rightarrow> u64" where
  "HdrStatistic_min L s =
     (if HdrStatistic_count L s = 0 then - 1 else hdr_value_at_percentile L (histogram s) 0)"

definition HdrStatistic_max :: "'h hdr_library \<Rightarrow> 'h HdrStatistic \<Rightarrow> u64" where
  "HdrStatistic_max L s = hdr_value_at_percentile L (histogram s) 100"

definition HdrStatistic_combine ::
    "'h hdr_library \<Rightarrow> 'h HdrStatistic \<Rightarrow> 'h HdrStatistic \<Rightarrow> 'h HdrStatistic" where
  "HdrStatistic_combine L a b =
     (let combined = new_HdrStatistic L;
          (_, h) = hdr_add L (histogram combined) (histogram a);
          (_, h) = hdr_add L h (histogram b)
      in combined\<lparr>histogram := h\<rparr>)"

definition HdrStatistic_serializeNative :: "'h hdr_library \<Rightarrow> 'h HdrStatistic \<Rightarrow> string status_or" where
  "HdrStatistic_serializeNative L s =
     (case hdr_log_encode L (histogram s) of
        Some d \<Rightarrow> Inr d
      | None \<Rightarrow> Inl (Status kInternal ''Failed to write HdrHistogram data''))"

definition HdrStatistic_deserializeNative ::
    "'h hdr_library \<Rightarrow> string \<Rightarrow> 'h HdrStatistic \<Rightarrow> status \<times> 'h HdrStatistic" where
  "HdrStatistic_deserializeNative L stream s =
     (case hdr_log_decode L stream of
        Some h \<Rightarrow> (OkStatus, s\<lparr>histogram := h\<rparr>)
      | None \<Rightarrow> (Status kInternal ''Failed to read back HdrHistogram data'', s))"

text \<open>The operations of libcircllhist.\<close>

record 'h circllhist_library =
  hist_alloc :: 'h
  hist_insert_intscale :: "'h \<Rightarrow> u64 \<Rightarrow> 'h"
  hist_approx_mean :: "'h \<Rightarrow> double"
  hist_approx_stddev :: "'h \<Rightarrow> double"
  hist_accumulate :: "'h \<Rightarrow> 'h \<Rightarrow> 'h"
  hist_approx_quantile :: "'h \<Rightarrow> double \<Rightarrow> double"
  hist_approx_count_below :: "'h \<Rightarrow> double \<Rightarrow> u64"

record 'h CircllhistStatistic = StatisticImpl +
  circllhist :: 'h

definition new_CircllhistStatistic :: "'h circllhist_library \<Rightarrow> 'h CircllhistStatistic" where
  "new_CircllhistStatistic L =
     \<lparr>stat_id = [], stat_min = - 1, stat_max = 0, stat_count = 0, circllhist = hist_alloc L\<rparr>"

definition CircllhistStatistic_addValue ::
    "'h circllhist_library \<Rightarrow> u64 \<Rightarrow> 'h CircllhistStatistic \<Rightarrow> 'h CircllhistStatistic" where
  "CircllhistStatistic_addValue L v s =
     StatisticImpl_addValue v (s\<lparr>circllhist := hist_insert_intscale L (circllhist s) v\<rparr>)"

definition CircllhistStatistic_mean :: "'h circllhist_library \<Rightarrow> 'h CircllhistStatistic \<Rightarrow> double" where
  "CircllhistStatistic_mean L s = hist_approx_mean L (circllhist s)"

definition CircllhistStatistic_pstdev :: "'h circllhist_library \<Rightarrow> 'h CircllhistStatistic \<Rightarrow> double" where
  "CircllhistStatistic_pstdev L s =
     (if stat_count s = 0 then NaN else hist_approx_stddev L (circllhist s))"

definition CircllhistStatistic_pvariance :: "'h circllhist_library \<Rightarrow> 'h CircllhistStatistic \<Rightarrow> double" where
  "CircllhistStatistic_pvariance L s = CircllhistStatistic_pstdev L s * CircllhistStatistic_pstdev L s"

definition CircllhistStatistic_combine ::
    "'h circllhist_library \<Rightarrow> 'h CircllhistStatistic \<Rightarrow> 'h CircllhistStatistic \<Rightarrow> 'h CircllhistStatistic" where
  "CircllhistStatistic_combine L a b =
     \<lparr>stat_id = [], stat_min = min (stat_min a) (stat_min b), stat_max = max (stat_max a) (stat_max b),
      stat_count = stat_count a + stat_count b,
      circllhist = hist_accumulate L (hist_accumulate L (hist_alloc L) (circllhist a)) (circllhist b)\<rparr>"

section \<open>Protobuf output\<close>

datatype SerializationDomain = RAW | DURATION

definition setDurationFromNanos :: "u64 \<Rightarrow> proto_duration" where
  "setDurationFromNanos n =
     \<lparr>seconds = sint (n div 1000000000 :: i64), nanos = sint (ucast (n mod 1000000000) :: i32)\<rparr>"

record Percentile =
  percentile_value :: "proto_duration + double"
  percentile_of :: double
  percentile_count :: u64

record StatisticProto =
  proto_id :: string
  proto_count :: u64
  proto_mean :: "proto_duration + double"
  proto_pstdev :: "proto_duration + double"
  proto_min :: "proto_duration + u64"
  proto_max :: "proto_duration + u64"
  percentiles :: "Percentile list"

text \<open>What \<^verbatim>\<open>StatisticImpl::toProto\<close> reads through its virtual methods.\<close>

record statistic_view =
  view_id :: string
  view_count :: u64
  view_mean :: double
  view_pstdev :: double
  view_min :: u64
  view_max :: u64

definition StatisticImpl_toProto :: "SerializationDomain \<Rightarrow> statistic_view \<Rightarrow> StatisticProto" where
  "StatisticImpl_toProto domain v =
     (let rounded = (\<lambda>d. if view_count v = 0 then 0 else i64_of_double (dround d))
      in case domain of
           DURATION \<Rightarrow>
             \<lparr>proto_id = view_id v, proto_count = view_count v,
              proto_mean = Inl (setDurationFromNanos (rounded (view_mean v))),
              proto_pstdev = Inl (setDurationFromNanos
                (rounded (if isnan (view_pstdev v) then 0 else view_pstdev v))),
              proto_min = Inl (setDurationFromNanos (if view_min v = - 1 then 0 else view_min v)),
              proto_max = Inl (setDurationFromNanos (view_max v)), percentiles = []\<rparr>
         | RAW \<Rightarrow>
             \<lparr>proto_id = view_id v, proto_count = view_count v, proto_mean = Inr (view_mean v),
              proto_pstdev = Inr (view_pstdev v), proto_min = Inr (view_min v),
              proto_max = Inr (view_max v), percentiles = []\<rparr>)"

definition streaming_view :: "double StreamingStatistic \<Rightarrow> statistic_view" where
  "streaming_view s =
     \<lparr>view_id = stat_id s, view_count = stat_count s, view_mean = StreamingStatistic_mean double_ops s,
      view_pstdev = StreamingStatistic_pstdev double_ops s, view_min = stat_min s, view_max = stat_max s\<rparr>"

definition simple_view :: "double SimpleStatistic \<Rightarrow> statistic_view" where
  "simple_view s =
     \<lparr>view_id = stat_id s, view_count = stat_count s, view_mean = SimpleStatistic_mean double_ops s,
      view_pstdev = SimpleStatistic_pstdev double_ops s, view_min = stat_min s, view_max = stat_max s\<rparr>"

definition hdr_view :: "'h hdr_library \<Rightarrow> 'h HdrStatistic \<Rightarrow> statistic_view" where
  "hdr_view L s =
     \<lparr>view_id = stat_id s, view_count = HdrStatistic_count L s, view_mean = HdrStatistic_mean L s,
      view_pstdev = HdrStatistic_pstdev L s, view_min = HdrStatistic_min L s, view_max = HdrStatistic_max L s\<rparr>"

definition circllhist_view :: "'h circllhist_library \<Rightarrow> 'h CircllhistStatistic \<Rightarrow> statistic_view" where
  "circllhist_view L s =
     \<lparr>view_id = stat_id s, view_count = stat_count s, view_mean = CircllhistStatistic_mean L s,
      view_pstdev = CircllhistStatistic_pstdev L s, view_min = stat_min s, view_max = stat_max s\<rparr>"

definition HdrStatistic_toProto ::
    "'h hdr_library \<Rightarrow> SerializationDomain \<Rightarrow> 'h HdrStatistic \<Rightarrow> StatisticProto" where
  "HdrStatistic_toProto L domain s =
     (let add = (\<lambda>(highest_equivalent_value, percentile, cumulative_count).
            \<lparr>percentile_value =
               (case domain of DURATION \<Rightarrow> Inl (setDurationFromNanos highest_equivalent_value)
                | RAW \<Rightarrow> Inr (double_of_u64 highest_equivalent_value)),
             percentile_of = percentile / Fin 100, percentile_count = cumulative_count\<rparr>)
      in (StatisticImpl_toProto domain (hdr_view L s))
           \<lparr>percentiles := map add (hdr_percentiles L (histogram s) 5)\<rparr>)"

definition circllhist_quantiles :: "double list" where
  "circllhist_quantiles = map to_double
     [0, 1/10, 2/10, 3/10, 4/10, 5/10, 55/100, 6/10, 65/100, 7/10, 75/100, 775/1000, 8/10, 825/1000,
      85/100, 875/1000, 90/100, 925/1000, 95/100, 975/1000, 99/100, 995/1000, 999/1000, 1]"

definition CircllhistStatistic_toProto ::
    "'h circllhist_library \<Rightarrow> SerializationDomain \<Rightarrow> 'h CircllhistStatistic \<Rightarrow> StatisticProto" where
  "CircllhistStatistic_toProto L domain s =
     (let proto = StatisticImpl_toProto domain (circllhist_view L s);
          add = (\<lambda>q. let c = hist_approx_quantile L (circllhist s) q in
            \<lparr>percentile_value =
               (case domain of DURATION \<Rightarrow> Inl (setDurationFromNanos (i64_of_double c)) | RAW \<Rightarrow> Inr c),
             percentile_of = q, percentile_count = hist_approx_count_below L (circllhist s) c\<rparr>)
      in if stat_count s = 0 then proto
         else proto\<lparr>percentiles := map add circllhist_quantiles\<rparr>)"

section \<open>Sinkable statistics\<close>

text \<open>
  Recording also delivers the value to the stats sinks; the deliveries are kept as a list. The name
  carries the worker's number when there is one.
\<close>

definition SinkableHdrStatistic_recordValue ::
    "'h hdr_library \<Rightarrow> u64 \<Rightarrow> 'h HdrStatistic \<times> u64 list \<Rightarrow> 'h HdrStatistic \<times> u64 list" where
  "SinkableHdrStatistic_recordValue L v sd =
     (case sd of (s, delivered) \<Rightarrow> (HdrStatistic_addValue L v s, delivered @ [v]))"

definition SinkableCircllhistStatistic_recordValue ::
    "'h circllhist_library \<Rightarrow> u64 \<Rightarrow> 'h CircllhistStatistic \<times> u64 list
      \<Rightarrow> 'h CircllhistStatistic \<times> u64 list" where
  "SinkableCircllhistStatistic_recordValue L v sd =
     (case sd of (s, delivered) \<Rightarrow> (CircllhistStatistic_addValue L v s, delivered @ [v]))"

definition tagExtractedName :: "int option \<Rightarrow> string \<Rightarrow> string" where
  "tagExtractedName worker_id i =
     (case worker_id of Some w \<Rightarrow> show_int w @ ''.'' @ i | None \<Rightarrow> i)"

section \<open>Integer and floating-point square roots\<close>

lemma isqrt_bounds: "isqrt n * isqrt n \<le> n \<and> n < (isqrt n + 1) * (isqrt n + 1)"
proof (induction n rule: isqrt.induct)
  case (1 n)
  show ?case
  proof (cases "n = 0")
    case True
    then show ?thesis by (simp add: isqrt.simps)
  next
    case False
    define r where "r = isqrt (n div 4)"
    have ih: "r * r \<le> n div 4" "n div 4 < (r + 1) * (r + 1)"
      using 1 False by (simp_all add: r_def)
    have "(2 * r) * (2 * r) \<le> n" using ih(1) by simp
    moreover have "n div 4 + 1 \<le> (r + 1) * (r + 1)" using ih(2) by linarith
    then have "n < 4 * ((r + 1) * (r + 1))" by linarith
    then have "n < (2 * r + 2) * (2 * r + 2)" by (simp add: algebra_simps)
    ultimately show ?thesis
      using False by (subst (1 2 3 4) isqrt.simps) (auto simp: Let_def r_def [symmetric])
  qed
qed

lemma isqrt_unique: "m * m \<le> n \<Longrightarrow> n < (m + 1) * (m + 1) \<Longrightarrow> isqrt n = m"
  using isqrt_bounds [of n]
  by (metis Suc_eq_plus1 le_less_trans less_Suc_eq_le mult_le_mono nat_le_linear not_less order_antisym)

section \<open>What the statistics compute\<close>

definition streaming_of :: "'d::{zero, one, plus, minus, times, inverse} float_ops \<Rightarrow> u64 list \<Rightarrow> 'd StreamingStatistic" where
  "streaming_of F xs = foldl (\<lambda>s v. StreamingStatistic_addValue F v s) new_StreamingStatistic xs"

definition simple_of :: "'d::{zero, one, plus, times} float_ops \<Rightarrow> u64 list \<Rightarrow> 'd SimpleStatistic" where
  "simple_of F xs = foldl (\<lambda>s v. SimpleStatistic_addValue F v s) new_SimpleStatistic xs"

definition values_of :: "u64 list \<Rightarrow> real list" where
  "values_of xs = map (\<lambda>w. real (unat w)) xs"

definition mean_of :: "u64 list \<Rightarrow> real" where
  "mean_of xs = sum_list (values_of xs) / real (length xs)"

definition pvariance_of :: "u64 list \<Rightarrow> real" where
  "pvariance_of xs = (\<Sum>x\<leftarrow>values_of xs. (x - mean_of xs)\<^sup>2) / real (length xs)"

lemma values_of_append [simp]: "values_of (xs @ ys) = values_of xs @ values_of ys"
  by (simp add: values_of_def)

lemma length_values_of [simp]: "length (values_of xs) = length xs"
  by (simp add: values_of_def)

text \<open>The sum of squared deviations from any centre, and from the mean.\<close>

lemma sum_sq_dev: "(\<Sum>x\<leftarrow>xs. (x - m)\<^sup>2) = (\<Sum>x\<leftarrow>xs. x\<^sup>2) - 2 * m * sum_list xs + real (length xs) * m\<^sup>2"
  for xs :: "real list"
  by (induction xs) (simp_all add: power2_eq_square algebra_simps)

lemma sum_sq_dev_mean:
  "xs \<noteq> [] \<Longrightarrow> (\<Sum>x\<leftarrow>values_of xs. (x - mean_of xs)\<^sup>2)
     = (\<Sum>x\<leftarrow>values_of xs. x\<^sup>2) - (sum_list (values_of xs))\<^sup>2 / real (length xs)"
proof -
  assume "xs \<noteq> []"
  then have n: "real (length xs) \<noteq> 0" by simp
  define S where "S = sum_list (values_of xs)"
  have "- 2 * (S / real (length xs)) * S + real (length xs) * (S / real (length xs))\<^sup>2
      = - S\<^sup>2 / real (length xs)"
    using n by (simp add: power2_eq_square divide_simps)
  then show ?thesis
    unfolding sum_sq_dev mean_of_def S_def [symmetric] length_values_of by linarith
qed

lemma welford_step:
  fixes S Q x n :: real
  assumes "0 < n"
  shows "S / n + (x - S / n) / (n + 1) = (S + x) / (n + 1)"
    and "Q - S\<^sup>2 / n + (x - S / n) * ((x - S / n) / (n + 1)) * (n + 1 - 1)
      = Q + x\<^sup>2 - (S + x)\<^sup>2 / (n + 1)"
  using assms by (simp_all add: power2_eq_square divide_simps) (simp_all add: algebra_simps)

lemma stat_count_of:
  "unat (stat_count (streaming_of F xs)) = length xs mod 2 ^ 64"
  "unat (stat_count (simple_of F' xs)) = length xs mod 2 ^ 64"
proof -
  have "stat_count (streaming_of F xs) = of_nat (length xs)"
    by (induction xs rule: rev_induct)
      (simp_all add: streaming_of_def StreamingStatistic_addValue_def new_StreamingStatistic_def
        StatisticImpl_addValue_def Let_def)
  then show "unat (stat_count (streaming_of F xs)) = length xs mod 2 ^ 64" by (simp add: unat_of_nat)
  have "stat_count (simple_of F' xs) = of_nat (length xs)"
    by (induction xs rule: rev_induct)
      (simp_all add: simple_of_def SimpleStatistic_addValue_def new_SimpleStatistic_def
        StatisticImpl_addValue_def Let_def)
  then show "unat (stat_count (simple_of F' xs)) = length xs mod 2 ^ 64" by (simp add: unat_of_nat)
qed

lemma streaming_of_snoc: "streaming_of F (xs @ [v]) = StreamingStatistic_addValue F v (streaming_of F xs)"
  by (simp add: streaming_of_def)

lemma simple_of_snoc: "simple_of F (xs @ [v]) = SimpleStatistic_addValue F v (simple_of F xs)"
  by (simp add: simple_of_def)

text \<open>The state of the streaming statistic in terms of the sums.\<close>

lemma streaming_sums:
  assumes "length xs < 2 ^ 64"
  shows "mean_value (streaming_of real_ops xs) = sum_list (values_of xs) / real (length xs)
    \<and> accumulated_variance (streaming_of real_ops xs)
      = (\<Sum>x\<leftarrow>values_of xs. x\<^sup>2) - (sum_list (values_of xs))\<^sup>2 / real (length xs)"
  using assms
proof (induction xs rule: rev_induct)
  case Nil
  then show ?case by (simp add: streaming_of_def new_StreamingStatistic_def values_of_def)
next
  case (snoc v xs)
  define n where "n = real (length xs)"
  have len: "length xs < 2 ^ 64" "length (xs @ [v]) < 2 ^ 64" using snoc(2) by simp_all
  have count: "unat (stat_count (streaming_of real_ops (xs @ [v]))) = length xs + 1"
    using stat_count_of(1) [of real_ops "xs @ [v]"] len(2) by simp
  note ih = snoc(1) [OF len(1), folded n_def]
  let ?s = "streaming_of real_ops xs"
  have c: "real (unat (stat_count ?s + 1)) = n + 1"
    using count by (simp add: streaming_of_snoc StreamingStatistic_addValue_def StatisticImpl_addValue_def
        Let_def n_def)
  have step: "mean_value (streaming_of real_ops (xs @ [v]))
        = mean_value ?s + (real (unat v) - mean_value ?s) / (n + 1)"
      "accumulated_variance (streaming_of real_ops (xs @ [v]))
        = accumulated_variance ?s + (real (unat v) - mean_value ?s)
            * ((real (unat v) - mean_value ?s) / (n + 1)) * (n + 1 - 1)"
    using c by (simp_all add: streaming_of_snoc StreamingStatistic_addValue_def StatisticImpl_addValue_def
        Let_def real_ops_def)
  show ?case
  proof (cases "xs = []")
    case True
    then show ?thesis
      using step by (simp add: n_def streaming_of_def new_StreamingStatistic_def values_of_def power2_eq_square)
  next
    case False
    then have n: "0 < n" by (simp add: n_def)
    define S where "S = sum_list (values_of xs)"
    define Q where "Q = (\<Sum>x\<leftarrow>values_of xs. x\<^sup>2)"
    define x where "x = real (unat v)"
    have "mean_value (streaming_of real_ops (xs @ [v])) = (S + x) / (n + 1)"
      using step(1) ih welford_step(1) [OF n, where S = S and x = x] by (simp add: S_def x_def)
    moreover have "accumulated_variance (streaming_of real_ops (xs @ [v]))
        = Q + x\<^sup>2 - (S + x)\<^sup>2 / (n + 1)"
      using welford_step(2) [OF n, where S = S and x = x and Q = Q]
      unfolding step(2) ih [THEN conjunct1] ih [THEN conjunct2] S_def Q_def x_def by simp
    moreover have "sum_list (values_of (xs @ [v])) = S + x"
      and "(\<Sum>x\<leftarrow>values_of (xs @ [v]). x\<^sup>2) = Q + x\<^sup>2" and "real (length (xs @ [v])) = n + 1"
      by (simp_all add: S_def Q_def x_def n_def values_of_def)
    ultimately show ?thesis by (simp only:)
  qed
qed

lemma simple_sums:
  "sum_x (simple_of real_ops xs) = sum_list (values_of xs)
   \<and> sum_x2 (simple_of real_ops xs) = (\<Sum>x\<leftarrow>values_of xs. x\<^sup>2)"
  by (induction xs rule: rev_induct)
    (simp_all add: simple_of_snoc SimpleStatistic_addValue_def StatisticImpl_addValue_def Let_def
      real_ops_def values_of_def power2_eq_square, simp_all add: simple_of_def new_SimpleStatistic_def)

lemma min_max_of:
  "stat_min (streaming_of F xs) = foldl min (- 1) xs" "stat_max (streaming_of F xs) = foldl max 0 xs"
  by (induction xs rule: rev_induct)
    (simp_all add: streaming_of_snoc StreamingStatistic_addValue_def StatisticImpl_addValue_def Let_def,
      simp_all add: streaming_of_def new_StreamingStatistic_def)

lemma foldl_min_max:
  fixes xs :: "u64 list"
  shows "foldl min a xs = Min (insert a (set xs))" "foldl max b xs = Max (insert b (set xs))"
proof -
  show "foldl min a xs = Min (insert a (set xs))"
  proof (induction xs arbitrary: a)
    case (Cons x xs)
    have "Min (insert (min a x) (set xs)) = Min (insert a (insert x (set xs)))"
      by (cases "xs = []") (simp_all add: Min_insert ac_simps)
    then show ?case using Cons by simp
  qed simp
  show "foldl max b xs = Max (insert b (set xs))"
  proof (induction xs arbitrary: b)
    case (Cons x xs)
    have "Max (insert (max b x) (set xs)) = Max (insert b (insert x (set xs)))"
      by (cases "xs = []") (simp_all add: Max_insert ac_simps)
    then show ?case using Cons by simp
  qed simp
qed

lemma real_ops_simps [simp]:
  "of_u64 real_ops w = real (unat w)" "nan_value real_ops = 0" "is_nan real_ops d \<longleftrightarrow> False"
  "sqrt_fn real_ops = sqrt"
  by (simp_all add: real_ops_def)

lemma streaming_moments:
  assumes "xs \<noteq> []" "length xs < 2 ^ 64"
  shows "StreamingStatistic_mean real_ops (streaming_of real_ops xs) = mean_of xs"
    and "StreamingStatistic_pvariance real_ops (streaming_of real_ops xs) = pvariance_of xs"
proof -
  let ?s = "streaming_of real_ops xs"
  have n: "unat (stat_count ?s) = length xs" using stat_count_of(1) [of real_ops xs] assms(2) by simp
  then have nz: "stat_count ?s \<noteq> 0" using assms(1) by auto
  have cnt: "of_u64 real_ops (stat_count ?s) = real (length xs)" unfolding real_ops_simps n ..
  show "StreamingStatistic_mean real_ops ?s = mean_of xs"
    using streaming_sums [OF assms(2)] nz by (simp add: StreamingStatistic_mean_def mean_of_def)
  show "StreamingStatistic_pvariance real_ops ?s = pvariance_of xs"
    unfolding StreamingStatistic_pvariance_def cnt
    using streaming_sums [OF assms(2)] nz sum_sq_dev_mean [OF assms(1)] by (simp add: pvariance_of_def)
qed

lemma streaming_extremes:
  assumes "xs \<noteq> []"
  shows "stat_min (streaming_of F xs) = Min (set xs)" and "stat_max (streaming_of F xs) = Max (set xs)"
proof -
  have ne: "set xs \<noteq> {}" using assms(1) by simp
  have "Min (insert (- 1) (set xs)) = Min (set xs)"
    using ne by (simp add: Min_insert min_absorb2 Min_le_iff)
  then show "stat_min (streaming_of F xs) = Min (set xs)" by (simp add: min_max_of foldl_min_max)
  have "Max (insert 0 (set xs)) = Max (set xs)" using ne by (simp add: Max_insert max_absorb2)
  then show "stat_max (streaming_of F xs) = Max (set xs)" by (simp add: min_max_of foldl_min_max)
qed



lemma parallel_combine:
  fixes n m S T Q R :: real
  assumes "0 \<le> n" "0 \<le> m" "n = 0 \<Longrightarrow> S = 0" "m = 0 \<Longrightarrow> T = 0"
  shows "(n * (S / n) + m * (T / m)) / (n + m) = (S + T) / (n + m)"
    and "Q - S\<^sup>2 / n + (R - T\<^sup>2 / m) + (S / n - T / m) * (S / n - T / m) * n * m / (n + m)
      = Q + R - (S + T)\<^sup>2 / (n + m)"
proof -
  show "(n * (S / n) + m * (T / m)) / (n + m) = (S + T) / (n + m)" using assms by simp
  show "Q - S\<^sup>2 / n + (R - T\<^sup>2 / m) + (S / n - T / m) * (S / n - T / m) * n * m / (n + m)
      = Q + R - (S + T)\<^sup>2 / (n + m)"
  proof (cases "n = 0 \<or> m = 0")
    case False
    then have "0 < n" "0 < m" "0 < n + m" using assms by auto
    then show ?thesis by (simp add: power2_eq_square divide_simps) (simp add: algebra_simps)
  qed (use assms in auto)
qed

lemma foldl_extremes_append:
  fixes xs ys :: "u64 list"
  shows "foldl min (- 1) (xs @ ys) = min (foldl min (- 1) xs) (foldl min (- 1) ys)"
    and "foldl max 0 (xs @ ys) = max (foldl max 0 xs) (foldl max 0 ys)"
proof -
  have "foldl min (min a b) ys = min a (foldl min b ys)" "foldl max (max a b) ys = max a (foldl max b ys)"
    for a b by (induction ys arbitrary: b) (simp_all add: min.assoc max.assoc)
  note shift = this(1) [of "foldl min (- 1) xs" "- 1"] this(2) [of "foldl max 0 xs" 0]
  show "foldl min (- 1) (xs @ ys) = min (foldl min (- 1) xs) (foldl min (- 1) ys)"
    using shift(1) by (simp add: min_absorb1)
  show "foldl max 0 (xs @ ys) = max (foldl max 0 xs) (foldl max 0 ys)"
    using shift(2) by (simp add: max_absorb1)
qed

lemma streaming_id: "stat_id (streaming_of F xs) = []"
  by (induction xs rule: rev_induct)
    (simp_all add: streaming_of_def StreamingStatistic_addValue_def new_StreamingStatistic_def
      StatisticImpl_addValue_def Let_def)

lemma streaming_combine_real:
  assumes "length xs + length ys < 2 ^ 64"
  shows "StreamingStatistic_combine real_ops (streaming_of real_ops xs) (streaming_of real_ops ys)
    = streaming_of real_ops (xs @ ys)"
proof -
  let ?a = "streaming_of real_ops xs" and ?b = "streaming_of real_ops ys" and ?c = "streaming_of real_ops (xs @ ys)"
  define n m where "n = real (length xs)" and "m = real (length ys)"
  define S T where "S = sum_list (values_of xs)" and "T = sum_list (values_of ys)"
  define Q R where "Q = (\<Sum>x\<leftarrow>values_of xs. x\<^sup>2)" and "R = (\<Sum>x\<leftarrow>values_of ys. x\<^sup>2)"
  have len: "length xs < 2 ^ 64" "length ys < 2 ^ 64" "length (xs @ ys) < 2 ^ 64" using assms by simp_all
  have ua: "unat (stat_count ?a) = length xs" and ub: "unat (stat_count ?b) = length ys"
    and uc: "unat (stat_count ?c) = length xs + length ys"
    using stat_count_of(1) [of real_ops] len by simp_all
  have cc: "stat_count ?a + stat_count ?b = stat_count ?c"
    using ua ub uc assms unfolding word_unat_eq_iff by (simp add: unat_word_ariths)
  have emp: "stat_count ?a = 0 \<Longrightarrow> n = 0" "stat_count ?b = 0 \<Longrightarrow> m = 0" "n = 0 \<Longrightarrow> S = 0" "m = 0 \<Longrightarrow> T = 0"
    using ua ub by (auto simp: n_def m_def S_def T_def values_of_def)
  have sums: "mean_value ?a = S / n" "accumulated_variance ?a = Q - S\<^sup>2 / n"
      "mean_value ?b = T / m" "accumulated_variance ?b = R - T\<^sup>2 / m"
      "mean_value ?c = (S + T) / (n + m)" "accumulated_variance ?c = Q + R - (S + T)\<^sup>2 / (n + m)"
    using streaming_sums [OF len(1)] streaming_sums [OF len(2)] streaming_sums [OF len(3)]
    by (simp_all add: n_def m_def S_def T_def Q_def R_def)
  have means: "StreamingStatistic_mean real_ops ?a = S / n" "StreamingStatistic_mean real_ops ?b = T / m"
    using emp sums by (auto simp: StreamingStatistic_mean_def)
  have counts: "of_u64 real_ops (stat_count ?a) = n" "of_u64 real_ops (stat_count ?b) = m"
      "of_u64 real_ops (stat_count ?c) = n + m"
    unfolding real_ops_simps ua ub uc by (simp_all add: n_def m_def)
  have nm: "0 \<le> n" "0 \<le> m" by (simp_all add: n_def m_def)
  note alg = parallel_combine [OF nm emp(3,4)]
  show ?thesis
  proof (rule StreamingStatistic.equality)
    show "mean_value (StreamingStatistic_combine real_ops ?a ?b) = mean_value ?c"
      unfolding StreamingStatistic_combine_def Let_def cc means counts
      using alg(1) sums(5) by simp
    show "accumulated_variance (StreamingStatistic_combine real_ops ?a ?b) = accumulated_variance ?c"
      unfolding StreamingStatistic_combine_def Let_def cc means counts sums
      using alg(2) by simp
    show "stat_min (StreamingStatistic_combine real_ops ?a ?b) = stat_min ?c"
      by (simp add: StreamingStatistic_combine_def Let_def min_max_of foldl_extremes_append del: foldl_append)
    show "stat_max (StreamingStatistic_combine real_ops ?a ?b) = stat_max ?c"
      by (simp add: StreamingStatistic_combine_def Let_def min_max_of foldl_extremes_append del: foldl_append)
  qed (simp_all add: StreamingStatistic_combine_def Let_def cc streaming_id)
qed



text \<open>
  In floating point, combining two statistics that have no samples divides zero by zero: the
  result's variance stays not-a-number in everything that is later combined with it, whatever the
  samples, and its mean in everything later added to it.
\<close>

theorem streaming_combine_empty_poisons:
  fixes s :: "double StreamingStatistic"
  defines "e \<equiv> StreamingStatistic_combine double_ops new_StreamingStatistic new_StreamingStatistic"
  shows "StreamingStatistic_pvariance double_ops (StreamingStatistic_combine double_ops e s) = NaN
    \<and> StreamingStatistic_mean double_ops (StreamingStatistic_addValue double_ops v e) = NaN"
proof -
  have NaN: "NaN + d = NaN" "NaN * d = NaN" "NaN / d = NaN" "d - NaN = NaN" for d :: double
    by (cases d; simp add: dbl_defs)+
  have e: "accumulated_variance e = NaN" "mean_value e = NaN" "stat_count e = 0"
    by (simp_all add: e_def StreamingStatistic_combine_def new_StreamingStatistic_def Let_def dbl_defs
        double_ops_def double_of_u64_def inf_of_sign_def StreamingStatistic_mean_def)
  show ?thesis
    using e NaN by (simp add: StreamingStatistic_pvariance_def StreamingStatistic_mean_def Let_def
        StreamingStatistic_addValue_def StreamingStatistic_combine_def double_ops_def
        StatisticImpl_addValue_def)
qed

text \<open>
  The two ways of tracking moments agree: without rounding, the sums of values and squares of
  the simple statistic give the same mean and population variance as the streaming updates.
\<close>

theorem simple_streaming_agree:
  assumes "length xs < 2 ^ 64"
  shows "SimpleStatistic_mean real_ops (simple_of real_ops xs)
      = StreamingStatistic_mean real_ops (streaming_of real_ops xs)
    \<and> SimpleStatistic_pvariance real_ops (simple_of real_ops xs)
      = StreamingStatistic_pvariance real_ops (streaming_of real_ops xs)"
proof -
  let ?a = "simple_of real_ops xs" and ?b = "streaming_of real_ops xs"
  have ua: "unat (stat_count ?a) = length xs" and ub: "unat (stat_count ?b) = length xs"
    using stat_count_of [of real_ops xs] stat_count_of(2) [of real_ops xs] assms by simp_all
  have eq: "stat_count ?a = stat_count ?b" using ua ub by (simp add: word_unat_eq_iff)
  have n: "of_u64 real_ops (stat_count ?b) = real (length xs)" unfolding real_ops_simps ub ..
  show ?thesis
  proof (cases "stat_count ?b = 0")
    case False
    then have "unat (stat_count ?b) \<noteq> 0" by (simp add: word_unat_eq_iff)
    then have "0 < real (length xs)" using ub by simp
    then show ?thesis
      unfolding SimpleStatistic_pvariance_def SimpleStatistic_mean_def StreamingStatistic_mean_def
        StreamingStatistic_pvariance_def eq n
      using simple_sums [of xs] streaming_sums [OF assms] False
      by (simp add: power2_eq_square diff_divide_distrib)
  qed (simp add: SimpleStatistic_pvariance_def SimpleStatistic_mean_def StreamingStatistic_mean_def
        StreamingStatistic_pvariance_def eq)
qed

theorem simple_streaming_agree_witness:
  "SimpleStatistic_pvariance real_ops (simple_of real_ops [1, 3])
    = StreamingStatistic_pvariance real_ops (streaming_of real_ops [1, 3])"
  using simple_streaming_agree [of "[1, 3]"] by simp

end
