(* ===== verification/UriUtility.thy ===== *)
theory UriUtility
  imports Prelude
begin

text \<open>
  URIs (\<^verbatim>\<open>source/common/uri_impl.{h,cc}\<close>), the helpers of \<^verbatim>\<open>source/common/utility.cc\<close>, the server
  name indication of \<^verbatim>\<open>source/client/sni_utility.cc\<close> and the version strings of
  \<^verbatim>\<open>source/common/version_info.cc\<close>.

  Envoy's splitting of a URI into host and path, the DNS resolver and the socket calls are
  parameters.
\<close>

section \<open>Helpers\<close>

definition findPortSeparator :: "string \<Rightarrow> nat option" where
  "findPortSeparator hostname =
     (if hostname \<noteq> [] \<and> hd hostname = CHR ''[''
      then (case find_char (CHR '']'') hostname of
              None \<Rightarrow> None
            | Some i \<Rightarrow> find_char_from (CHR '':'') i hostname)
      else rfind_char (CHR '':'') hostname)"

text \<open>Protobuf enumerations are open: \<open>OTHER_FAMILY\<close> is any value without a name.\<close>

datatype address_family_option = AUTO | V4 | V6 | OTHER_FAMILY

datatype dns_lookup_family = V4Only | V6Only | Auto

fun translateFamilyOptionString :: "address_family_option \<Rightarrow> failure + dns_lookup_family" where
  "translateFamilyOptionString V4 = Inr V4Only"
| "translateFamilyOptionString V6 = Inr V6Only"
| "translateFamilyOptionString AUTO = Inr Auto"
| "translateFamilyOptionString OTHER_FAMILY = Inl (PanicFailure ''not reached'')"

text \<open>
  The three regular expressions of \<^verbatim>\<open>parseHostPort\<close>. A port of digits has no colon, so the address
  ends at the last colon; the port has to fit an \<^verbatim>\<open>int\<close>.
\<close>

definition is_quad :: "string \<Rightarrow> bool" where
  "is_quad a \<longleftrightarrow> (let ps = str_split (CHR ''.'') a
     in length ps = 4 \<and> list_all (\<lambda>p. p \<noteq> [] \<and> list_all is_digit p) ps)"

definition is_hex :: "char \<Rightarrow> bool" where
  "is_hex c \<longleftrightarrow> is_digit c \<or> 97 \<le> code_of c \<and> code_of c \<le> 102 \<or> 65 \<le> code_of c \<and> code_of c \<le> 70"

definition is_bracketed :: "string \<Rightarrow> bool" where
  "is_bracketed a \<longleftrightarrow> 2 < length a \<and> hd a = CHR ''['' \<and> last a = CHR '']''
     \<and> list_all (\<lambda>c. c = CHR ''.'' \<or> c = CHR '':'' \<or> is_hex c) (butlast (tl a))"

definition is_letter :: "char \<Rightarrow> bool" where
  "is_letter c \<longleftrightarrow> 97 \<le> code_of c \<and> code_of c \<le> 122 \<or> 65 \<le> code_of c \<and> code_of c \<le> 90"

definition is_hostname :: "string \<Rightarrow> bool" where
  "is_hostname a \<longleftrightarrow> a \<noteq> []
     \<and> list_all (\<lambda>c. c = CHR ''-'' \<or> c = CHR ''.'' \<or> is_digit c \<or> is_letter c) a"

definition parseHostPort :: "string \<Rightarrow> (string \<times> nat) option" where
  "parseHostPort s =
     (case rfind_char (CHR '':'') s of
        None \<Rightarrow> None
      | Some i \<Rightarrow>
          (let a = take i s; p = drop (Suc i) s
           in if (is_quad a \<or> is_bracketed a \<or> is_hostname a) \<and> p \<noteq> []
              then (case parse_digits 0 p of
                      Some n \<Rightarrow> if n < 2 ^ 31 then Some (a, n) else None
                    | None \<Rightarrow> None)
              else None))"

text \<open>
  Counter names lose a leading \<^verbatim>\<open>cluster\<close> or \<^verbatim>\<open>worker\<close> and then a leading number. The code reads
  the first part again after the erasure without checking that there is one; \<open>None\<close> stands for that
  read out of range.
\<close>

definition strip_counter_name :: "string \<Rightarrow> string option" where
  "strip_counter_name n =
     (let v = str_split (CHR ''.'') n;
          v = (if hd v = ''cluster'' \<or> hd v = ''worker'' then tl v else v)
      in if v = [] then None
         else Some (str_join ''.'' (if simple_atoi 32 (hd v) \<noteq> None then tl v else v)))"

primrec mapCountersFromStore ::
    "(string \<Rightarrow> u64 \<Rightarrow> bool) \<Rightarrow> (string \<times> u64) list \<Rightarrow> (string \<Rightarrow> u64 option) \<Rightarrow> (string \<Rightarrow> u64 option) option" where
  "mapCountersFromStore flt [] results = Some results"
| "mapCountersFromStore flt (stat # stats) results =
     (case stat of (n, v) \<Rightarrow>
        if flt n v
        then (case strip_counter_name n of
                None \<Rightarrow> None
              | Some k \<Rightarrow> mapCountersFromStore flt stats
                  (results(k \<mapsto> (case results k of None \<Rightarrow> 0 | Some w \<Rightarrow> w) + v)))
        else mapCountersFromStore flt stats results)"

text \<open>
  Allocation of a free port. The results of the system calls are inputs; the outcome says whether
  the socket is still open afterwards.
\<close>

datatype socket_family = AF_INET | AF_INET6

datatype socket_kind = TCP_STREAM | UDP_DGRAM

record socket_calls =
  socket_fd :: "socket_family \<Rightarrow> socket_kind \<Rightarrow> int"
  setsockopt_result :: int
  bind_result :: "socket_family \<Rightarrow> int"
  bind_in_use :: bool
  getsockname_result :: int
  bound_port :: "16 word"
  close_result :: int
  errno_text :: string

definition GetAvailablePort ::
    "bool \<Rightarrow> address_family_option \<Rightarrow> socket_calls \<Rightarrow> (failure + 16 word) \<times> bool" where
  "GetAvailablePort udp address_family k =
     (let family = (if address_family = V4 then AF_INET else AF_INET6)
      in if socket_fd k family (if udp then UDP_DGRAM else TCP_STREAM) < 0
      then (Inl (NighthawkException (''could not create socket: '' @ errno_text k)), False)
      else if setsockopt_result k < 0
      then (Inl (NighthawkException (''setsockopt: '' @ errno_text k)), True)
      else if bind_result k family < 0
      then (Inl (NighthawkException
              (if bind_in_use k then ''Port allocated already in use''
               else ''Could not bind to process: '' @ errno_text k)), True)
      else if getsockname_result k = - 1
      then (Inl (NighthawkException (''Could not get sock name: '' @ errno_text k)), True)
      else if close_result k < 0
      then (Inl (NighthawkException (''Could not close socket: '' @ errno_text k)), True)
      else (Inr (bound_port k), False))"

section \<open>URIs\<close>

record 'addr Uri =
  host_and_port :: string
  host_without_port :: string
  uri_path :: string
  port :: u64
  scheme :: string
  address :: "'addr option"
  resolve_attempted :: bool

definition Uri_isValid :: "'addr Uri \<Rightarrow> bool" where
  "Uri_isValid u \<longleftrightarrow>
     (scheme u = ''http'' \<or> scheme u = ''https'' \<or> scheme u = ''zipkin'' \<or> scheme u = ''grpc'')
     \<and> (0 < port u \<and> port u \<le> 65535)
     \<and> host_without_port u \<noteq> [] \<and> hd (host_without_port u) \<noteq> CHR ''-''"

definition default_port :: "string \<Rightarrow> nat" where
  "default_port sch = (if sch = ''https'' then 443 else if sch = ''grpc'' then 8443 else 80)"

definition new_Uri :: "(string \<Rightarrow> string \<times> string) \<Rightarrow> string \<Rightarrow> string \<Rightarrow> failure + 'addr Uri" where
  "new_Uri extractHostPathFromUri uri default_scheme =
     (case extractHostPathFromUri uri of (host, path) \<Rightarrow>
        if host = [] then Inl (UriException ''Invalid URI (no host)'')
        else
          (let sch = (case find_sub ''://'' uri of
                        Some i \<Rightarrow> str_lower (take i uri) | None \<Rightarrow> default_scheme);
               mk = (\<lambda>hp h p. \<lparr>host_and_port = hp, host_without_port = h, uri_path = path, port = of_nat p,
                               scheme = sch, address = None, resolve_attempted = False\<rparr>);
               checked = (\<lambda>u. if Uri_isValid u then Inr u else Inl (UriException ''Invalid URI''))
           in case findPortSeparator host of
                None \<Rightarrow> checked (mk (host @ '':'' @ show_nat (default_port sch)) host (default_port sch))
              | Some i \<Rightarrow>
                  (case simple_atou (2 ^ 64 - 1) (drop (Suc i) host) of
                     Some p \<Rightarrow> checked (mk host (take i host) p)
                   | None \<Rightarrow> Inl (UriException (''Invalid URI, couldn'' @ quote_char # ''t parse port'')))))"

text \<open>
  Name resolution. The resolver reports whether it completed and the addresses it found; an address
  family test and the attachment of the port come from Envoy.
\<close>

record 'addr dns =
  dns_resolve :: "string \<Rightarrow> dns_lookup_family \<Rightarrow> bool \<times> 'addr list"
  getAddressWithPort :: "'addr \<Rightarrow> u64 \<Rightarrow> 'addr"
  has_ipv4 :: "'addr \<Rightarrow> bool"
  has_ipv6 :: "'addr \<Rightarrow> bool"

definition strip_brackets :: "string \<Rightarrow> string" where
  "strip_brackets h =
     (if h \<noteq> [] \<and> hd h = CHR ''['' \<and> last h = CHR '']''
      then filter (\<lambda>c. c \<noteq> CHR ''['' \<and> c \<noteq> CHR '']'') h else h)"

definition performDnsLookup :: "'addr dns \<Rightarrow> dns_lookup_family \<Rightarrow> 'addr Uri \<Rightarrow> bool \<times> 'addr Uri" where
  "performDnsLookup N fam u =
     (let (completed, response) = dns_resolve N (strip_brackets (host_without_port u)) fam;
          u = (if response \<noteq> [] \<and> completed
               then u\<lparr>address := Some (getAddressWithPort N (hd response) (port u))\<rparr> else u)
      in (address u \<noteq> None, u))"

definition Uri_resolve :: "'addr dns \<Rightarrow> dns_lookup_family \<Rightarrow> 'addr Uri \<Rightarrow> (failure + 'addr option) \<times> 'addr Uri" where
  "Uri_resolve N fam u =
     (if resolve_attempted u then (Inr (address u), u)
      else
        (let (found, u) = performDnsLookup N fam (u\<lparr>resolve_attempted := True\<rparr>);
             found = (found \<and> \<not> (fam = V6Only \<and> \<not> has_ipv6 N (the (address u))
                              \<or> fam = V4Only \<and> \<not> has_ipv4 N (the (address u))))
         in if found then (Inr (address u), u)
            else (Inl (UriException ''Could not determine address''), u\<lparr>address := None\<rparr>)))"

section \<open>Server name indication\<close>

datatype protocol = Http10 | Http11 | Http2 | Http3

definition sni_header :: "bool \<Rightarrow> string \<Rightarrow> string option" where
  "sni_header consider_authority header =
     (let h = str_lower header
      in if starts_with h ''host:'' \<or> starts_with h '':authority:'' \<and> consider_authority
         then Some (strip_whitespace (strip_prefix (strip_prefix h ''host:'') '':authority:''))
         else None)"

primrec sni_scan :: "bool \<Rightarrow> string list \<Rightarrow> bool \<Rightarrow> string \<Rightarrow> bool \<times> string" where
  "sni_scan consider_authority [] ambiguous request_sni = (ambiguous, request_sni)"
| "sni_scan consider_authority (h # hs) ambiguous request_sni =
     (case sni_header consider_authority h of
        Some host \<Rightarrow> sni_scan consider_authority hs (ambiguous \<or> request_sni \<noteq> []) host
      | None \<Rightarrow> sni_scan consider_authority hs ambiguous request_sni)"

definition computeSniHost :: "string list \<Rightarrow> string list \<Rightarrow> protocol \<Rightarrow> string" where
  "computeSniHost uri_hosts request_headers proto =
     (let uri_sni = (case uri_hosts of [h] \<Rightarrow> h | _ \<Rightarrow> []);
          (ambiguous, request_sni) = sni_scan (proto = Http2 \<or> proto = Http3) request_headers False []
      in if ambiguous then [] else if request_sni = [] then uri_sni else request_sni)"

section \<open>Versions\<close>

text \<open>
  The three numbers of a build version, zero when one of them does not parse. The code reads the
  second and the third part without checking that there is one; \<open>None\<close> stands for that read out of
  range.
\<close>

definition makeBuildVersion :: "string \<Rightarrow> (u32 \<times> u32 \<times> u32) option" where
  "makeBuildVersion version =
     (let tmp = str_split (CHR ''.'') version
      in case simple_atoi 32 (hd tmp) of
           None \<Rightarrow> Some (0, 0, 0)
         | Some major \<Rightarrow>
             (case tl tmp of
                [] \<Rightarrow> None
              | t1 # ts \<Rightarrow>
                  (case simple_atoi 32 t1 of
                     None \<Rightarrow> Some (0, 0, 0)
                   | Some minor \<Rightarrow>
                       (case ts of
                          [] \<Rightarrow> None
                        | t2 # _ \<Rightarrow>
                            (case simple_atoi 32 t2 of
                               None \<Rightarrow> Some (0, 0, 0)
                             | Some patch \<Rightarrow>
                                 Some (word_of_int major, word_of_int minor, word_of_int patch))))))"

definition toVersionString :: "u32 \<times> u32 \<times> u32 \<Rightarrow> string" where
  "toVersionString v =
     (case v of (a, b, c) \<Rightarrow> show_nat (unat a) @ ''.'' @ show_nat (unat b) @ ''.'' @ show_nat (unat c))"

section \<open>Properties\<close>

lemma simple_atoi_show: "n < 2 ^ (w - 1) \<Longrightarrow> simple_atoi w (show_nat n) = Some (int n)"
proof -
  assume "n < 2 ^ (w - 1)"
  then have "int n < 2 ^ (w - 1)" by (metis of_nat_less_iff of_nat_numeral of_nat_power)
  moreover have "- (2 ^ (w - 1)) \<le> int n" by (rule order_trans [of _ 0]) simp_all
  ultimately show ?thesis by (simp add: simple_atoi_def parse_decimal_show)
qed

lemma show_nat_no_char: "\<not> is_digit c \<Longrightarrow> c \<notin> set (show_nat n)"
  using show_nat_digits by blast

text \<open>Where the port of a host with an appended port starts.\<close>

lemma find_char_append:
  "find_char c (xs @ ys) = (case find_char c xs of Some i \<Rightarrow> Some i | None \<Rightarrow> map_option (\<lambda>j. length xs + j) (find_char c ys))"
  by (cases "find_char c ys"; induction xs) (auto split: option.splits)

lemma find_char_notin: "c \<notin> set s \<Longrightarrow> find_char c s = None"
  by (simp add: find_char_None)

lemma rfind_char_append_port:
  assumes "c \<notin> set p"
  shows "rfind_char c (h @ c # p) = Some (length h)"
  using assms by (simp add: rfind_char_def find_char_append find_char_notin)

lemma findPortSeparator_append:
  assumes "findPortSeparator host = None" "CHR '':'' \<notin> set p"
    and "host \<noteq> []" "hd host = CHR ''['' \<longrightarrow> CHR '']'' \<in> set host"
  shows "findPortSeparator (host @ '':'' @ p) = Some (length host)"
proof (cases "hd host = CHR ''[''")
  case True
  then obtain i where i: "find_char (CHR '']'') host = Some i"
    using assms(4) by (cases "find_char (CHR '']'') host") (auto simp: find_char_None)
  then have "CHR '':'' \<notin> set (drop i host)"
    using assms(1,3) True by (simp add: findPortSeparator_def find_char_from_def find_char_None)
  moreover have "i \<le> length host" using find_char_Some [OF i] by simp
  ultimately show ?thesis
    using i True assms(3) by (simp add: findPortSeparator_def find_char_from_def find_char_append find_char_notin)
next
  case False
  then show ?thesis
    using assms rfind_char_append_port [OF assms(2), of host] by (simp add: findPortSeparator_def)
qed



lemma performDnsLookup_attempted:
  "performDnsLookup N fam u = (found, v) \<Longrightarrow> resolve_attempted v = resolve_attempted u"
  by (cases "dns_resolve N (strip_brackets (host_without_port u)) fam")
    (auto simp: performDnsLookup_def Let_def split: if_splits)

text \<open>
  Resolution happens once: after a first call, successful or not, every later call returns the
  stored result without asking the resolver, and after a failure that result is a null address
  instead of an exception.
\<close>

theorem uri_resolve_once:
  assumes "Uri_resolve N fam u = (res, u')"
  shows "Uri_resolve N' fam' u' = (Inr (case res of Inl f \<Rightarrow> None | Inr a \<Rightarrow> a), u')"
proof -
  have "resolve_attempted u' \<and> address u' = (case res of Inl f \<Rightarrow> None | Inr a \<Rightarrow> a)"
  proof (cases "resolve_attempted u")
    case False
    obtain found v where v: "performDnsLookup N fam (u\<lparr>resolve_attempted := True\<rparr>) = (found, v)"
      by (cases "performDnsLookup N fam (u\<lparr>resolve_attempted := True\<rparr>)")
    then show ?thesis using assms False performDnsLookup_attempted [OF v]
      by (simp add: Uri_resolve_def Let_def split: if_splits) auto
  qed (use assms in \<open>auto simp: Uri_resolve_def\<close>)
  then show ?thesis by (simp add: Uri_resolve_def)
qed

theorem uri_resolve_once_witness:
  "Uri_resolve \<lparr>dns_resolve = (\<lambda>h f. (True, [7])), getAddressWithPort = (\<lambda>a p. a), has_ipv4 = (\<lambda>_. True),
      has_ipv6 = (\<lambda>_. True)\<rparr> V4Only
     (snd (Uri_resolve \<lparr>dns_resolve = (\<lambda>h f. (False, [])), getAddressWithPort = (\<lambda>a p. a),
        has_ipv4 = (\<lambda>_. True), has_ipv6 = (\<lambda>_. True)\<rparr> Auto
        \<lparr>host_and_port = ''a:80'', host_without_port = ''a'', uri_path = ''/'', port = 80, scheme = ''http'',
         address = (None :: nat option), resolve_attempted = False\<rparr>))
   = (Inr None, \<lparr>host_and_port = ''a:80'', host_without_port = ''a'', uri_path = ''/'', port = 80, scheme = ''http'',
         address = None, resolve_attempted = True\<rparr>)"
proof -
  have step: "Uri_resolve \<lparr>dns_resolve = (\<lambda>h f. (False, [])), getAddressWithPort = (\<lambda>a p. a),
        has_ipv4 = (\<lambda>_. True), has_ipv6 = (\<lambda>_. True)\<rparr> Auto
        \<lparr>host_and_port = ''a:80'', host_without_port = ''a'', uri_path = ''/'', port = 80, scheme = ''http'',
         address = (None :: nat option), resolve_attempted = False\<rparr>
      = (Inl (UriException ''Could not determine address''),
         \<lparr>host_and_port = ''a:80'', host_without_port = ''a'', uri_path = ''/'', port = 80, scheme = ''http'',
          address = None, resolve_attempted = True\<rparr>)"
    by (simp add: Uri_resolve_def performDnsLookup_def)
  show ?thesis using uri_resolve_once [OF step] unfolding step by simp
qed

text \<open>
  The counters collected from a store are the sums, per stripped name, of the values of the
  counters that pass the filter; nothing is lost when counters of several workers share a name.
\<close>

theorem counters_summed:
  assumes "mapCountersFromStore flt stats Map.empty = Some results"
  shows "results k =
    (let vs = map snd (filter (\<lambda>(n, v). flt n v \<and> strip_counter_name n = Some k) stats)
     in if vs = [] then None else Some (sum_list vs))"
proof -
  have "mapCountersFromStore flt stats m = Some results \<Longrightarrow> results k =
      (let vs = map snd (filter (\<lambda>(n, v). flt n v \<and> strip_counter_name n = Some k) stats)
       in if vs = [] then m k else Some ((case m k of None \<Rightarrow> 0 | Some w \<Rightarrow> w) + sum_list vs))" for m
  proof (induction stats arbitrary: m)
    case (Cons stat stats)
    obtain n v where stat: "stat = (n, v)" by fastforce
    show ?case
    proof (cases "flt n v")
      case True
      then obtain k' where k': "strip_counter_name n = Some k'"
        using Cons(2) stat by (auto split: option.splits)
      define M where "M = m(k' \<mapsto> (case m k' of None \<Rightarrow> 0 | Some w \<Rightarrow> w) + v)"
      have "mapCountersFromStore flt stats M = Some results"
        using Cons(2) True k' by (simp add: stat M_def)
      note ih = Cons(1) [OF this]
      show ?thesis
      proof (cases "k' = k")
        case True
        then have "M k = Some ((case m k of None \<Rightarrow> 0 | Some w \<Rightarrow> w) + v)" by (simp add: M_def)
        then show ?thesis using ih \<open>flt n v\<close> k' True by (simp add: stat Let_def add.assoc)
      next
        case False
        then have "M k = m k" by (simp add: M_def)
        then show ?thesis using ih \<open>flt n v\<close> k' False by (simp add: stat Let_def)
      qed
    next
      case False
      then show ?thesis using Cons(1) [of m] Cons(2) by (simp add: stat)
    qed
  qed simp
  from this [OF assms] show ?thesis by (auto simp: Let_def)
qed

theorem counters_summed_witness:
  "\<exists>results. mapCountersFromStore (\<lambda>n v. True)
       [(''cluster.0.http_2xx'', 3), (''cluster.1.http_2xx'', 4)] Map.empty = Some results
     \<and> results ''http_2xx'' = Some 7"
proof -
  let ?s = "[(''cluster.0.http_2xx'', 3), (''cluster.1.http_2xx'', 4)] :: (string \<times> u64) list"
  have strip: "strip_counter_name ''cluster.0.http_2xx'' = Some ''http_2xx''"
    "strip_counter_name ''cluster.1.http_2xx'' = Some ''http_2xx''"
    by (simp_all add: strip_counter_name_def simple_atoi_def parse_decimal_def strip_whitespace_def
        is_space_def is_digit_def digit_value_def Let_def)
  then obtain results where r: "mapCountersFromStore (\<lambda>n v. True) ?s Map.empty = Some results" by simp
  then show ?thesis using counters_summed [OF r, of "''http_2xx''"] strip by auto
qed

text \<open>
  Printing a host and a port and parsing them back gives the same host and port, for dotted
  quads, bracketed IPv6 addresses and host names.
\<close>

theorem host_port_roundtrip:
  assumes "is_quad a \<or> is_bracketed a \<or> is_hostname a" "n < 2 ^ 31"
  shows "parseHostPort (a @ '':'' @ show_nat n) = Some (a, n)"
proof -
  have "CHR '':'' \<notin> set (show_nat n)" by (rule show_nat_no_char) (simp add: is_digit_def)
  from rfind_char_append_port [OF this, of a]
  show ?thesis using assms by (simp add: parseHostPort_def parse_show_nat)
qed

theorem host_port_roundtrip_witness: "parseHostPort ''[::1]:8443'' = Some (''[::1]'', 8443)"
proof -
  have "show_nat 8443 = ''8443''" by (simp add: show_nat.simps str_simps)
  then show ?thesis
    using host_port_roundtrip [of "''[::1]''" 8443]
    by (simp add: is_bracketed_def is_hex_def is_digit_def)
qed

text \<open>
  Version strings round trip for numbers that fit a signed 32-bit integer.
\<close>

theorem version_roundtrip:
  assumes "unat a < 2 ^ 31" "unat b < 2 ^ 31" "unat c < 2 ^ 31"
  shows "makeBuildVersion (toVersionString (a, b, c)) = Some (a, b, c)"
proof -
  have dot: "CHR ''.'' \<notin> set (show_nat m)" for m
    by (rule show_nat_no_char) (simp add: is_digit_def)
  have "toVersionString (a, b, c) = str_join ''.'' [show_nat (unat a), show_nat (unat b), show_nat (unat c)]"
    by (simp add: toVersionString_def)
  moreover have "str_split (CHR ''.'') (str_join ''.'' [show_nat (unat a), show_nat (unat b), show_nat (unat c)])
      = [show_nat (unat a), show_nat (unat b), show_nat (unat c)]"
    using dot by (intro str_split_join) auto
  ultimately show ?thesis
    using assms by (simp add: makeBuildVersion_def simple_atoi_show Let_def)
qed

theorem version_roundtrip_witness: "makeBuildVersion (toVersionString (0, 5, 12)) = Some (0, 5, 12)"
  using version_roundtrip [of 0 5 12] by simp

end
