(* ===== verification/CommandLine.thy ===== *)
theory CommandLine
  imports UriUtility
begin

text \<open>
  The options of the load generator: the message \<^verbatim>\<open>CommandLineOptions\<close> (\<^verbatim>\<open>api/client/options.proto\<close>)
  and \<^verbatim>\<open>OptionsImpl\<close> (\<^verbatim>\<open>source/client/options_impl.{h,cc}\<close>) with its two constructors, its
  validation and its conversion back to a message.

  Messages that the code only passes on are represented by their serialised bytes, which are empty
  for a default message; merging a message into a default one is then an assignment. Enumerations
  are integers, as protobuf keeps values without a name. A wrapped value is an option. The command
  line parser, protobuf's JSON and time conversions and its generated validation are parameters.
\<close>

section \<open>Messages\<close>

type_synonym opaque = string

record TypedExtensionConfig =
  ext_name :: string
  typed_config :: opaque

record endpoint =
  ep_address :: "string option"
  ep_port :: "u32 option"

record multi_target =
  mt_use_https :: "bool option"
  mt_endpoints :: "endpoint list"
  mt_path :: "string option"

record request_options =
  ro_request_method :: int
  ro_request_headers :: "(string \<times> string) list"
  ro_request_body_size :: "u32 option"
  ro_json_body :: string

record tunnel_options =
  to_tunnel_uri :: string
  to_tunnel_protocol :: "int option"
  to_tunnel_tls_context :: opaque

datatype duration_choice = NoDurationChoice | Duration proto_duration | NoDuration bool
datatype protocol_choice = NoProtocolChoice | H2 bool | Protocol int
datatype request_choice =
  NoRequestChoice | RequestOptionsChoice request_options | RequestSourceUri string | RequestSourcePlugin TypedExtensionConfig
datatype target_choice = NoTarget | TargetUri string | MultiTarget multi_target
datatype flush_choice = NoFlushChoice | FlushInterval u32 | FlushDuration proto_duration

record CommandLineOptions =
  p_requests_per_second :: "u32 option"
  p_connections :: "u32 option"
  p_duration :: duration_choice
  p_timeout :: "proto_duration option"
  p_protocol :: protocol_choice
  p_tunnel_options :: "tunnel_options option"
  p_http3_protocol_options :: "opaque option"
  p_concurrency :: "string option"
  p_verbosity :: "int option"
  p_output_format :: "int option"
  p_prefetch_connections :: "bool option"
  p_burst_size :: "u32 option"
  p_address_family :: "int option"
  p_request :: request_choice
  p_tls_context :: opaque
  p_max_pending_requests :: "u32 option"
  p_max_active_requests :: "u32 option"
  p_max_requests_per_connection :: "u32 option"
  p_sequencer_idle_strategy :: "int option"
  p_target :: target_choice
  p_trace :: "string option"
  p_h1_connection_reuse_strategy :: "int option"
  p_termination_predicates :: "(string \<times> u64) list"
  p_failure_predicates :: "(string \<times> u64) list"
  p_no_default_failure_predicates :: "bool option"
  p_open_loop :: "bool option"
  p_jitter_uniform :: "proto_duration option"
  p_nighthawk_service :: "string option"
  p_h2_use_multiple_connections :: "bool option"
  p_max_concurrent_streams :: "u32 option"
  p_labels :: "string list"
  p_upstream_bind_config :: "opaque option"
  p_transport_socket :: "opaque option"
  p_simple_warmup :: "bool option"
  p_stats_sinks :: "opaque list"
  p_stats_flush :: flush_choice
  p_latency_response_header_name :: "string option"
  p_scheduled_start :: "proto_duration option"
  p_execution_id :: "string option"
  p_user_defined_plugin_configs :: "TypedExtensionConfig list"
  p_rate_limiter_plugin_config :: "TypedExtensionConfig option"

text \<open>The default message.\<close>

definition default_CommandLineOptions :: CommandLineOptions where
  "default_CommandLineOptions =
     \<lparr>p_requests_per_second = None, p_connections = None, p_duration = NoDurationChoice,
      p_timeout = None, p_protocol = NoProtocolChoice, p_tunnel_options = None,
      p_http3_protocol_options = None, p_concurrency = None, p_verbosity = None, p_output_format = None,
      p_prefetch_connections = None, p_burst_size = None, p_address_family = None,
      p_request = NoRequestChoice, p_tls_context = [], p_max_pending_requests = None,
      p_max_active_requests = None, p_max_requests_per_connection = None, p_sequencer_idle_strategy = None,
      p_target = NoTarget, p_trace = None, p_h1_connection_reuse_strategy = None,
      p_termination_predicates = [], p_failure_predicates = [], p_no_default_failure_predicates = None,
      p_open_loop = None, p_jitter_uniform = None, p_nighthawk_service = None,
      p_h2_use_multiple_connections = None, p_max_concurrent_streams = None, p_labels = [],
      p_upstream_bind_config = None, p_transport_socket = None, p_simple_warmup = None, p_stats_sinks = [],
      p_stats_flush = NoFlushChoice, p_latency_response_header_name = None, p_scheduled_start = None,
      p_execution_id = None, p_user_defined_plugin_configs = [],
      p_rate_limiter_plugin_config = None\<rparr>"

section \<open>The options object\<close>

record Options =
  opt_requests_per_second :: u32
  opt_connections :: u32
  opt_duration :: u32
  opt_timeout :: u32
  opt_uri :: "string option"
  opt_h2 :: bool
  opt_protocol :: int
  opt_http3_protocol_options :: "opaque option"
  opt_concurrency :: string
  opt_tunnel_protocol :: int
  opt_tunnel_uri :: string
  opt_encap_port :: u32
  opt_tunnel_tls_context :: "opaque option"
  opt_verbosity :: int
  opt_output_format :: int
  opt_prefetch_connections :: bool
  opt_burst_size :: u32
  opt_address_family :: int
  opt_request_method :: int
  opt_request_headers :: "string list"
  opt_request_body_size :: u32
  opt_tls_context :: opaque
  opt_upstream_bind_config :: "opaque option"
  opt_transport_socket :: "opaque option"
  opt_request_source_plugin_config :: "TypedExtensionConfig option"
  opt_rate_limiter_plugin_config :: "TypedExtensionConfig option"
  opt_max_pending_requests :: u32
  opt_max_active_requests :: u32
  opt_max_requests_per_connection :: u32
  opt_max_concurrent_streams :: u32
  opt_sequencer_idle_strategy :: int
  opt_request_source :: string
  opt_trace :: string
  opt_h1_connection_reuse_strategy :: int
  opt_termination_predicates :: "(string \<times> u64) list"
  opt_failure_predicates :: "(string \<times> u64) list"
  opt_no_default_failure_predicates :: bool
  opt_open_loop :: bool
  opt_jitter_uniform :: int
  opt_nighthawk_service :: string
  opt_h2_use_multiple_connections :: bool
  opt_multi_target_endpoints :: "endpoint list"
  opt_multi_target_path :: string
  opt_multi_target_use_https :: bool
  opt_labels :: "string list"
  opt_simple_warmup :: bool
  opt_no_duration :: bool
  opt_stats_sinks :: "opaque list"
  opt_stats_flush_interval :: u32
  opt_stats_flush_interval_duration :: proto_duration
  opt_latency_response_header_name :: string
  opt_scheduled_start :: "int option"
  opt_execution_id :: "string option"
  opt_user_defined_output_plugin_configs :: "TypedExtensionConfig list"

definition largest_acceptable_uint32_option_value :: u32 where
  "largest_acceptable_uint32_option_value = 0xFFFFFFFF - 30000"

definition largest_acceptable_concurrent_streams_value :: u32 where
  "largest_acceptable_concurrent_streams_value = 2147483647"

text \<open>The enumerations of \<^verbatim>\<open>options.proto\<close> that the code names, and \<^verbatim>\<open>RequestMethod::GET\<close> of Envoy.\<close>

abbreviation (input) HTTP1 :: int where "HTTP1 \<equiv> 0"
abbreviation (input) HTTP2 :: int where "HTTP2 \<equiv> 1"
abbreviation (input) HTTP3 :: int where "HTTP3 \<equiv> 2"
abbreviation (input) METHOD_UNSPECIFIED :: int where "METHOD_UNSPECIFIED \<equiv> 0"

text \<open>The default member initialisers.\<close>

definition initial_options :: Options where
  "initial_options =
     \<lparr>opt_requests_per_second = 5, opt_connections = 100, opt_duration = 5, opt_timeout = 30,
      opt_uri = None, opt_h2 = False, opt_protocol = HTTP1, opt_http3_protocol_options = None,
      opt_concurrency = [], opt_tunnel_protocol = HTTP1, opt_tunnel_uri = [], opt_encap_port = 0,
      opt_tunnel_tls_context = None, opt_verbosity = 4, opt_output_format = 1,
      opt_prefetch_connections = False, opt_burst_size = 0, opt_address_family = 0,
      opt_request_method = 1, opt_request_headers = [], opt_request_body_size = 0, opt_tls_context = [],
      opt_upstream_bind_config = None, opt_transport_socket = None,
      opt_request_source_plugin_config = None, opt_rate_limiter_plugin_config = None,
      opt_max_pending_requests = 0, opt_max_active_requests = 100,
      opt_max_requests_per_connection = largest_acceptable_uint32_option_value,
      opt_max_concurrent_streams = largest_acceptable_concurrent_streams_value,
      opt_sequencer_idle_strategy = 1, opt_request_source = [], opt_trace = [],
      opt_h1_connection_reuse_strategy = 1, opt_termination_predicates = [], opt_failure_predicates = [],
      opt_no_default_failure_predicates = False, opt_open_loop = False, opt_jitter_uniform = 0,
      opt_nighthawk_service = [], opt_h2_use_multiple_connections = False, opt_multi_target_endpoints = [],
      opt_multi_target_path = [], opt_multi_target_use_https = False, opt_labels = [],
      opt_simple_warmup = False, opt_no_duration = False, opt_stats_sinks = [],
      opt_stats_flush_interval = 5, opt_stats_flush_interval_duration = zero_duration,
      opt_latency_response_header_name = [], opt_scheduled_start = None, opt_execution_id = None,
      opt_user_defined_output_plugin_configs = []\<rparr>"

definition default_failure_predicates :: "(string \<times> u64) list" where
  "default_failure_predicates =
     fold (\<lambda>(k, v). map_set k v)
       [(''benchmark.http_4xx'', 0), (''benchmark.http_5xx'', 0),
        (''benchmark.pool_connection_failure'', 0), (''benchmark.stream_resets'', 0),
        (''requestsource.upstream_rq_5xx'', 0)] []"

definition setNonTrivialDefaults :: "Options \<Rightarrow> Options" where
  "setNonTrivialDefaults o1 =
     o1\<lparr>opt_concurrency := ''1'', opt_failure_predicates := default_failure_predicates,
        opt_jitter_uniform := 0\<rparr>"

definition Options_protocol :: "Options \<Rightarrow> protocol" where
  "Options_protocol o1 =
     (if opt_h2 o1 \<or> opt_protocol o1 = HTTP2 then Http2
      else if opt_protocol o1 = HTTP3 then Http3 else Http11)"

definition Options_tunnelProtocol :: "Options \<Rightarrow> protocol" where
  "Options_tunnelProtocol o1 =
     (if opt_tunnel_protocol o1 = HTTP2 then Http2
      else if opt_tunnel_protocol o1 = HTTP3 then Http3 else Http11)"

section \<open>The environment of the constructors\<close>

record options_env =
  env_extract :: "string \<Rightarrow> string \<times> string"
  env_validate :: "CommandLineOptions \<Rightarrow> string option"
  env_sockets :: socket_calls
  env_DurationToNanoseconds :: "proto_duration \<Rightarrow> int"
  env_NanosecondsToDuration :: "int \<Rightarrow> proto_duration"
  env_NanosecondsToTimestamp :: "int \<Rightarrow> proto_duration"
  env_DurationFromString :: "string \<Rightarrow> proto_duration option"
  env_loadMessage :: "string \<Rightarrow> string + opaque"
  env_loadExtension :: "string \<Rightarrow> string + TypedExtensionConfig"
  env_RequestMethod_Parse :: "string \<Rightarrow> int option"

definition address_family_of :: "int \<Rightarrow> address_family_option" where
  "address_family_of i = (if i = 0 then AUTO else if i = 1 then V4 else if i = 2 then V6 else OTHER_FAMILY)"

text \<open>\<^verbatim>\<open>std::stoi\<close>: white space, a sign and the longest run of digits; the rest is ignored.\<close>

text \<open>Division of integers as C++ has it, towards zero.\<close>

definition truncate_quot :: "int \<Rightarrow> int \<Rightarrow> int" where
  "truncate_quot a b = (if (0 \<le> a) = (0 < b) then \<bar>a\<bar> div \<bar>b\<bar> else - (\<bar>a\<bar> div \<bar>b\<bar>))"

datatype stoi_result = InvalidArgument | OutOfRange | Parsed int

definition stoi :: "string \<Rightarrow> stoi_result" where
  "stoi s =
     (let t = dropWhile is_space s;
          neg = (t \<noteq> [] \<and> hd t = CHR ''-'');
          d = takeWhile is_digit (if t \<noteq> [] \<and> (hd t = CHR ''-'' \<or> hd t = CHR ''+'') then tl t else t)
      in case parse_digits 0 d of
           Some n \<Rightarrow>
             if d = [] then InvalidArgument
             else (let v = (if neg then - int n else int n)
                   in if - (2 ^ 31) \<le> v \<and> v < 2 ^ 31 then Parsed v else OutOfRange)
         | None \<Rightarrow> InvalidArgument)"

section \<open>Conversion to a message\<close>

text \<open>A header is split at its first colon after the first character.\<close>

definition split_header :: "string \<Rightarrow> (string \<times> string) option" where
  "split_header header =
     (if header = [] then None
      else case find_char_from (CHR '':'') 1 header of
        None \<Rightarrow> None
      | Some pos \<Rightarrow> Some (strip_whitespace (take pos header), strip_whitespace (drop (Suc pos) header)))"

primrec split_headers :: "string list \<Rightarrow> failure + (string \<times> string) list" where
  "split_headers [] = Inr []"
| "split_headers (h # hs) =
     (case split_header h of
        None \<Rightarrow> Inl (MalformedArgvException (''A '' @ [quote_char] @ '':'' @ [quote_char] @ '' is required in a header.''))
      | Some kv \<Rightarrow> (case split_headers hs of Inl e \<Rightarrow> Inl e | Inr kvs \<Rightarrow> Inr (kv # kvs)))"

text \<open>The request options; the body size is only set while a header is added.\<close>

definition request_to_proto :: "Options \<Rightarrow> failure + request_choice" where
  "request_to_proto o1 =
     (if opt_request_source o1 \<noteq> [] then Inr (RequestSourceUri (opt_request_source o1))
      else case opt_request_source_plugin_config o1 of
        Some c \<Rightarrow> Inr (RequestSourcePlugin c)
      | None \<Rightarrow>
          (case split_headers (opt_request_headers o1) of
             Inl e \<Rightarrow> Inl e
           | Inr kvs \<Rightarrow>
               Inr (RequestOptionsChoice
                 \<lparr>ro_request_method = opt_request_method o1, ro_request_headers = kvs,
                  ro_request_body_size = (if kvs = [] then None else Some (opt_request_body_size o1)),
                  ro_json_body = []\<rparr>)))"

definition target_to_proto :: "Options \<Rightarrow> target_choice" where
  "target_to_proto o1 =
     (case opt_uri o1 of
        Some u \<Rightarrow> TargetUri u
      | None \<Rightarrow>
          MultiTarget
            \<lparr>mt_use_https = Some (opt_multi_target_use_https o1),
             mt_endpoints = map (\<lambda>ep.
               \<lparr>ep_address = Some (case ep_address ep of Some a \<Rightarrow> a | None \<Rightarrow> []),
                ep_port = Some (case ep_port ep of Some n \<Rightarrow> n | None \<Rightarrow> 0)\<rparr>) (opt_multi_target_endpoints o1),
             mt_path = Some (opt_multi_target_path o1)\<rparr>)"

definition flush_to_proto :: "Options \<Rightarrow> flush_choice" where
  "flush_to_proto o1 =
     (let d = opt_stats_flush_interval_duration o1
      in if 0 < seconds d \<or> 0 < nanos d then FlushDuration d else FlushInterval (opt_stats_flush_interval o1))"

definition toCommandLineOptionsInternal :: "options_env \<Rightarrow> Options \<Rightarrow> failure + CommandLineOptions" where
  "toCommandLineOptionsInternal E o1 =
     (case request_to_proto o1 of
        Inl e \<Rightarrow> Inl e
      | Inr request \<Rightarrow> Inr
          \<lparr>p_requests_per_second = Some (opt_requests_per_second o1),
           p_connections = Some (opt_connections o1),
           p_duration = (if opt_no_duration o1 then NoDuration (opt_no_duration o1)
                         else Duration \<lparr>seconds = uint (opt_duration o1), nanos = 0\<rparr>),
           p_timeout = Some \<lparr>seconds = uint (opt_timeout o1), nanos = 0\<rparr>,
           p_protocol = (if opt_h2 o1 then H2 (opt_h2 o1) else Protocol (opt_protocol o1)),
           p_tunnel_options = None,
           p_http3_protocol_options = opt_http3_protocol_options o1,
           p_concurrency = Some (opt_concurrency o1),
           p_verbosity = Some (opt_verbosity o1),
           p_output_format = Some (opt_output_format o1),
           p_prefetch_connections = Some (opt_prefetch_connections o1),
           p_burst_size = Some (opt_burst_size o1),
           p_address_family = Some (opt_address_family o1),
           p_request = request,
           p_tls_context = opt_tls_context o1,
           p_max_pending_requests = Some (opt_max_pending_requests o1),
           p_max_active_requests = Some (opt_max_active_requests o1),
           p_max_requests_per_connection = Some (opt_max_requests_per_connection o1),
           p_sequencer_idle_strategy = Some (opt_sequencer_idle_strategy o1),
           p_target = target_to_proto o1,
           p_trace = Some (opt_trace o1),
           p_h1_connection_reuse_strategy = Some (opt_h1_connection_reuse_strategy o1),
           p_termination_predicates = fold (\<lambda>(k, v). map_set k v) (opt_termination_predicates o1) [],
           p_failure_predicates = fold (\<lambda>(k, v). map_set k v) (opt_failure_predicates o1) [],
           p_no_default_failure_predicates = Some (opt_no_default_failure_predicates o1),
           p_open_loop = Some (opt_open_loop o1),
           p_jitter_uniform = (if 0 < opt_jitter_uniform o1
                               then Some (env_NanosecondsToDuration E (opt_jitter_uniform o1)) else None),
           p_nighthawk_service = Some (opt_nighthawk_service o1),
           p_h2_use_multiple_connections = None,
           p_max_concurrent_streams = Some (opt_max_concurrent_streams o1),
           p_labels = opt_labels o1,
           p_upstream_bind_config = opt_upstream_bind_config o1,
           p_transport_socket = opt_transport_socket o1,
           p_simple_warmup = Some (opt_simple_warmup o1),
           p_stats_sinks = opt_stats_sinks o1,
           p_stats_flush = flush_to_proto o1,
           p_latency_response_header_name = Some (opt_latency_response_header_name o1),
           p_scheduled_start = map_option (env_NanosecondsToTimestamp E) (opt_scheduled_start o1),
           p_execution_id = opt_execution_id o1,
           p_user_defined_plugin_configs = opt_user_defined_output_plugin_configs o1,
           p_rate_limiter_plugin_config = opt_rate_limiter_plugin_config o1\<rparr>)"

section \<open>Validation\<close>

definition check_concurrency :: "Options \<Rightarrow> failure + Options" where
  "check_concurrency o1 =
     (if opt_concurrency o1 = ''auto'' then Inr o1
      else case stoi (opt_concurrency o1) of
        InvalidArgument \<Rightarrow> Inl (MalformedArgvException ''Invalid value for --concurrency'')
      | OutOfRange \<Rightarrow> Inl (MalformedArgvException ''Value out of range: --concurrency'')
      | Parsed n \<Rightarrow>
          if n \<le> 0 then Inl (MalformedArgvException ''Value for --concurrency should be greater then 0.'')
          else Inr o1)"

definition check_request_source :: "options_env \<Rightarrow> Options \<Rightarrow> failure + Options" where
  "check_request_source E o1 =
     (if opt_request_source o1 = [] then Inr o1
      else case (new_Uri (env_extract E) (opt_request_source o1) ''grpc'' :: failure + unit Uri) of
        Inl _ \<Rightarrow> Inl (MalformedArgvException ''Invalid replay source URI'')
      | Inr u \<Rightarrow>
          if scheme u \<noteq> ''grpc'' then Inl (MalformedArgvException ''Invalid replay source URI'') else Inr o1)"

definition check_target :: "options_env \<Rightarrow> Options \<Rightarrow> failure + Options" where
  "check_target E o1 =
     (case opt_uri o1 of
        Some u \<Rightarrow>
          (case (new_Uri (env_extract E) u ''http'' :: failure + unit Uri) of
             Inl _ \<Rightarrow> Inl (MalformedArgvException (''Invalid target URI: '' @ [quote_char, quote_char]))
           | Inr _ \<Rightarrow>
               if opt_multi_target_endpoints o1 \<noteq> [] \<or> opt_multi_target_path o1 \<noteq> [] \<or> opt_multi_target_use_https o1
               then Inl (MalformedArgvException ''URI and --multi-target-* options cannot both be specified.'')
               else Inr o1)
      | None \<Rightarrow>
          if opt_multi_target_endpoints o1 = []
          then Inl (MalformedArgvException ''A URI or --multi-target-* options must be specified.'')
          else if opt_multi_target_path o1 = []
          then Inl (MalformedArgvException ''--multi-target-path must be specified.'')
          else Inr o1)"

definition check_message :: "options_env \<Rightarrow> Options \<Rightarrow> failure + Options" where
  "check_message E o1 =
     (case toCommandLineOptionsInternal E o1 of
        Inl e \<Rightarrow> Inl e
      | Inr p \<Rightarrow> (case env_validate E p of Some m \<Rightarrow> Inl (MalformedArgvException m) | None \<Rightarrow> Inr o1))"

definition Options_validate :: "options_env \<Rightarrow> Options \<Rightarrow> failure + Options" where
  "Options_validate E =
     run_steps
       [throw_if opt_h2_use_multiple_connections
          (MalformedArgvException (''The experimental_h2_use_multiple_connections option is deprecated, set ''
             @ ''max_concurrent_streams to one instead.'')),
        check_concurrency, check_request_source E, check_target E, check_message E]"

section \<open>Construction from a message\<close>

text \<open>\<^verbatim>\<open>PROTOBUF_GET_WRAPPED_OR_DEFAULT\<close>\<close>

definition get_or :: "'a \<Rightarrow> 'a option \<Rightarrow> 'a" where
  "get_or d x = (case x of None \<Rightarrow> d | Some v \<Rightarrow> v)"

definition target_from_proto :: "CommandLineOptions \<Rightarrow> Options \<Rightarrow> Options" where
  "target_from_proto p o1 =
     (case p_target p of
        TargetUri u \<Rightarrow> o1\<lparr>opt_uri := Some u\<rparr>
      | MultiTarget m \<Rightarrow>
          o1\<lparr>opt_multi_target_path := get_or (opt_multi_target_path o1) (mt_path m),
             opt_multi_target_use_https := get_or (opt_multi_target_use_https o1) (mt_use_https m),
             opt_multi_target_endpoints := opt_multi_target_endpoints o1 @ mt_endpoints m\<rparr>
      | NoTarget \<Rightarrow> o1)"

definition basics_from_proto :: "CommandLineOptions \<Rightarrow> Options \<Rightarrow> Options" where
  "basics_from_proto p o1 =
     (let o1 = o1\<lparr>opt_requests_per_second := get_or (opt_requests_per_second o1) (p_requests_per_second p),
                  opt_duration := (case p_duration p of Duration d \<Rightarrow> word_of_int (seconds d) | _ \<Rightarrow> opt_duration o1),
                  opt_timeout := (case p_timeout p of Some d \<Rightarrow> word_of_int (seconds d) | None \<Rightarrow> opt_timeout o1)\<rparr>;
          o1 = target_from_proto p o1
      in o1\<lparr>opt_h2 := (case p_protocol p of H2 b \<Rightarrow> b | _ \<Rightarrow> opt_h2 o1),
            opt_protocol := (case p_protocol p of Protocol i \<Rightarrow> i | _ \<Rightarrow> opt_protocol o1),
            opt_http3_protocol_options :=
              (case p_http3_protocol_options p of Some m \<Rightarrow> Some m | None \<Rightarrow> opt_http3_protocol_options o1),
            opt_concurrency := get_or (opt_concurrency o1) (p_concurrency p),
            opt_verbosity := get_or (opt_verbosity o1) (p_verbosity p),
            opt_output_format := get_or (opt_output_format o1) (p_output_format p),
            opt_prefetch_connections := get_or (opt_prefetch_connections o1) (p_prefetch_connections p),
            opt_burst_size := get_or (opt_burst_size o1) (p_burst_size p),
            opt_address_family := get_or (opt_address_family o1) (p_address_family p)\<rparr>)"

text \<open>
  The tunnel options end with a member call through \<^verbatim>\<open>tunnel_tls_context_->\<close>, an optional that
  nothing has set.
\<close>

definition tunnel_from_proto :: "options_env \<Rightarrow> CommandLineOptions \<Rightarrow> Options \<Rightarrow> failure + Options" where
  "tunnel_from_proto E p o1 =
     (case p_tunnel_options p of
        None \<Rightarrow> Inr o1
      | Some t \<Rightarrow>
          (let o1 = o1\<lparr>opt_tunnel_protocol := get_or (opt_tunnel_protocol o1) (to_tunnel_protocol t),
                       opt_tunnel_uri := to_tunnel_uri t\<rparr>
           in case fst (GetAvailablePort (opt_protocol o1 = HTTP3) (address_family_of (opt_address_family o1))
                          (env_sockets E)) of
                Inl e \<Rightarrow> Inl e
              | Inr free_port \<Rightarrow>
                  (let o1 = o1\<lparr>opt_encap_port := ucast free_port\<rparr>
                   in case opt_tunnel_tls_context o1 of
                        None \<Rightarrow> Inl (UndefinedBehaviour ''tunnel_tls_context_->MergeFrom'')
                      | Some _ \<Rightarrow> Inr (o1\<lparr>opt_tunnel_tls_context := Some (to_tunnel_tls_context t)\<rparr>))))"

definition request_from_proto :: "CommandLineOptions \<Rightarrow> Options \<Rightarrow> Options" where
  "request_from_proto p o1 =
     (case p_request p of
        RequestOptionsChoice r \<Rightarrow>
          o1\<lparr>opt_request_headers := opt_request_headers o1 @ map (\<lambda>(k, v). k @ '':'' @ v) (ro_request_headers r),
             opt_request_method := (if ro_request_method r \<noteq> METHOD_UNSPECIFIED then ro_request_method r
                                    else opt_request_method o1),
             opt_request_body_size := get_or (opt_request_body_size o1) (ro_request_body_size r)\<rparr>
      | RequestSourceUri u \<Rightarrow> o1\<lparr>opt_request_source := u\<rparr>
      | RequestSourcePlugin c \<Rightarrow> o1\<lparr>opt_request_source_plugin_config := Some c\<rparr>
      | NoRequestChoice \<Rightarrow> o1)"

definition rate_limiter_from_proto :: "CommandLineOptions \<Rightarrow> Options \<Rightarrow> failure + Options" where
  "rate_limiter_from_proto p o1 =
     (case p_rate_limiter_plugin_config p of
        None \<Rightarrow> Inr o1
      | Some c \<Rightarrow>
          if get_or 0 (p_burst_size p) \<noteq> 0
          then Inl (MalformedArgvException ''burst_size and rate_limiter_plugin_config are mutually exclusive'')
          else if (case p_jitter_uniform p of None \<Rightarrow> False | Some d \<Rightarrow> seconds d \<noteq> 0 \<or> nanos d \<noteq> 0)
          then Inl (MalformedArgvException ''jitter_uniform and rate_limiter_plugin_config are mutually exclusive'')
          else Inr (o1\<lparr>opt_rate_limiter_plugin_config := Some c\<rparr>))"

definition limits_from_proto :: "CommandLineOptions \<Rightarrow> Options \<Rightarrow> Options" where
  "limits_from_proto p o1 =
     o1\<lparr>opt_max_pending_requests := get_or (opt_max_pending_requests o1) (p_max_pending_requests p),
        opt_max_active_requests := get_or (opt_max_active_requests o1) (p_max_active_requests p),
        opt_max_requests_per_connection :=
          get_or (opt_max_requests_per_connection o1) (p_max_requests_per_connection p),
        opt_max_concurrent_streams := get_or (opt_max_concurrent_streams o1) (p_max_concurrent_streams p),
        opt_connections := get_or (opt_connections o1) (p_connections p),
        opt_sequencer_idle_strategy := get_or (opt_sequencer_idle_strategy o1) (p_sequencer_idle_strategy p),
        opt_trace := get_or (opt_trace o1) (p_trace p),
        opt_h1_connection_reuse_strategy :=
          get_or (opt_h1_connection_reuse_strategy o1) (p_h1_connection_reuse_strategy p),
        opt_open_loop := get_or (opt_open_loop o1) (p_open_loop p),
        opt_tls_context := p_tls_context p,
        opt_upstream_bind_config :=
          (case p_upstream_bind_config p of Some m \<Rightarrow> Some m | None \<Rightarrow> opt_upstream_bind_config o1),
        opt_transport_socket := (case p_transport_socket p of Some m \<Rightarrow> Some m | None \<Rightarrow> opt_transport_socket o1)\<rparr>"

definition predicates_from_proto :: "CommandLineOptions \<Rightarrow> Options \<Rightarrow> Options" where
  "predicates_from_proto p o1 =
     (let no_defaults = get_or (opt_no_default_failure_predicates o1) (p_no_default_failure_predicates p);
          failures = (if no_defaults \<or> p_failure_predicates p \<noteq> [] then [] else opt_failure_predicates o1)
      in o1\<lparr>opt_no_default_failure_predicates := no_defaults,
            opt_failure_predicates := fold (\<lambda>(k, v). map_set k v) (p_failure_predicates p) failures,
            opt_termination_predicates :=
              fold (\<lambda>(k, v). map_set k v) (p_termination_predicates p) (opt_termination_predicates o1)\<rparr>)"

text \<open>
  The start time loses its fraction of a microsecond; the system clock counts nanoseconds, as in
  libstdc++.
\<close>

definition rest_from_proto :: "options_env \<Rightarrow> CommandLineOptions \<Rightarrow> Options \<Rightarrow> Options" where
  "rest_from_proto E p o1 =
     o1\<lparr>opt_jitter_uniform :=
          (case p_jitter_uniform p of Some d \<Rightarrow> env_DurationToNanoseconds E d | None \<Rightarrow> opt_jitter_uniform o1),
        opt_stats_sinks := opt_stats_sinks o1 @ p_stats_sinks p,
        opt_stats_flush_interval :=
          (case p_stats_flush p of FlushInterval n \<Rightarrow> n | _ \<Rightarrow> opt_stats_flush_interval o1),
        opt_stats_flush_interval_duration :=
          (case p_stats_flush p of FlushDuration d \<Rightarrow> d | _ \<Rightarrow> opt_stats_flush_interval_duration o1),
        opt_nighthawk_service := get_or (opt_nighthawk_service o1) (p_nighthawk_service p),
        opt_h2_use_multiple_connections :=
          get_or (opt_h2_use_multiple_connections o1) (p_h2_use_multiple_connections p),
        opt_simple_warmup := get_or (opt_simple_warmup o1) (p_simple_warmup p),
        opt_no_duration := (case p_duration p of NoDuration b \<Rightarrow> b | _ \<Rightarrow> opt_no_duration o1),
        opt_labels := opt_labels o1 @ p_labels p,
        opt_latency_response_header_name :=
          get_or (opt_latency_response_header_name o1) (p_latency_response_header_name p),
        opt_scheduled_start :=
          (case p_scheduled_start p of
             None \<Rightarrow> opt_scheduled_start o1
           | Some t \<Rightarrow> Some (truncate_quot (nanos t + seconds t * 1000000000) 1000 * 1000)),
        opt_execution_id := (case p_execution_id p of Some i \<Rightarrow> Some i | None \<Rightarrow> opt_execution_id o1),
        opt_user_defined_output_plugin_configs :=
          opt_user_defined_output_plugin_configs o1 @ p_user_defined_plugin_configs p\<rparr>"

definition OptionsImpl_proto :: "options_env \<Rightarrow> CommandLineOptions \<Rightarrow> failure + Options" where
  "OptionsImpl_proto E p =
     run_steps
       [assign setNonTrivialDefaults,
        assign (basics_from_proto p),
        tunnel_from_proto E p,
        assign (request_from_proto p),
        rate_limiter_from_proto p,
        assign (limits_from_proto p),
        assign (predicates_from_proto p),
        assign (rest_from_proto E p),
        Options_validate E] initial_options"

section \<open>Construction from the command line\<close>

text \<open>
  What the command line parser returns: a value argument is an option, a switch a truth value and a
  multiple argument the list of its values, empty when it was not given. The value of a string
  argument that was not given is empty.
\<close>

record arguments =
  a_requests_per_second :: "u32 option"
  a_connections :: "u32 option"
  a_duration :: "u32 option"
  a_timeout :: "u32 option"
  a_h2 :: bool
  a_protocol :: "string option"
  a_http3_protocol_options :: "string option"
  a_tunnel_protocol :: "string option"
  a_tunnel_uri :: "string option"
  a_tunnel_tls_context :: "string option"
  a_concurrency :: "string option"
  a_verbosity :: "string option"
  a_output_format :: "string option"
  a_prefetch_connections :: bool
  a_burst_size :: "u32 option"
  a_address_family :: "string option"
  a_request_method :: "string option"
  a_request_headers :: "string list"
  a_request_body_size :: "u32 option"
  a_tls_context :: "string option"
  a_upstream_bind_config :: "string option"
  a_transport_socket :: "string option"
  a_max_pending_requests :: "u32 option"
  a_max_active_requests :: "u32 option"
  a_max_requests_per_connection :: "u32 option"
  a_max_concurrent_streams :: "u32 option"
  a_sequencer_idle_strategy :: "string option"
  a_trace :: "string option"
  a_termination_predicates :: "string list"
  a_failure_predicates :: "string list"
  a_no_default_failure_predicates :: bool
  a_h1_connection_reuse_strategy :: "string option"
  a_open_loop :: bool
  a_jitter_uniform :: "string option"
  a_nighthawk_service :: "string option"
  a_h2_use_multiple_connections :: bool
  a_multi_target_endpoints :: "string list"
  a_multi_target_path :: "string option"
  a_multi_target_use_https :: bool
  a_labels :: "string list"
  a_uri :: "string option"
  a_request_source :: "string option"
  a_request_source_plugin_config :: "string option"
  a_rate_limiter_plugin_config :: "string option"
  a_simple_warmup :: bool
  a_no_duration :: bool
  a_stats_sinks :: "string list"
  a_stats_flush_interval :: "u32 option"
  a_stats_flush_interval_duration :: "string option"
  a_latency_response_header_name :: "string option"
  a_user_defined_output_plugin_configs :: "string list"

abbreviation malformed :: "string \<Rightarrow> failure" where
  "malformed \<equiv> MalformedArgvException"

abbreviation isSet :: "'a option \<Rightarrow> bool" where
  "isSet a \<equiv> a \<noteq> None"

definition getValue :: "string option \<Rightarrow> string" where
  "getValue a = get_or [] a"

text \<open>Enumerators by name, as protobuf's generated \<^verbatim>\<open>..._Parse\<close> functions give them.\<close>

definition Protocol_Parse :: "string \<Rightarrow> int option" where
  "Protocol_Parse = map_of [(''HTTP1'', 0), (''HTTP2'', 1), (''HTTP3'', 2)]"

definition Verbosity_Parse :: "string \<Rightarrow> int option" where
  "Verbosity_Parse = map_of [(''DEFAULT'', 0), (''INFO'', 1), (''TRACE'', 2), (''DEBUG'', 3), (''WARN'', 4),
     (''ERROR'', 5), (''CRITICAL'', 6)]"

definition OutputFormat_Parse :: "string \<Rightarrow> int option" where
  "OutputFormat_Parse = map_of [(''DEFAULT'', 0), (''JSON'', 1), (''HUMAN'', 2), (''YAML'', 3), (''DOTTED'', 4),
     (''FORTIO'', 5), (''EXPERIMENTAL_FORTIO_PEDANTIC'', 6), (''CSV'', 7), (''PROMETHEUS'', 8)]"

definition AddressFamily_Parse :: "string \<Rightarrow> int option" where
  "AddressFamily_Parse = map_of [(''AUTO'', 0), (''V4'', 1), (''V6'', 2)]"

definition SequencerIdleStrategy_Parse :: "string \<Rightarrow> int option" where
  "SequencerIdleStrategy_Parse = map_of [(''DEFAULT'', 0), (''SPIN'', 1), (''POLL'', 2), (''SLEEP'', 3)]"

definition H1ConnectionReuseStrategy_Parse :: "string \<Rightarrow> int option" where
  "H1ConnectionReuseStrategy_Parse = map_of [(''DEFAULT'', 0), (''MRU'', 1), (''LRU'', 2)]"

definition set_enum ::
    "(string \<Rightarrow> int option) \<Rightarrow> string \<Rightarrow> string option \<Rightarrow> (int \<Rightarrow> Options \<Rightarrow> Options) \<Rightarrow> Options \<Rightarrow> failure + Options" where
  "set_enum enum_parse what arg upd o1 =
     (case arg of
        None \<Rightarrow> Inr o1
      | Some v \<Rightarrow>
          (case enum_parse (str_upper v) of
             None \<Rightarrow> Inl (ReleaseAssertFailure (''Failed to parse '' @ what))
           | Some i \<Rightarrow> Inr (upd i o1)))"

definition load_message :: "('m \<Rightarrow> Options \<Rightarrow> Options) \<Rightarrow> (string \<Rightarrow> string + 'm) \<Rightarrow> string option \<Rightarrow> Options \<Rightarrow> failure + Options" where
  "load_message upd loadFromJson arg o1 =
     (if getValue arg = [] then Inr o1
      else case loadFromJson (getValue arg) of
        Inl e \<Rightarrow> Inl (malformed e)
      | Inr m \<Rightarrow> Inr (upd m o1))"

primrec load_messages :: "(string \<Rightarrow> string + 'm) \<Rightarrow> string list \<Rightarrow> failure + 'm list" where
  "load_messages loadFromJson [] = Inr []"
| "load_messages loadFromJson (j # js) =
     (case loadFromJson j of
        Inl e \<Rightarrow> Inl (malformed e)
      | Inr m \<Rightarrow> (case load_messages loadFromJson js of Inl e \<Rightarrow> Inl e | Inr ms \<Rightarrow> Inr (m # ms)))"

text \<open>One \<^verbatim>\<open>name:threshold\<close> pair; pieces of white space only are dropped.\<close>

definition parse_predicate :: "string \<Rightarrow> failure + string \<times> u64" where
  "parse_predicate predicate =
     (case filter (\<lambda>piece. strip_whitespace piece \<noteq> []) (str_split (CHR '':'') predicate) of
        [name, limit] \<Rightarrow>
          (case simple_atou (2 ^ 64 - 1) limit of
             Some n \<Rightarrow> Inr (name, of_nat n)
           | None \<Rightarrow> Inl (malformed (''Termination predicate '' @ [quote_char] @ predicate @ [quote_char]
                                     @ '' has an out of range threshold.'')))
      | _ \<Rightarrow> Inl (malformed (''Termination predicate '' @ [quote_char] @ predicate @ [quote_char]
                             @ '' is badly formatted.'')))"

fun parsePredicates_loop :: "string list \<Rightarrow> (string \<times> u64) list \<Rightarrow> failure + (string \<times> u64) list" where
  "parsePredicates_loop [] predicates = Inr predicates"
| "parsePredicates_loop (p # ps) predicates =
     (case parse_predicate p of
        Inl e \<Rightarrow> Inl e
      | Inr (name, limit) \<Rightarrow> parsePredicates_loop ps (map_set name limit predicates))"

definition parsePredicates :: "string list \<Rightarrow> (string \<times> u64) list \<Rightarrow> failure + (string \<times> u64) list" where
  "parsePredicates arg predicates = parsePredicates_loop arg (if arg \<noteq> [] then [] else predicates)"

definition cli_exclusions :: "arguments \<Rightarrow> (Options \<Rightarrow> failure + Options) list" where
  "cli_exclusions a =
     [throw_if (\<lambda>_. a_h2_use_multiple_connections a)
        (malformed (''--experimental-h2-use-multiple-connections is deprecated, set ''
          @ ''--max-concurrent-streams to one instead'')),
      throw_if (\<lambda>_. isSet (a_duration a) \<and> a_no_duration a)
        (malformed ''--duration and --no-duration are mutually exclusive''),
      throw_if (\<lambda>_. isSet (a_stats_flush_interval a) \<and> isSet (a_stats_flush_interval_duration a))
        (malformed (''--stats-flush-interval and --stats-flush-interval-duration are '' @ ''mutually exclusive'')),
      throw_if (\<lambda>_. (isSet (a_stats_flush_interval a) \<or> isSet (a_stats_flush_interval_duration a)) \<and> a_stats_sinks a = [])
        (malformed (''if --stats-flush-interval or --stats-flush-interval-duration is set, ''
          @ ''then --stats-sinks must also be set''))]"

definition cli_protocol :: "options_env \<Rightarrow> arguments \<Rightarrow> (Options \<Rightarrow> failure + Options) list" where
  "cli_protocol E a =
     [assign (\<lambda>o1. o1\<lparr>opt_requests_per_second := get_or (opt_requests_per_second o1) (a_requests_per_second a),
                      opt_connections := get_or (opt_connections o1) (a_connections a),
                      opt_duration := get_or (opt_duration o1) (a_duration a),
                      opt_timeout := get_or (opt_timeout o1) (a_timeout a),
                      opt_uri := (case a_uri a of Some u \<Rightarrow> Some u | None \<Rightarrow> opt_uri o1)\<rparr>),
      throw_if (\<lambda>_. a_h2 a \<and> isSet (a_protocol a)) (malformed ''--h2 and --protocol are mutually exclusive''),
      assign (\<lambda>o1. o1\<lparr>opt_h2 := (a_h2 a \<or> opt_h2 o1),
                      opt_concurrency := get_or (opt_concurrency o1) (a_concurrency a)\<rparr>),
      set_enum Protocol_Parse ''protocol'' (a_protocol a) (\<lambda>i o1. o1\<lparr>opt_protocol := i\<rparr>),
      throw_if (\<lambda>o1. getValue (a_http3_protocol_options a) \<noteq> [] \<and> opt_protocol o1 \<noteq> HTTP3)
        (malformed ''--http3-protocol-options can only be used with --protocol http3''),
      throw_if (\<lambda>_. getValue (a_http3_protocol_options a) \<noteq> [] \<and> isSet (a_max_concurrent_streams a))
        (malformed ''--http3-protocol-options and --max-concurrent-streams are mutually exclusive''),
      load_message (\<lambda>m o1. o1\<lparr>opt_http3_protocol_options := Some m\<rparr>) (env_loadMessage E) (a_http3_protocol_options a)]"

definition cli_values :: "options_env \<Rightarrow> arguments \<Rightarrow> (Options \<Rightarrow> failure + Options) list" where
  "cli_values E a =
     [set_enum Verbosity_Parse ''verbosity'' (a_verbosity a) (\<lambda>i o1. o1\<lparr>opt_verbosity := i\<rparr>),
      set_enum OutputFormat_Parse ''output format'' (a_output_format a) (\<lambda>i o1. o1\<lparr>opt_output_format := i\<rparr>),
      assign (\<lambda>o1. o1\<lparr>opt_prefetch_connections := (a_prefetch_connections a \<or> opt_prefetch_connections o1),
                      opt_burst_size := get_or (opt_burst_size o1) (a_burst_size a)\<rparr>),
      set_enum AddressFamily_Parse ''address family'' (a_address_family a) (\<lambda>i o1. o1\<lparr>opt_address_family := i\<rparr>),
      set_enum (env_RequestMethod_Parse E) ''request method'' (a_request_method a) (\<lambda>i o1. o1\<lparr>opt_request_method := i\<rparr>),
      assign (\<lambda>o1. o1\<lparr>opt_request_headers := (if a_request_headers a \<noteq> [] then a_request_headers a else opt_request_headers o1),
                      opt_request_body_size := get_or (opt_request_body_size o1) (a_request_body_size a),
                      opt_max_pending_requests := get_or (opt_max_pending_requests o1) (a_max_pending_requests a),
                      opt_max_active_requests := get_or (opt_max_active_requests o1) (a_max_active_requests a),
                      opt_max_requests_per_connection :=
                        get_or (opt_max_requests_per_connection o1) (a_max_requests_per_connection a),
                      opt_max_concurrent_streams := get_or (opt_max_concurrent_streams o1) (a_max_concurrent_streams a)\<rparr>),
      set_enum SequencerIdleStrategy_Parse ''sequencer idle strategy'' (a_sequencer_idle_strategy a)
        (\<lambda>i o1. o1\<lparr>opt_sequencer_idle_strategy := i\<rparr>),
      assign (\<lambda>o1. o1\<lparr>opt_request_source := get_or (opt_request_source o1) (a_request_source a)\<rparr>),
      set_enum H1ConnectionReuseStrategy_Parse ''h1 connection reuse strategy'' (a_h1_connection_reuse_strategy a)
        (\<lambda>i o1. o1\<lparr>opt_h1_connection_reuse_strategy := i\<rparr>)]"

definition cli_predicates :: "arguments \<Rightarrow> (Options \<Rightarrow> failure + Options) list" where
  "cli_predicates a =
     [assign (\<lambda>o1. o1\<lparr>opt_trace := get_or (opt_trace o1) (a_trace a)\<rparr>),
      (\<lambda>o1. map_sum id (\<lambda>ps. o1\<lparr>opt_termination_predicates := ps\<rparr>)
              (parsePredicates (a_termination_predicates a) (opt_termination_predicates o1))),
      assign (\<lambda>o1. o1\<lparr>opt_no_default_failure_predicates :=
                        (a_no_default_failure_predicates a \<or> opt_no_default_failure_predicates o1)\<rparr>),
      assign (\<lambda>o1. if opt_no_default_failure_predicates o1 then o1\<lparr>opt_failure_predicates := []\<rparr> else o1),
      (\<lambda>o1. map_sum id (\<lambda>ps. o1\<lparr>opt_failure_predicates := ps\<rparr>)
              (parsePredicates (a_failure_predicates a) (opt_failure_predicates o1))),
      assign (\<lambda>o1. o1\<lparr>opt_open_loop := (a_open_loop a \<or> opt_open_loop o1)\<rparr>)]"

definition cli_jitter :: "options_env \<Rightarrow> arguments \<Rightarrow> Options \<Rightarrow> failure + Options" where
  "cli_jitter E a o1 =
     (case a_jitter_uniform a of
        None \<Rightarrow> Inr o1
      | Some j \<Rightarrow>
          (case env_DurationFromString E j of
             None \<Rightarrow> Inl (malformed ''Invalid value for --jitter-uniform'')
           | Some d \<Rightarrow>
               if 0 \<le> nanos d \<and> 0 \<le> seconds d
               then Inr (o1\<lparr>opt_jitter_uniform := env_DurationToNanoseconds E d\<rparr>)
               else Inl (malformed ''--jitter-uniform is out of range'')))"

primrec parse_endpoints :: "string list \<Rightarrow> failure + endpoint list" where
  "parse_endpoints [] = Inr []"
| "parse_endpoints (hp # hps) =
     (case parseHostPort hp of
        None \<Rightarrow> Inl (malformed (''--multi-target-endpoint must be in the format ''
                  @ ''IPv4:port, [IPv6]:port, or DNS:port. Got '' @ [quote_char] @ hp @ [quote_char]))
      | Some (host, n) \<Rightarrow>
          (case parse_endpoints hps of
             Inl e \<Rightarrow> Inl e
           | Inr eps \<Rightarrow> Inr (\<lparr>ep_address = Some host, ep_port = Some (of_nat n)\<rparr> # eps)))"

definition cli_flush_duration :: "options_env \<Rightarrow> arguments \<Rightarrow> Options \<Rightarrow> failure + Options" where
  "cli_flush_duration E a o1 =
     (case a_stats_flush_interval_duration a of
        None \<Rightarrow> Inr o1
      | Some t \<Rightarrow>
          (case env_DurationFromString E t of
             None \<Rightarrow> Inl (malformed ''Invalid value for --stats-flush-interval-duration'')
           | Some d \<Rightarrow>
               if nanos d < 0 \<or> seconds d < 0
               then Inl (malformed ''--stats-flush-interval-duration is out of range'')
               else Inr (o1\<lparr>opt_stats_flush_interval_duration := d\<rparr>)))"

definition cli_targets :: "options_env \<Rightarrow> arguments \<Rightarrow> (Options \<Rightarrow> failure + Options) list" where
  "cli_targets E a =
     [cli_jitter E a,
      assign (\<lambda>o1. o1\<lparr>opt_nighthawk_service := get_or (opt_nighthawk_service o1) (a_nighthawk_service a),
                      opt_multi_target_use_https := (a_multi_target_use_https a \<or> opt_multi_target_use_https o1),
                      opt_multi_target_path := get_or (opt_multi_target_path o1) (a_multi_target_path a)\<rparr>),
      (\<lambda>o1. map_sum id (\<lambda>eps. o1\<lparr>opt_multi_target_endpoints := opt_multi_target_endpoints o1 @ eps\<rparr>)
              (parse_endpoints (a_multi_target_endpoints a))),
      assign (\<lambda>o1. o1\<lparr>opt_labels := (if a_labels a \<noteq> [] then a_labels a else opt_labels o1),
                      opt_simple_warmup := (a_simple_warmup a \<or> opt_simple_warmup o1),
                      opt_no_duration := (a_no_duration a \<or> opt_no_duration o1)\<rparr>),
      (\<lambda>o1. map_sum id (\<lambda>ms. o1\<lparr>opt_stats_sinks := opt_stats_sinks o1 @ ms\<rparr>)
              (load_messages (env_loadMessage E) (a_stats_sinks a))),
      assign (\<lambda>o1. o1\<lparr>opt_stats_flush_interval := get_or (opt_stats_flush_interval o1) (a_stats_flush_interval a)\<rparr>),
      cli_flush_duration E a,
      assign (\<lambda>o1. o1\<lparr>opt_latency_response_header_name :=
                        get_or (opt_latency_response_header_name o1) (a_latency_response_header_name a)\<rparr>)]"

definition cap :: "(Options \<Rightarrow> u32) \<Rightarrow> string \<Rightarrow> Options \<Rightarrow> failure + Options" where
  "cap f flag = throw_if (\<lambda>o1. f o1 > largest_acceptable_uint32_option_value) (malformed (''Invalid value for '' @ flag))"

definition cli_caps :: "(Options \<Rightarrow> failure + Options) list" where
  "cli_caps =
     [cap opt_requests_per_second ''--rps'', cap opt_connections ''--connections'', cap opt_duration ''--duration'',
      cap opt_timeout ''--timeout'', cap opt_request_body_size ''--request-body-size'',
      cap opt_burst_size ''--burst-size'', cap opt_max_pending_requests ''--max-pending-requests'',
      cap opt_max_active_requests ''--max-active-requests'',
      cap opt_max_requests_per_connection ''--max-requests-per-connection'',
      (\<lambda>o1. if opt_max_concurrent_streams o1 > largest_acceptable_concurrent_streams_value
            then Inl (malformed (''Invalid value '' @ show_nat (unat (opt_max_concurrent_streams o1))
              @ '' for --max_concurrent_streams, the largest allowed value is ''
              @ show_nat (unat largest_acceptable_concurrent_streams_value) @ ''.''))
            else Inr o1),
      cap opt_stats_flush_interval ''--stats-flush-interval'']"

definition cli_messages :: "options_env \<Rightarrow> arguments \<Rightarrow> (Options \<Rightarrow> failure + Options) list" where
  "cli_messages E a =
     [throw_if (\<lambda>_. getValue (a_tls_context a) \<noteq> [] \<and> getValue (a_transport_socket a) \<noteq> [])
        (malformed ''--tls-context and --transport-socket cannot both be set.''),
      load_message (\<lambda>m o1. o1\<lparr>opt_tls_context := m\<rparr>) (env_loadMessage E) (a_tls_context a),
      load_message (\<lambda>m o1. o1\<lparr>opt_upstream_bind_config := Some m\<rparr>) (env_loadMessage E) (a_upstream_bind_config a),
      load_message (\<lambda>m o1. o1\<lparr>opt_transport_socket := Some m\<rparr>) (env_loadMessage E) (a_transport_socket a),
      throw_if (\<lambda>_. getValue (a_request_source a) \<noteq> [] \<and> getValue (a_request_source_plugin_config a) \<noteq> [])
        (malformed ''--request-source and --request_source_plugin_config cannot both be set.''),
      load_message (\<lambda>m o1. o1\<lparr>opt_request_source_plugin_config := Some m\<rparr>) (env_loadExtension E)
        (a_request_source_plugin_config a),
      throw_if (\<lambda>_. getValue (a_rate_limiter_plugin_config a) \<noteq> [] \<and> isSet (a_burst_size a))
        (malformed ''--burst-size and --rate-limiter-plugin-config are mutually exclusive''),
      throw_if (\<lambda>_. getValue (a_rate_limiter_plugin_config a) \<noteq> [] \<and> isSet (a_jitter_uniform a))
        (malformed ''--jitter-uniform and --rate-limiter-plugin-config are mutually exclusive''),
      load_message (\<lambda>m o1. o1\<lparr>opt_rate_limiter_plugin_config := Some m\<rparr>) (env_loadExtension E)
        (a_rate_limiter_plugin_config a),
      (\<lambda>o1. map_sum id
              (\<lambda>ms. o1\<lparr>opt_user_defined_output_plugin_configs := opt_user_defined_output_plugin_configs o1 @ ms\<rparr>)
              (load_messages (env_loadExtension E) (a_user_defined_output_plugin_configs a)))]"

definition cli_encap_port :: "options_env \<Rightarrow> arguments \<Rightarrow> Options \<Rightarrow> failure + Options" where
  "cli_encap_port E a o1 =
     (if isSet (a_tunnel_protocol a)
      then
        (if \<not> isSet (a_tunnel_uri a) then Inl (malformed ''--tunnel-protocol requires --tunnel-uri'')
         else case fst (GetAvailablePort (opt_protocol o1 = HTTP3) (address_family_of (opt_address_family o1))
                          (env_sockets E)) of
           Inl e \<Rightarrow> Inl e
         | Inr free_port \<Rightarrow>
             Inr (o1\<lparr>opt_tunnel_uri := getValue (a_tunnel_uri a), opt_encap_port := ucast free_port\<rparr>))
      else if isSet (a_tunnel_uri a) \<or> isSet (a_tunnel_tls_context a)
      then Inl (malformed ''tunnel flags require --tunnel-protocol'')
      else Inr o1)"

definition cli_tunnel :: "options_env \<Rightarrow> arguments \<Rightarrow> (Options \<Rightarrow> failure + Options) list" where
  "cli_tunnel E a =
     [set_enum Protocol_Parse ''tunnel protocol'' (a_tunnel_protocol a) (\<lambda>i o1. o1\<lparr>opt_tunnel_protocol := i\<rparr>),
      cli_encap_port E a,
      load_message (\<lambda>m o1. o1\<lparr>opt_tunnel_tls_context := Some m\<rparr>) (env_loadMessage E) (a_tunnel_tls_context a),
      throw_if (\<lambda>o1. getValue (a_tunnel_tls_context a) = [] \<and> opt_tunnel_protocol o1 = HTTP3)
        (malformed ''--tunnel-tls-context is required to use --tunnel-protocol http3''),
      throw_if (\<lambda>o1. isSet (a_tunnel_protocol a) \<and> opt_tunnel_protocol o1 = HTTP3 \<and> opt_protocol o1 = HTTP3)
        (malformed ''--protocol HTTP3 over --tunnel-protocol HTTP3 is not supported''),
      throw_if (\<lambda>o1. isSet (a_tunnel_protocol a) \<and> opt_tunnel_protocol o1 = HTTP1 \<and> opt_protocol o1 = HTTP3)
        (malformed ''--protocol HTTP3 over --tunnel-protocol HTTP1 is not supported'')]"

definition OptionsImpl_argv :: "options_env \<Rightarrow> arguments \<Rightarrow> failure + Options" where
  "OptionsImpl_argv E a =
     run_steps
       ([assign setNonTrivialDefaults, assign (\<lambda>o1. o1\<lparr>opt_verbosity := 1, opt_output_format := 2\<rparr>)]
        @ cli_exclusions a @ cli_protocol E a @ cli_values E a @ cli_predicates a @ cli_targets E a
        @ cli_caps @ cli_messages E a @ cli_tunnel E a @ [Options_validate E]) initial_options"

section \<open>Round trip\<close>

text \<open>
  The options a message can carry exactly. The conversion to a message forgets the tunnel, the
  duration when there is none to respect, the protocol when the deprecated switch is set, the headers,
  the method and the body size when another request source is used, and the body size when there is
  no header; it strips white space around the parts of a header; and an empty set of failure
  predicates is read back as the default ones unless these are switched off.
\<close>

definition header_normal :: "string \<Rightarrow> bool" where
  "header_normal h = (case split_header h of Some (k, v) \<Rightarrow> h = k @ '':'' @ v | None \<Rightarrow> False)"

definition request_normal :: "Options \<Rightarrow> bool" where
  "request_normal o1 \<longleftrightarrow>
     (if opt_request_source o1 \<noteq> [] \<or> opt_request_source_plugin_config o1 \<noteq> None
      then (opt_request_source o1 = [] \<or> opt_request_source_plugin_config o1 = None)
           \<and> opt_request_method o1 = 1 \<and> opt_request_headers o1 = [] \<and> opt_request_body_size o1 = 0
      else opt_request_method o1 \<noteq> METHOD_UNSPECIFIED \<and> list_all header_normal (opt_request_headers o1)
           \<and> (opt_request_headers o1 = [] \<longrightarrow> opt_request_body_size o1 = 0))"

definition wire_normal :: "Options \<Rightarrow> bool" where
  "wire_normal o1 \<longleftrightarrow>
     opt_tunnel_protocol o1 = 0 \<and> opt_tunnel_uri o1 = [] \<and> opt_encap_port o1 = 0
     \<and> opt_tunnel_tls_context o1 = None
     \<and> (opt_no_duration o1 \<longrightarrow> opt_duration o1 = 5)
     \<and> (opt_h2 o1 \<longrightarrow> opt_protocol o1 = 0)
     \<and> request_normal o1
     \<and> list_all (\<lambda>ep. ep_address ep \<noteq> None \<and> ep_port ep \<noteq> None) (opt_multi_target_endpoints o1)
     \<and> (opt_rate_limiter_plugin_config o1 \<noteq> None \<longrightarrow> opt_burst_size o1 = 0 \<and> opt_jitter_uniform o1 = 0)
     \<and> 0 \<le> opt_jitter_uniform o1
     \<and> sorted_map (opt_termination_predicates o1) \<and> sorted_map (opt_failure_predicates o1)
     \<and> (opt_failure_predicates o1 = [] \<longrightarrow> opt_no_default_failure_predicates o1)
     \<and> (if 0 < seconds (opt_stats_flush_interval_duration o1) \<or> 0 < nanos (opt_stats_flush_interval_duration o1)
        then opt_stats_flush_interval o1 = 5 else opt_stats_flush_interval_duration o1 = zero_duration)
     \<and> (case opt_scheduled_start o1 of None \<Rightarrow> True | Some t \<Rightarrow> 1000 dvd t)"

definition time_laws :: "options_env \<Rightarrow> bool" where
  "time_laws E \<longleftrightarrow>
     (\<forall>n > 0. env_DurationToNanoseconds E (env_NanosecondsToDuration E n) = n)
     \<and> (\<forall>n. nanos (env_NanosecondsToTimestamp E n) + seconds (env_NanosecondsToTimestamp E n) * 1000000000 = n)"

lemma truncate_quot_exact: "1000 dvd t \<Longrightarrow> truncate_quot t 1000 * 1000 = t"
  by (auto simp: truncate_quot_def abs_if)

lemma split_headers_normal:
  "list_all header_normal hs \<Longrightarrow>
     \<exists>kvs. split_headers hs = Inr kvs \<and> map (\<lambda>(k, v). k @ '':'' @ v) kvs = hs"
  by (induction hs) (auto simp: header_normal_def split: option.splits)

lemma endpoints_normal:
  "list_all (\<lambda>ep. ep_address ep \<noteq> None \<and> ep_port ep \<noteq> None) eps \<Longrightarrow>
     map (\<lambda>ep. \<lparr>ep_address = Some (case ep_address ep of Some a \<Rightarrow> a | None \<Rightarrow> []),
                ep_port = Some (case ep_port ep of Some n \<Rightarrow> n | None \<Rightarrow> 0)\<rparr>) eps = eps"
  by (induction eps) auto

lemma get_or_simps [simp]: "get_or d None = d" "get_or d (Some v) = v"
  by (simp_all add: get_or_def)

lemma option_case_id [simp]: "(case x of None \<Rightarrow> None | Some v \<Rightarrow> Some v) = x"
  by (cases x) auto

lemma request_roundtrip:
  assumes "request_normal o1"
  obtains r where "request_to_proto o1 = Inr r"
    and "\<And>p o2. p_request p = r \<Longrightarrow> opt_request_headers o2 = [] \<Longrightarrow> opt_request_method o2 = 1 \<Longrightarrow>
        opt_request_body_size o2 = 0 \<Longrightarrow> opt_request_source o2 = [] \<Longrightarrow> opt_request_source_plugin_config o2 = None \<Longrightarrow>
        request_from_proto p o2 =
          o2\<lparr>opt_request_headers := opt_request_headers o1, opt_request_method := opt_request_method o1,
             opt_request_body_size := opt_request_body_size o1, opt_request_source := opt_request_source o1,
             opt_request_source_plugin_config := opt_request_source_plugin_config o1\<rparr>"
proof (cases "opt_request_source o1 \<noteq> [] \<or> opt_request_source_plugin_config o1 \<noteq> None")
  case True
  then show ?thesis
  proof (cases "opt_request_source o1 = []")
    case True
    then obtain c where "opt_request_source_plugin_config o1 = Some c" using \<open>_ \<or> _\<close> by auto
    then show ?thesis using True assms that [of "RequestSourcePlugin c"]
      by (simp add: request_normal_def request_to_proto_def request_from_proto_def)
  next
    case False
    then show ?thesis using assms that [of "RequestSourceUri (opt_request_source o1)"]
      by (simp add: request_normal_def request_to_proto_def request_from_proto_def)
  qed
next
  case False
  then obtain kvs where kvs: "split_headers (opt_request_headers o1) = Inr kvs"
    "map (\<lambda>(k, v). k @ '':'' @ v) kvs = opt_request_headers o1"
    using assms split_headers_normal [of "opt_request_headers o1"] by (auto simp: request_normal_def)
  let ?r = "RequestOptionsChoice \<lparr>ro_request_method = opt_request_method o1, ro_request_headers = kvs,
     ro_request_body_size = (if kvs = [] then None else Some (opt_request_body_size o1)), ro_json_body = []\<rparr>"
  show ?thesis
  proof (rule that [of ?r])
    show "request_to_proto o1 = Inr ?r" using False kvs by (simp add: request_to_proto_def)
    have "opt_request_method o1 \<noteq> METHOD_UNSPECIFIED" "kvs = [] \<Longrightarrow> opt_request_body_size o1 = 0"
      using False assms kvs(2) by (auto simp: request_normal_def)
    then show "request_from_proto p o2 =
          o2\<lparr>opt_request_headers := opt_request_headers o1, opt_request_method := opt_request_method o1,
             opt_request_body_size := opt_request_body_size o1, opt_request_source := opt_request_source o1,
             opt_request_source_plugin_config := opt_request_source_plugin_config o1\<rparr>"
      if "p_request p = ?r" "opt_request_headers o2 = []" "opt_request_method o2 = 1"
        "opt_request_body_size o2 = 0" "opt_request_source o2 = []" "opt_request_source_plugin_config o2 = None"
      for p o2
      using that False unfolding kvs(2) [symmetric] by (simp add: request_from_proto_def)
  qed
qed

lemma target_roundtrip:
  assumes "check_target E o1 = Inr o1" "p_target p = target_to_proto o1"
    and "list_all (\<lambda>ep. ep_address ep \<noteq> None \<and> ep_port ep \<noteq> None) (opt_multi_target_endpoints o1)"
    and "opt_uri o2 = None" "opt_multi_target_path o2 = []" "\<not> opt_multi_target_use_https o2"
      "opt_multi_target_endpoints o2 = []"
  shows "target_from_proto p o2 =
    o2\<lparr>opt_uri := opt_uri o1, opt_multi_target_path := opt_multi_target_path o1,
       opt_multi_target_use_https := opt_multi_target_use_https o1,
       opt_multi_target_endpoints := opt_multi_target_endpoints o1\<rparr>"
proof (cases "opt_uri o1")
  case None
  then show ?thesis
    using assms(2,4-7) endpoints_normal [OF assms(3)] by (simp add: target_from_proto_def target_to_proto_def)
next
  case (Some u)
  then have "opt_multi_target_path o1 = []" "\<not> opt_multi_target_use_https o1" "opt_multi_target_endpoints o1 = []"
    using assms(1) by (auto simp: check_target_def split: if_splits sum.splits)
  then show ?thesis using Some assms(2,4-7) by (simp add: target_from_proto_def target_to_proto_def)
qed

lemma Options_validate_same: "Options_validate E o1 = Inr o2 \<Longrightarrow> o2 = o1 \<and> check_target E o1 = Inr o1"
  by (auto simp: Options_validate_def throw_if_def check_concurrency_def check_request_source_def check_target_def
      check_message_def split: if_splits sum.splits option.splits stoi_result.splits)


lemma message_fields:
  assumes "toCommandLineOptionsInternal E o1 = Inr p"
  shows "p_requests_per_second p = Some (opt_requests_per_second o1)"
    and "p_connections p = Some (opt_connections o1)"
    and "p_duration p = (if opt_no_duration o1 then NoDuration True
           else Duration \<lparr>seconds = uint (opt_duration o1), nanos = 0\<rparr>)"
    and "p_timeout p = Some \<lparr>seconds = uint (opt_timeout o1), nanos = 0\<rparr>"
    and "p_protocol p = (if opt_h2 o1 then H2 True else Protocol (opt_protocol o1))"
    and "p_tunnel_options p = None"
    and "p_http3_protocol_options p = opt_http3_protocol_options o1"
    and "p_concurrency p = Some (opt_concurrency o1)"
    and "p_verbosity p = Some (opt_verbosity o1)"
    and "p_output_format p = Some (opt_output_format o1)"
    and "p_prefetch_connections p = Some (opt_prefetch_connections o1)"
    and "p_burst_size p = Some (opt_burst_size o1)"
    and "p_address_family p = Some (opt_address_family o1)"
    and "request_to_proto o1 = Inr (p_request p)"
    and "p_tls_context p = opt_tls_context o1"
    and "p_max_pending_requests p = Some (opt_max_pending_requests o1)"
    and "p_max_active_requests p = Some (opt_max_active_requests o1)"
    and "p_max_requests_per_connection p = Some (opt_max_requests_per_connection o1)"
    and "p_sequencer_idle_strategy p = Some (opt_sequencer_idle_strategy o1)"
    and "p_target p = target_to_proto o1"
    and "p_trace p = Some (opt_trace o1)"
    and "p_h1_connection_reuse_strategy p = Some (opt_h1_connection_reuse_strategy o1)"
    and "p_termination_predicates p = fold (\<lambda>(k, v). map_set k v) (opt_termination_predicates o1) []"
    and "p_failure_predicates p = fold (\<lambda>(k, v). map_set k v) (opt_failure_predicates o1) []"
    and "p_no_default_failure_predicates p = Some (opt_no_default_failure_predicates o1)"
    and "p_open_loop p = Some (opt_open_loop o1)"
    and "p_jitter_uniform p = (if 0 < opt_jitter_uniform o1
           then Some (env_NanosecondsToDuration E (opt_jitter_uniform o1)) else None)"
    and "p_nighthawk_service p = Some (opt_nighthawk_service o1)"
    and "p_h2_use_multiple_connections p = None"
    and "p_max_concurrent_streams p = Some (opt_max_concurrent_streams o1)"
    and "p_labels p = opt_labels o1"
    and "p_upstream_bind_config p = opt_upstream_bind_config o1"
    and "p_transport_socket p = opt_transport_socket o1"
    and "p_simple_warmup p = Some (opt_simple_warmup o1)"
    and "p_stats_sinks p = opt_stats_sinks o1"
    and "p_stats_flush p = flush_to_proto o1"
    and "p_latency_response_header_name p = Some (opt_latency_response_header_name o1)"
    and "p_scheduled_start p = map_option (env_NanosecondsToTimestamp E) (opt_scheduled_start o1)"
    and "p_execution_id p = opt_execution_id o1"
    and "p_user_defined_plugin_configs p = opt_user_defined_output_plugin_configs o1"
    and "p_rate_limiter_plugin_config p = opt_rate_limiter_plugin_config o1"
  using assms unfolding toCommandLineOptionsInternal_def by (auto split: sum.splits)

lemma flush_roundtrip:
  assumes "wire_normal o1"
  shows "(case flush_to_proto o1 of FlushInterval n \<Rightarrow> n | _ \<Rightarrow> 5) = opt_stats_flush_interval o1"
    and "(case flush_to_proto o1 of FlushDuration d \<Rightarrow> d | _ \<Rightarrow> zero_duration) = opt_stats_flush_interval_duration o1"
  using assms by (auto simp: wire_normal_def flush_to_proto_def Let_def zero_duration_def split: if_splits)

lemma start_roundtrip:
  assumes "time_laws E" "wire_normal o1"
  shows "(case map_option (env_NanosecondsToTimestamp E) (opt_scheduled_start o1) of None \<Rightarrow> None
     | Some t \<Rightarrow> Some (truncate_quot (nanos t + seconds t * 1000000000) 1000 * 1000)) = opt_scheduled_start o1"
  using assms by (cases "opt_scheduled_start o1") (simp_all add: wire_normal_def time_laws_def truncate_quot_exact)

lemma jitter_roundtrip:
  assumes "time_laws E" "wire_normal o1"
  shows "(case (if 0 < opt_jitter_uniform o1 then Some (env_NanosecondsToDuration E (opt_jitter_uniform o1)) else None) of
      None \<Rightarrow> 0 | Some d \<Rightarrow> env_DurationToNanoseconds E d) = opt_jitter_uniform o1"
  using assms by (simp add: wire_normal_def time_laws_def)

lemma wire_roundtrip:
  assumes "time_laws E" "wire_normal o1" "Options_validate E o1 = Inr o1"
  shows "\<exists>p. toCommandLineOptionsInternal E o1 = Inr p \<and> OptionsImpl_proto E p = Inr o1"
proof -
  note normal = assms(2) [unfolded wire_normal_def]
  have target: "check_target E o1 = Inr o1" and no_h2: "\<not> opt_h2_use_multiple_connections o1"
    using Options_validate_same [OF assms(3)] assms(3)
    by (auto simp: Options_validate_def throw_if_def split: if_splits)
  obtain r where r: "request_to_proto o1 = Inr r"
    and from_r: "\<And>p o2. p_request p = r \<Longrightarrow> opt_request_headers o2 = [] \<Longrightarrow> opt_request_method o2 = 1 \<Longrightarrow>
        opt_request_body_size o2 = 0 \<Longrightarrow> opt_request_source o2 = [] \<Longrightarrow> opt_request_source_plugin_config o2 = None \<Longrightarrow>
        request_from_proto p o2 =
          o2\<lparr>opt_request_headers := opt_request_headers o1, opt_request_method := opt_request_method o1,
             opt_request_body_size := opt_request_body_size o1, opt_request_source := opt_request_source o1,
             opt_request_source_plugin_config := opt_request_source_plugin_config o1\<rparr>"
    using request_roundtrip normal by blast
  obtain p where p: "toCommandLineOptionsInternal E o1 = Inr p"
    using r by (simp add: toCommandLineOptionsInternal_def)
  note fields = message_fields [OF p]
  define d where "d = setNonTrivialDefaults initial_options"
  have target_d: "target_from_proto p (d\<lparr>opt_requests_per_second := x, opt_duration := y, opt_timeout := z\<rparr>) =
      d\<lparr>opt_requests_per_second := x, opt_duration := y, opt_timeout := z,
        opt_uri := opt_uri o1, opt_multi_target_path := opt_multi_target_path o1,
        opt_multi_target_use_https := opt_multi_target_use_https o1,
        opt_multi_target_endpoints := opt_multi_target_endpoints o1\<rparr>" for x y z
    using normal by (subst target_roundtrip [OF target fields(20)]) (simp_all add: d_def setNonTrivialDefaults_def initial_options_def)
  define b where "b = basics_from_proto p d"
  have b: "b = d\<lparr>opt_requests_per_second := opt_requests_per_second o1, opt_duration := opt_duration o1,
       opt_timeout := opt_timeout o1, opt_uri := opt_uri o1, opt_multi_target_path := opt_multi_target_path o1,
       opt_multi_target_use_https := opt_multi_target_use_https o1,
       opt_multi_target_endpoints := opt_multi_target_endpoints o1, opt_h2 := opt_h2 o1,
       opt_protocol := opt_protocol o1, opt_http3_protocol_options := opt_http3_protocol_options o1,
       opt_concurrency := opt_concurrency o1, opt_verbosity := opt_verbosity o1,
       opt_output_format := opt_output_format o1, opt_prefetch_connections := opt_prefetch_connections o1,
       opt_burst_size := opt_burst_size o1, opt_address_family := opt_address_family o1\<rparr>"
    using normal unfolding b_def basics_from_proto_def Let_def target_d
    by (simp add: fields d_def setNonTrivialDefaults_def initial_options_def split: option.split)
  define q where "q = request_from_proto p b"
  have "p_request p = r" using fields(14) r by simp
  then have q: "q = b\<lparr>opt_request_headers := opt_request_headers o1, opt_request_method := opt_request_method o1,
             opt_request_body_size := opt_request_body_size o1, opt_request_source := opt_request_source o1,
             opt_request_source_plugin_config := opt_request_source_plugin_config o1\<rparr>"
    unfolding q_def by (rule from_r) (simp_all add: b d_def setNonTrivialDefaults_def initial_options_def)
  define l where "l = q\<lparr>opt_rate_limiter_plugin_config := opt_rate_limiter_plugin_config o1\<rparr>"
  have l: "rate_limiter_from_proto p q = Inr l"
    using normal
    by (cases "opt_rate_limiter_plugin_config o1")
      (auto simp: rate_limiter_from_proto_def l_def fields q b d_def setNonTrivialDefaults_def initial_options_def)
  have "rest_from_proto E p (predicates_from_proto p (limits_from_proto p l)) = o1"
    using normal no_h2 flush_roundtrip [OF assms(2)] start_roundtrip [OF assms(1,2)] jitter_roundtrip [OF assms(1,2)]
    by (intro Options.equality)
      (simp_all add: rest_from_proto_def predicates_from_proto_def limits_from_proto_def fields l_def q b d_def
        setNonTrivialDefaults_def initial_options_def Let_def
        cong: option.case_cong flush_choice.case_cong duration_choice.case_cong, blast)
  then show ?thesis
    using p assms(3) l
    by (simp add: OptionsImpl_proto_def assign_def tunnel_from_proto_def fields flip: d_def b_def q_def)
qed
text \<open>
  C14. Options survive the trip over the wire: converting accepted options to a message and
  constructing options from that message gives the same options, for all options that a message can
  carry exactly.
\<close>

theorem options_roundtrip:
  assumes "time_laws E" "wire_normal o1" "Options_validate E o1 = Inr o1"
  shows "\<exists>p. toCommandLineOptionsInternal E o1 = Inr p \<and> OptionsImpl_proto E p = Inr o1"
  using assms by (rule wire_roundtrip)

section \<open>What the command line accepts\<close>

lemma keeps_set_enum [keeps_intros]:
  "(\<And>i s. P s \<Longrightarrow> P (upd i s)) \<Longrightarrow> keeps P (set_enum enum_parse what arg upd)"
  by (rule keepsI) (auto simp: set_enum_def split: option.splits)

lemma keeps_load_message [keeps_intros]:
  "(\<And>m s. getValue arg \<noteq> [] \<Longrightarrow> P s \<Longrightarrow> P (upd m s)) \<Longrightarrow> keeps P (load_message upd ld arg)"
  by (rule keepsI) (auto simp: load_message_def split: if_splits sum.splits)

lemma keeps_cap [keeps_intros]: "keeps P (cap f flag)"
  unfolding cap_def by (rule keeps_throw_if)

definition argv_inv :: "arguments \<Rightarrow> Options \<Rightarrow> bool" where
  "argv_inv a o1 \<longleftrightarrow>
     (a_burst_size a = None \<longrightarrow> opt_burst_size o1 = 0)
     \<and> (a_jitter_uniform a = None \<longrightarrow> opt_jitter_uniform o1 = 0)
     \<and> (a_duration a = None \<longrightarrow> opt_duration o1 = 5)
     \<and> (\<not> a_no_duration a \<longrightarrow> \<not> opt_no_duration o1)
     \<and> (getValue (a_rate_limiter_plugin_config a) = [] \<longrightarrow> opt_rate_limiter_plugin_config o1 = None)
     \<and> (getValue (a_request_source_plugin_config a) = [] \<longrightarrow> opt_request_source_plugin_config o1 = None)
     \<and> (getValue (a_request_source a) = [] \<longrightarrow> opt_request_source o1 = [])"

lemma cli_jitter_inv [keeps_intros]: "keeps (argv_inv a) (cli_jitter E a)"
  by (rule keepsI) (auto simp: cli_jitter_def split: option.splits if_splits, simp_all add: argv_inv_def)

lemma cli_flush_duration_inv [keeps_intros]: "keeps (argv_inv a) (cli_flush_duration E b)"
  by (rule keepsI) (auto simp: cli_flush_duration_def split: option.splits if_splits, simp_all add: argv_inv_def)

lemma cli_encap_port_inv [keeps_intros]: "keeps (argv_inv a) (cli_encap_port E b)"
  by (rule keepsI) (auto simp: cli_encap_port_def split: option.splits if_splits sum.splits, simp_all add: argv_inv_def)

lemma get_or_source: "getValue x = [] \<Longrightarrow> get_or [] x = []"
  by (simp add: getValue_def)

lemma cli_steps_inv:
  "list_all (keeps (argv_inv a)) (cli_exclusions a)"
  "list_all (keeps (argv_inv a)) (cli_protocol E a)"
  "list_all (keeps (argv_inv a)) (cli_values E a)"
  "list_all (keeps (argv_inv a)) (cli_predicates a)"
  "list_all (keeps (argv_inv a)) (cli_targets E a)"
  "list_all (keeps (argv_inv a)) (cli_messages E a)"
  "list_all (keeps (argv_inv a)) (cli_tunnel E a)"
  unfolding cli_exclusions_def cli_protocol_def cli_values_def cli_predicates_def cli_targets_def cli_messages_def
    cli_tunnel_def list.pred_inject
  by (intro conjI TrueI keeps_intros; simp add: argv_inv_def get_or_source)+


definition within_caps :: "Options \<Rightarrow> bool" where
  "within_caps o1 \<longleftrightarrow>
     list_all (\<lambda>f. f o1 \<le> largest_acceptable_uint32_option_value)
       [opt_requests_per_second, opt_connections, opt_duration, opt_timeout, opt_request_body_size, opt_burst_size,
        opt_max_pending_requests, opt_max_active_requests, opt_max_requests_per_connection, opt_stats_flush_interval]
     \<and> opt_max_concurrent_streams o1 \<le> largest_acceptable_concurrent_streams_value"

lemma cli_caps_pass: "run_steps cli_caps o1 = Inr o2 \<Longrightarrow> o2 = o1 \<and> within_caps o1"
  by (simp add: cli_caps_def cap_def throw_if_def within_caps_def not_less split: if_splits)

lemma later_steps_caps:
  "list_all (keeps within_caps) (cli_messages E a)"
  "list_all (keeps within_caps) (cli_tunnel E a)"
proof -
  have port [keeps_intros]: "keeps within_caps (cli_encap_port E a)"
    by (rule keepsI) (auto simp: cli_encap_port_def split: option.splits if_splits sum.splits, simp add: within_caps_def)
  show "list_all (keeps within_caps) (cli_messages E a)" "list_all (keeps within_caps) (cli_tunnel E a)"
    unfolding cli_messages_def cli_tunnel_def list.pred_inject
    by (intro conjI TrueI keeps_intros port; simp add: within_caps_def)+
qed

text \<open>
  An environment and a command line without arguments, on which the properties are exercised.
\<close>

definition plain_env :: options_env where
  "plain_env =
     \<lparr>env_extract = (\<lambda>u. (''h'', ''/'')), env_validate = (\<lambda>p. None),
      env_sockets = \<lparr>socket_fd = (\<lambda>f k. 3), setsockopt_result = 0, bind_result = (\<lambda>f. 0), bind_in_use = False,
        getsockname_result = 0, bound_port = 4242, close_result = 0, errno_text = []\<rparr>,
      env_DurationToNanoseconds = nanos, env_NanosecondsToDuration = (\<lambda>n. \<lparr>seconds = 0, nanos = n\<rparr>),
      env_NanosecondsToTimestamp = (\<lambda>n. \<lparr>seconds = 0, nanos = n\<rparr>), env_DurationFromString = (\<lambda>s. None),
      env_loadMessage = Inr, env_loadExtension = (\<lambda>j. Inr \<lparr>ext_name = j, typed_config = []\<rparr>),
      env_RequestMethod_Parse = (\<lambda>s. Some 1)\<rparr>"

definition no_arguments :: arguments where
  "no_arguments =
     \<lparr>a_requests_per_second = None, a_connections = None, a_duration = None, a_timeout = None, a_h2 = False,
      a_protocol = None, a_http3_protocol_options = None, a_tunnel_protocol = None, a_tunnel_uri = None,
      a_tunnel_tls_context = None, a_concurrency = None, a_verbosity = None, a_output_format = None,
      a_prefetch_connections = False, a_burst_size = None, a_address_family = None, a_request_method = None,
      a_request_headers = [], a_request_body_size = None, a_tls_context = None, a_upstream_bind_config = None,
      a_transport_socket = None, a_max_pending_requests = None, a_max_active_requests = None,
      a_max_requests_per_connection = None, a_max_concurrent_streams = None, a_sequencer_idle_strategy = None,
      a_trace = None, a_termination_predicates = [], a_failure_predicates = [],
      a_no_default_failure_predicates = False, a_h1_connection_reuse_strategy = None, a_open_loop = False,
      a_jitter_uniform = None, a_nighthawk_service = None, a_h2_use_multiple_connections = False,
      a_multi_target_endpoints = [], a_multi_target_path = None, a_multi_target_use_https = False, a_labels = [],
      a_uri = None, a_request_source = None, a_request_source_plugin_config = None,
      a_rate_limiter_plugin_config = None, a_simple_warmup = False, a_no_duration = False, a_stats_sinks = [],
      a_stats_flush_interval = None, a_stats_flush_interval_duration = None, a_latency_response_header_name = None,
      a_user_defined_output_plugin_configs = []\<rparr>"

definition plain_options :: Options where
  "plain_options = (setNonTrivialDefaults initial_options)\<lparr>opt_uri := Some ''http://h/''\<rparr>"

lemma plain_uri: "\<exists>u. new_Uri (env_extract plain_env) ''http://h/'' ''http'' = Inr (u :: unit Uri)"
  by (simp add: new_Uri_def plain_env_def findPortSeparator_def rfind_char_def starts_with_def str_lower_def
      lower_char_def default_port_def Uri_isValid_def)

lemma plain_valid:
  "opt_concurrency o1 = ''1'' \<Longrightarrow> opt_request_source o1 = [] \<Longrightarrow> opt_request_source_plugin_config o1 = None \<Longrightarrow> opt_uri o1 = Some ''http://h/'' \<Longrightarrow>
   opt_multi_target_endpoints o1 = [] \<Longrightarrow> opt_multi_target_path o1 = [] \<Longrightarrow> \<not> opt_multi_target_use_https o1 \<Longrightarrow>
   \<not> opt_h2_use_multiple_connections o1 \<Longrightarrow> opt_request_headers o1 = [] \<Longrightarrow>
   Options_validate plain_env o1 = Inr o1"
proof -
  assume a: "opt_concurrency o1 = ''1''" "opt_request_source o1 = []" "opt_request_source_plugin_config o1 = None"
    "opt_uri o1 = Some ''http://h/''" "opt_multi_target_endpoints o1 = []" "opt_multi_target_path o1 = []"
    "\<not> opt_multi_target_use_https o1" "\<not> opt_h2_use_multiple_connections o1" "opt_request_headers o1 = []"
  have "env_validate plain_env p = None" for p by (simp add: plain_env_def)
  then have "check_message plain_env o1 = Inr o1"
    using a by (simp add: check_message_def toCommandLineOptionsInternal_def request_to_proto_def)
  moreover have "check_concurrency o1 = Inr o1"
    using a(1) by (simp add: check_concurrency_def stoi_def is_space_def is_digit_def digit_value_def)
  moreover have "check_target plain_env o1 = Inr o1" using a plain_uri by (auto simp: check_target_def)
  ultimately show ?thesis using a by (simp add: Options_validate_def throw_if_def check_request_source_def)
qed

lemma plain_failures: "sorted_map default_failure_predicates \<and> default_failure_predicates \<noteq> []"
  by code_simp

lemma plain_normal: "time_laws plain_env" "wire_normal plain_options" "Options_validate plain_env plain_options = Inr plain_options"
proof -
  show "time_laws plain_env" by (simp add: time_laws_def plain_env_def)
  show "wire_normal plain_options"
    using plain_failures
    by (simp add: wire_normal_def request_normal_def plain_options_def setNonTrivialDefaults_def initial_options_def zero_duration_def)
  show "Options_validate plain_env plain_options = Inr plain_options"
    by (rule plain_valid) (simp_all add: plain_options_def setNonTrivialDefaults_def initial_options_def)
qed

theorem options_roundtrip_witness:
  "\<exists>p. toCommandLineOptionsInternal plain_env plain_options = Inr p \<and> OptionsImpl_proto plain_env p = Inr plain_options"
  by (rule options_roundtrip [OF plain_normal])

lemma plain_argv:
  "OptionsImpl_argv plain_env (no_arguments\<lparr>a_uri := Some ''http://h/'', a_burst_size := Some 7\<rparr>) =
     Inr (plain_options\<lparr>opt_verbosity := 1, opt_output_format := 2, opt_burst_size := 7\<rparr>)"
  (is "OptionsImpl_argv _ ?a = Inr ?o")
proof -
  have "Options_validate plain_env ?o = Inr ?o"
    by (rule plain_valid) (simp_all add: plain_options_def setNonTrivialDefaults_def initial_options_def)
  then show ?thesis
    by (simp add: OptionsImpl_argv_def cli_exclusions_def cli_protocol_def cli_values_def cli_predicates_def cli_targets_def
      cli_caps_def cli_messages_def cli_tunnel_def assign_def throw_if_def set_enum_def load_message_def getValue_def
      parsePredicates_def cli_jitter_def cli_flush_duration_def cli_encap_port_def cap_def no_arguments_def
      plain_options_def setNonTrivialDefaults_def initial_options_def largest_acceptable_uint32_option_value_def
      largest_acceptable_concurrent_streams_value_def)
qed


text \<open>
  C16. A request body size is lost on the wire unless there is a request header: options
  constructed from the message of options without headers send no body.
\<close>

theorem body_size_lost:
  assumes "opt_request_headers o1 = []" "toCommandLineOptionsInternal E o1 = Inr p" "OptionsImpl_proto E p = Inr o2"
  shows "opt_request_body_size o2 = 0"
proof -
  let ?P = "\<lambda>o1. opt_request_body_size o1 = 0"
  note fields = message_fields [OF assms(2)]
  have request: "?P s \<Longrightarrow> ?P (request_from_proto p s)" for s
    using fields(14) assms(1)
    by (auto simp: request_to_proto_def request_from_proto_def split: if_splits option.splits request_choice.splits)
  have "keeps ?P (tunnel_from_proto E p)" by (rule keepsI) (simp add: tunnel_from_proto_def fields)
  moreover have "keeps ?P (rate_limiter_from_proto p)"
    by (rule keepsI) (auto simp: rate_limiter_from_proto_def split: option.splits if_splits)
  moreover have "keeps ?P (Options_validate E)" by (rule keepsI) (auto dest: Options_validate_same)
  moreover have "?P s \<Longrightarrow> ?P (basics_from_proto p s)" for s
    by (simp add: basics_from_proto_def target_from_proto_def Let_def split: target_choice.split)
  ultimately show ?thesis
    using assms(3) unfolding OptionsImpl_proto_def
    by (elim keepsD [OF run_steps_keeps, rotated])
      (simp_all add: initial_options_def keeps_assign request setNonTrivialDefaults_def limits_from_proto_def
        predicates_from_proto_def rest_from_proto_def Let_def)
qed

theorem body_size_lost_witness:
  "\<exists>p o2. toCommandLineOptionsInternal plain_env (plain_options\<lparr>opt_request_body_size := 10\<rparr>) = Inr p
     \<and> OptionsImpl_proto plain_env p = Inr o2 \<and> opt_request_body_size o2 = 0"
proof -
  let ?o = "plain_options\<lparr>opt_request_body_size := 10\<rparr>"
  have none: "opt_request_headers ?o = []" by (simp add: plain_options_def setNonTrivialDefaults_def initial_options_def)
  obtain p where p: "toCommandLineOptionsInternal plain_env plain_options = Inr p"
    "OptionsImpl_proto plain_env p = Inr plain_options"
    using wire_roundtrip [OF plain_normal] by blast
  have "toCommandLineOptionsInternal plain_env ?o = toCommandLineOptionsInternal plain_env plain_options"
    by (simp add: toCommandLineOptionsInternal_def request_to_proto_def target_to_proto_def flush_to_proto_def plain_options_def
        setNonTrivialDefaults_def initial_options_def)
  then have "toCommandLineOptionsInternal plain_env ?o = Inr p" using p(1) by simp
  then show ?thesis using body_size_lost [OF none _ p(2)] p(2) by blast
qed

text \<open>
  C17. A message with tunnel options never gives options: the constructor finds no free port or
  accesses an optional that has no value.
\<close>

theorem tunnel_options_never_load:
  assumes "p_tunnel_options p = Some t"
  shows "\<exists>e. OptionsImpl_proto E p = Inl e"
proof -
  have "opt_tunnel_tls_context (basics_from_proto p (setNonTrivialDefaults initial_options)) = None"
    by (simp add: basics_from_proto_def target_from_proto_def setNonTrivialDefaults_def initial_options_def Let_def
        split: target_choice.split)
  then show ?thesis
    using assms by (auto simp: OptionsImpl_proto_def assign_def tunnel_from_proto_def Let_def split: sum.splits)
qed

theorem tunnel_options_never_load_witness:
  "\<exists>p e. p_tunnel_options p = Some \<lparr>to_tunnel_uri = ''http://t/'', to_tunnel_protocol = Some 1, to_tunnel_tls_context = []\<rparr>
     \<and> OptionsImpl_proto plain_env p = Inl e"
proof -
  let ?t = "\<lparr>to_tunnel_uri = ''http://t/'', to_tunnel_protocol = Some 1, to_tunnel_tls_context = []\<rparr>"
  obtain p where "toCommandLineOptionsInternal plain_env plain_options = Inr p"
    using wire_roundtrip [OF plain_normal] by blast
  have "p_tunnel_options (p\<lparr>p_tunnel_options := Some ?t\<rparr>) = Some ?t" by simp
  from tunnel_options_never_load [OF this, of plain_env] this show ?thesis by blast
qed

end
