(* ===== verification/Output.thy ===== *)
theory Output
  imports Statistic CommandLine
begin

text \<open>
  The output of a run (\<^verbatim>\<open>api/client/output.proto\<close>), the collector that assembles it
  (\<^verbatim>\<open>source/client/output_collector_impl.cc\<close>) and the formatters that print it
  (\<^verbatim>\<open>source/client/output_formatter_impl.cc\<close>).

  Printing of floating-point numbers, protobuf's conversions of durations and its JSON and YAML
  writers are parameters, the record \<open>output_env\<close>.
\<close>

section \<open>Messages\<close>

record Counter =
  counter_name :: string
  counter_value :: u64

datatype user_output = NoOutput | TypedOutput opaque | ErrorMessage string

record UserDefinedOutput =
  plugin_name :: string
  plugin_output :: user_output

record ResultProto =
  result_name :: string
  statistics :: "StatisticProto list"
  counters :: "Counter list"
  execution_duration :: proto_duration
  execution_start :: "proto_duration option"
  user_defined_outputs :: "UserDefinedOutput list"

record Output =
  timestamp :: proto_duration
  out_options :: CommandLineOptions
  results :: "ResultProto list"
  version :: "u32 \<times> u32 \<times> u32"

record DataEntry =
  de_start :: double
  de_end :: double
  de_percent :: double
  de_count :: u64

record FortioPercentile =
  fp_percentile :: double
  fp_value :: double

record DurationHistogram =
  dh_count :: u64
  dh_data :: "DataEntry list"
  dh_min :: double
  dh_max :: double
  dh_sum :: double
  dh_avg :: double
  dh_stddev :: double
  dh_percentiles :: "FortioPercentile list"

record FortioResult =
  Labels :: string
  StartTime :: proto_duration
  RequestedQPS :: u32
  RequestedDuration :: proto_duration
  ActualQPS :: double
  ActualDuration :: double
  NumThreads :: u32
  DurationHistogramField :: "DurationHistogram option"
  RetCodes :: "(string \<times> u64) list"
  URL :: string
  Version :: string
  Jitter :: bool
  RunType :: string
  Sizes :: "DurationHistogram option"
  HeaderSizes :: "DurationHistogram option"
  BytesSent :: u64
  BytesReceived :: u64

record output_env =
  fmt_double :: "double \<Rightarrow> string"
  fmt_general :: "nat \<Rightarrow> double \<Rightarrow> string"
  fmt_fixed :: "nat \<Rightarrow> double \<Rightarrow> string"
  DurationToMicroseconds :: "proto_duration \<Rightarrow> int"
  DurationToNanoseconds :: "proto_duration \<Rightarrow> int"
  NanosecondsToDuration :: "int \<Rightarrow> proto_duration"
  NanosecondsToTimestamp :: "int \<Rightarrow> proto_duration"
  output_json :: "Output \<Rightarrow> string"
  output_yaml :: "Output \<Rightarrow> string"
  fortio_json :: "FortioResult \<Rightarrow> string"

section \<open>The collector\<close>

text \<open>
  A statistic is what the collector uses of one: its identifier and its conversion. The system time
  is in nanoseconds since the epoch.
\<close>

type_synonym statistic = "string \<times> (SerializationDomain \<Rightarrow> StatisticProto)"

definition new_OutputCollector ::
    "output_env \<Rightarrow> int \<Rightarrow> CommandLineOptions \<Rightarrow> u32 \<times> u32 \<times> u32 \<Rightarrow> Output" where
  "new_OutputCollector F system_time opts build_version =
     \<lparr>timestamp = NanosecondsToTimestamp F system_time, out_options = opts, results = [],
      version = build_version\<rparr>"

definition serialization_domain :: "string \<Rightarrow> SerializationDomain" where
  "serialization_domain i = (if ends_with i ''_size'' then RAW else DURATION)"

definition addResult ::
    "output_env \<Rightarrow> string \<Rightarrow> statistic list \<Rightarrow> (string \<times> u64) list \<Rightarrow> int \<Rightarrow> int option
      \<Rightarrow> UserDefinedOutput list \<Rightarrow> Output \<Rightarrow> Output" where
  "addResult F name stats counts duration first_acquisition_time user_outputs out =
     out\<lparr>results := results out @
       [\<lparr>result_name = name,
         statistics = map (\<lambda>(i, toProto). toProto (serialization_domain i)) stats,
         counters = map (\<lambda>(k, v). \<lparr>counter_name = k, counter_value = v\<rparr>) counts,
         execution_duration = NanosecondsToDuration F duration,
         execution_start = map_option (NanosecondsToTimestamp F) first_acquisition_time,
         user_defined_outputs = user_outputs\<rparr>]\<rparr>"

section \<open>What the formatters share\<close>

text \<open>The names of the values of \<^verbatim>\<open>OutputFormatOptions\<close> after the first.\<close>

definition getLowerCaseOutputFormats :: "string list" where
  "getLowerCaseOutputFormats = map str_lower
     [''JSON'', ''HUMAN'', ''YAML'', ''DOTTED'', ''FORTIO'', ''EXPERIMENTAL_FORTIO_PEDANTIC'', ''CSV'',
      ''PROMETHEUS'']"

definition percentile_marks :: "double list" where
  "percentile_marks = map to_double [0, 5/10, 75/100, 8/10, 9/10, 95/100, 99/100, 999/1000, 1]"

text \<open>
  \<^verbatim>\<open>iteratePercentiles\<close> returns the arguments of its calls of the callback, in order. The inner
  loop breaks at the first percentile that reaches the mark and exceeds the last one reported.
\<close>

primrec iterate_from :: "Percentile list \<Rightarrow> double \<Rightarrow> double list \<Rightarrow> Percentile list" where
  "iterate_from ps last_percentile [] = []"
| "iterate_from ps last_percentile (p # marks) =
     (case find (\<lambda>x. p \<le> percentile_of x \<and> last_percentile < percentile_of x) ps of
        None \<Rightarrow> iterate_from ps last_percentile marks
      | Some x \<Rightarrow> x # iterate_from ps (percentile_of x) marks)"

definition iteratePercentiles :: "StatisticProto \<Rightarrow> Percentile list" where
  "iteratePercentiles st = iterate_from (percentiles st) (Fin (- 1)) percentile_marks"

text \<open>\<^verbatim>\<open>{:<n}\<close> and \<^verbatim>\<open>{:03}\<close>\<close>

definition pad_right :: "nat \<Rightarrow> string \<Rightarrow> string" where
  "pad_right n s = s @ replicate (n - length s) (CHR '' '')"

definition zero_pad :: "nat \<Rightarrow> int \<Rightarrow> string" where
  "zero_pad n i =
     (let d = show_nat (nat \<bar>i\<bar>)
      in if i < 0 then CHR ''-'' # replicate (n - 1 - length d) (CHR ''0'') @ d
         else replicate (n - length d) (CHR ''0'') @ d)"

text \<open>The remainder of C++, whose sign is that of the dividend.\<close>

definition truncate_rem :: "int \<Rightarrow> int \<Rightarrow> int" where
  "truncate_rem a b = a - b * truncate_quot a b"

definition formatProtoDuration :: "output_env \<Rightarrow> proto_duration \<Rightarrow> string" where
  "formatProtoDuration F d =
     (let microseconds = DurationToMicroseconds F d
      in show_int (truncate_quot (truncate_rem microseconds 1000000000) 1000000) @ ''s ''
         @ zero_pad 3 (truncate_quot (truncate_rem microseconds 1000000) 1000) @ ''ms ''
         @ zero_pad 3 (truncate_rem microseconds 1000) @ ''us'')"

definition statIdtoFriendlyStatName :: "string \<Rightarrow> string" where
  "statIdtoFriendlyStatName i =
     (if i = ''benchmark_http_client.queue_to_connect'' then ''Queueing and connection setup latency''
      else if i = ''benchmark_http_client.request_to_response'' then ''Request start to response end''
      else if i = ''sequencer.callback'' then ''Initiation to completion''
      else if i = ''sequencer.blocking''
      then ''Blocking. Results are skewed when significant numbers are reported here.''
      else if i = ''benchmark_http_client.response_body_size'' then ''Response body size in bytes''
      else if i = ''benchmark_http_client.response_header_size'' then ''Response header size in bytes''
      else i)"

definition show_u64 :: "u64 \<Rightarrow> string" where
  "show_u64 w = show_nat (unat w)"

definition line :: "string \<Rightarrow> string" where
  "line s = s @ [newline]"

text \<open>A duration or a raw value, the duration printed by the function given.\<close>

definition show_or :: "(proto_duration \<Rightarrow> string) \<Rightarrow> ('v \<Rightarrow> string) \<Rightarrow> proto_duration + 'v \<Rightarrow> string" where
  "show_or f g v = (case v of Inl d \<Rightarrow> f d | Inr x \<Rightarrow> g x)"

definition show_raw_percentile :: "double \<Rightarrow> string" where
  "show_raw_percentile v = show_int (sint (i64_of_double v))"

text \<open>The percentiles strictly between 0 and 1 below a header, which is written with the first.\<close>

definition percentile_table :: "string \<Rightarrow> (Percentile \<Rightarrow> string) \<Rightarrow> StatisticProto \<Rightarrow> string" where
  "percentile_table header row st =
     (let shown = filter (\<lambda>x. 0 < percentile_of x \<and> percentile_of x < 1) (iteratePercentiles st)
      in (if shown = [] then [] else header) @ concat (map row shown))"

definition counter_rate :: "output_env \<Rightarrow> ResultProto \<Rightarrow> Counter \<Rightarrow> double" where
  "counter_rate F r c =
     double_of_u64 (counter_value c)
       div (double_of_int (DurationToNanoseconds F (execution_duration r)) div Fin 1000000000)"

section \<open>Human readable and CSV\<close>

definition console_statistic :: "output_env \<Rightarrow> StatisticProto \<Rightarrow> string" where
  "console_statistic F st =
     (if proto_count st = 0 then []
      else
        line (statIdtoFriendlyStatName (proto_id st) @ '' ('' @ show_u64 (proto_count st) @ '' samples)'')
        @ ''  min: '' @ show_or (formatProtoDuration F) show_u64 (proto_min st) @ '' | ''
        @ ''mean: '' @ show_or (formatProtoDuration F) (fmt_double F) (proto_mean st) @ '' | ''
        @ ''max: '' @ show_or (formatProtoDuration F) show_u64 (proto_max st) @ '' | ''
        @ line (''pstdev: '' @ show_or (formatProtoDuration F) (fmt_double F) (proto_pstdev st))
        @ percentile_table
            (line [] @ line (''  '' @ pad_right 12 ''Percentile'' @ pad_right 12 ''Count'' @ pad_right 15 ''Value''))
            (\<lambda>x. line (''  '' @ pad_right 12 (fmt_general F 8 (percentile_of x))
                     @ pad_right 12 (show_u64 (percentile_count x))
                     @ pad_right 15 (show_or (formatProtoDuration F) show_raw_percentile (percentile_value x))))
            st
        @ line [])"

definition console_result :: "output_env \<Rightarrow> ResultProto \<Rightarrow> string" where
  "console_result F r =
     (if result_name r = ''global''
      then concat (map (console_statistic F) (statistics r))
           @ line (pad_right 40 ''Counter'' @ pad_right 12 ''Value'' @ ''Per second'')
           @ concat (map (\<lambda>c. line (pad_right 40 (counter_name c) @ pad_right 12 (show_u64 (counter_value c))
                                    @ fmt_fixed F 2 (counter_rate F r c))) (counters r))
           @ line []
      else [])"

definition banner :: string where
  "banner = line ''Nighthawk - A layer 7 protocol benchmarking tool.'' @ line []"

definition Console_formatProto :: "output_env \<Rightarrow> Output \<Rightarrow> string" where
  "Console_formatProto F out = banner @ concat (map (console_result F) (results out))"

definition csv_statistic :: "output_env \<Rightarrow> StatisticProto \<Rightarrow> string" where
  "csv_statistic F st =
     (if proto_count st = 0 then []
      else
        line (statIdtoFriendlyStatName (proto_id st) @ '' ('' @ show_u64 (proto_count st) @ '' samples)'')
        @ line ''Min,Mean,Max,Pstdev''
        @ line (show_or (formatProtoDuration F) show_u64 (proto_min st) @ '',''
                @ show_or (formatProtoDuration F) (fmt_double F) (proto_mean st) @ '',''
                @ show_or (formatProtoDuration F) show_u64 (proto_max st) @ '',''
                @ show_or (formatProtoDuration F) (fmt_double F) (proto_pstdev st))
        @ percentile_table (line ''Percentile,Count,Value(microseconds),Value'')
            (\<lambda>x. line (fmt_general F 8 (percentile_of x) @ '','' @ show_u64 (percentile_count x) @ '',''
                     @ show_int (DurationToMicroseconds F (case percentile_value x of Inl d \<Rightarrow> d | Inr _ \<Rightarrow> zero_duration))
                     @ '','' @ show_or (formatProtoDuration F) show_raw_percentile (percentile_value x)))
            st
        @ line [])"

definition csv_result :: "output_env \<Rightarrow> ResultProto \<Rightarrow> string" where
  "csv_result F r =
     (if result_name r = ''global''
      then concat (map (csv_statistic F) (statistics r))
           @ line ''Counter,Value,Per second''
           @ concat (map (\<lambda>c. line (counter_name c @ '','' @ show_u64 (counter_value c) @ '',''
                                    @ fmt_fixed F 2 (counter_rate F r c))) (counters r))
           @ line []
      else [])"

definition Csv_formatProto :: "output_env \<Rightarrow> Output \<Rightarrow> string" where
  "Csv_formatProto F out = banner @ concat (map (csv_result F) (results out))"

section \<open>Dotted strings\<close>

definition show_microseconds :: "output_env \<Rightarrow> proto_duration \<Rightarrow> string" where
  "show_microseconds F d = show_int (DurationToMicroseconds F d)"

definition dotted_percentile :: "output_env \<Rightarrow> string \<Rightarrow> Percentile \<Rightarrow> string" where
  "dotted_percentile F prefix x =
     (let percentile_prefix = prefix @ ''.permilles-'' @ fmt_fixed F 0 (percentile_of x * Fin 1000)
      in line (percentile_prefix @ ''.count: '' @ show_u64 (percentile_count x))
         @ line (case percentile_value x of
                   Inl d \<Rightarrow> percentile_prefix @ ''.microseconds: '' @ show_microseconds F d
                 | Inr v \<Rightarrow> percentile_prefix @ ''.value: '' @ show_raw_percentile v))"

definition dotted_statistic :: "output_env \<Rightarrow> string \<Rightarrow> StatisticProto \<Rightarrow> string" where
  "dotted_statistic F name st =
     (let prefix = name @ ''.'' @ proto_id st
      in line (prefix @ ''.samples: '' @ show_u64 (proto_count st))
         @ line (prefix @ ''.mean: '' @ show_or (show_microseconds F) (fmt_double F) (proto_mean st))
         @ line (prefix @ ''.pstdev: '' @ show_or (show_microseconds F) (fmt_double F) (proto_pstdev st))
         @ line (prefix @ ''.min: '' @ show_or (show_microseconds F) show_u64 (proto_min st))
         @ line (prefix @ ''.max: '' @ show_or (show_microseconds F) show_u64 (proto_max st))
         @ concat (map (dotted_percentile F prefix) (iteratePercentiles st)))"

definition Dotted_formatProto :: "output_env \<Rightarrow> Output \<Rightarrow> string" where
  "Dotted_formatProto F out =
     concat (map (\<lambda>r.
       concat (map (dotted_statistic F (result_name r)) (statistics r))
       @ concat (map (\<lambda>c. line (result_name r @ ''.'' @ counter_name c @ '':'' @ show_u64 (counter_value c)))
                     (counters r))) (results out))"

section \<open>Fortio\<close>

definition getGlobalResult :: "Output \<Rightarrow> ResultProto option" where
  "getGlobalResult out = find (\<lambda>r. result_name r = ''global'') (results out)"

definition getCounterValue :: "ResultProto \<Rightarrow> string \<Rightarrow> u64 \<Rightarrow> u64" where
  "getCounterValue r name value_if_not_found =
     (case find (\<lambda>c. counter_name c = name) (counters r) of
        Some c \<Rightarrow> counter_value c
      | None \<Rightarrow> value_if_not_found)"

definition findStatistic :: "ResultProto \<Rightarrow> string \<Rightarrow> StatisticProto option" where
  "findStatistic r i = find (\<lambda>st. proto_id st = i) (statistics r)"

definition getAverageExecutionDuration :: "output_env \<Rightarrow> Output \<Rightarrow> int status_or" where
  "getAverageExecutionDuration F out =
     (if results out = []
      then Inl (Status kNotFound ''getAverageExecutionDuration found no results in output'')
      else Inr (DurationToNanoseconds F (execution_duration (last (results out)))))"

definition durationToSeconds :: "output_env \<Rightarrow> proto_duration \<Rightarrow> double" where
  "durationToSeconds F d = double_of_int (DurationToNanoseconds F d) div Fin 1000000000"

definition fortio_value :: "output_env \<Rightarrow> proto_duration + double \<Rightarrow> double" where
  "fortio_value F v = (case v of Inl d \<Rightarrow> durationToSeconds F d | Inr x \<Rightarrow> x)"

text \<open>The loop over the percentiles with its three variables: previous count, previous end and index.\<close>

primrec fortio_data :: "output_env \<Rightarrow> u64 \<Rightarrow> double \<Rightarrow> nat \<Rightarrow> Percentile list \<Rightarrow> DataEntry list" where
  "fortio_data F prev_count prev_end i [] = []"
| "fortio_data F prev_count prev_end i (x # ps) =
     (let v = fortio_value F (percentile_value x);
          start = (if i = 0 then v else prev_end)
      in \<lparr>de_start = start, de_end = v, de_percent = percentile_of x * Fin 100,
          de_count = percentile_count x - prev_count\<rparr>
         # fortio_data F (percentile_count x) v (i + 1) ps)"

definition renderFortioDurationHistogram :: "output_env \<Rightarrow> StatisticProto \<Rightarrow> DurationHistogram" where
  "renderFortioDurationHistogram F st =
     (let average = fortio_value F (proto_mean st);
          integral = (\<lambda>v. case v of Inl d \<Rightarrow> durationToSeconds F d | Inr w \<Rightarrow> double_of_u64 w);
          shown = filter (\<lambda>x. 0 < percentile_of x \<and> percentile_of x < 1) (iteratePercentiles st)
      in \<lparr>dh_count = proto_count st, dh_data = fortio_data F 0 0 0 (percentiles st),
          dh_min = integral (proto_min st), dh_max = integral (proto_max st),
          dh_sum = double_of_u64 (proto_count st) * average, dh_avg = average,
          dh_stddev = fortio_value F (proto_pstdev st),
          dh_percentiles = map (\<lambda>x.
            \<lparr>fp_percentile = dfloor (percentile_of x * Fin 1000) div Fin 10,
             fp_value = fortio_value F (percentile_value x)\<rparr>) shown\<rparr>)"

definition strip_suffix :: "string \<Rightarrow> string \<Rightarrow> string" where
  "strip_suffix suffix s = (if ends_with s suffix then take (length s - length suffix) s else s)"

definition fortio_result :: "output_env \<Rightarrow> Output \<Rightarrow> FortioResult status_or" where
  "fortio_result F out =
     (let number_of_workers = (if length (results out) = 1 then 1 else word_of_nat (length (results out)) - 1) :: u32;
          opts = out_options out;
          histogram = (\<lambda>r i. map_option (renderFortioDurationHistogram F) (findStatistic r i))
      in case getAverageExecutionDuration F out of
           Inl e \<Rightarrow> Inl (Status (code e) (message e))
         | Inr actual_duration \<Rightarrow>
             (case getGlobalResult out of
                None \<Rightarrow> Inl (Status kNotFound ''formatProto global result not found'')
              | Some r \<Rightarrow> Inr
                  \<lparr>Labels = strip_suffix '' '' (concat (map (\<lambda>l. l @ '' '') (p_labels opts))),
                   StartTime = timestamp out,
                   RequestedQPS = number_of_workers * get_or 0 (p_requests_per_second opts),
                   RequestedDuration = (case p_duration opts of Duration d \<Rightarrow> d | _ \<Rightarrow> zero_duration),
                   ActualQPS = double_of_u64 (getCounterValue r ''upstream_rq_total'' 0)
                     div (double_of_int actual_duration div Fin 1000000000),
                   ActualDuration = double_of_int actual_duration,
                   NumThreads = get_or 0 (p_connections opts) * number_of_workers,
                   DurationHistogramField = histogram r ''benchmark_http_client.request_to_response'',
                   RetCodes = [(''200'', getCounterValue r ''benchmark.http_2xx'' 0)],
                   URL = (case p_target opts of TargetUri u \<Rightarrow> u | _ \<Rightarrow> []),
                   Version = toVersionString (version out),
                   Jitter = (case p_jitter_uniform opts of None \<Rightarrow> False | Some d \<Rightarrow> 0 < nanos d \<or> 0 < seconds d),
                   RunType = ''HTTP'',
                   Sizes = histogram r ''benchmark_http_client.response_body_size'',
                   HeaderSizes = histogram r ''benchmark_http_client.response_header_size'',
                   BytesSent = getCounterValue r ''upstream_cx_tx_bytes_total'' 0,
                   BytesReceived = getCounterValue r ''upstream_cx_rx_bytes_total'' 0\<rparr>))"

definition Fortio_formatProto :: "output_env \<Rightarrow> Output \<Rightarrow> string status_or" where
  "Fortio_formatProto F out = map_sum id (fortio_json F) (fortio_result F out)"

text \<open>
  \<^verbatim>\<open>FortioPedanticOutputFormatterImpl\<close> rewrites the text with two regular expressions. A scan from the
  left replaces each leftmost match and continues behind it: the first quotes the number after
  \<^verbatim>\<open>"RequestedQPS": \<close>, the second removes the quotes of the numbers under some keys.
\<close>

definition qps_key :: string where
  "qps_key = dquote # ''RequestedQPS'' @ dquote # '': ''"

function quote_qps :: "string \<Rightarrow> string" where
  "quote_qps [] = []"
| "quote_qps (c # s) =
     (if starts_with (c # s) qps_key
      then (let t = drop (length qps_key) (c # s)
            in qps_key @ dquote # takeWhile is_digit t @ dquote # quote_qps (dropWhile is_digit t))
      else c # quote_qps s)"
  by pat_completeness auto
termination
proof (relation "measure length")
  fix c s and t :: string
  assume t: "t = drop (length qps_key) (c # s)"
  have "length (dropWhile is_digit t) \<le> length t" by (rule length_dropWhile_le)
  also have "length t < length (c # s)" by (simp add: t qps_key_def)
  finally show "(dropWhile is_digit t, c # s) \<in> measure length" by simp
qed simp_all

definition unquote_match :: "string \<Rightarrow> (string \<times> string \<times> string) option" where
  "unquote_match s =
     (let key = takeWhile (\<lambda>c. c \<noteq> dquote) (tl s);
          r = drop (length key) (tl s);
          d = takeWhile is_digit (drop 4 r);
          w = drop (length d) (drop 4 r)
      in if s \<noteq> [] \<and> hd s = dquote
            \<and> (length key = 3 \<and> list_all is_digit key \<or> key \<in> {''Count'', ''BytesSent'', ''BytesReceived''})
            \<and> starts_with r (dquote # '': '' @ [dquote]) \<and> w \<noteq> [] \<and> hd w = dquote
         then Some (key, d, tl w) else None)"

function unquote_numbers :: "string \<Rightarrow> string" where
  "unquote_numbers [] = []"
| "unquote_numbers (c # s) =
     (case unquote_match (c # s) of
        Some (key, d, rest) \<Rightarrow> dquote # key @ dquote # '': '' @ d @ unquote_numbers rest
      | None \<Rightarrow> c # unquote_numbers s)"
  by pat_completeness auto
termination
  by (relation "measure length") (auto simp: unquote_match_def Let_def split: if_splits)

definition FortioPedantic_formatProto :: "output_env \<Rightarrow> Output \<Rightarrow> string status_or" where
  "FortioPedantic_formatProto F out =
     (case Fortio_formatProto F out of
        Inl e \<Rightarrow> Inl e
      | Inr res \<Rightarrow> Inr (unquote_numbers (quote_qps res)))"

section \<open>Prometheus\<close>

text \<open>
  \<^verbatim>\<open>populateMetric\<close> appends a line under the metric's definition. The texts are kept in a map ordered
  by definition; the formatter is the sequence of its calls, given as (name, type, labels, value,
  suffix).
\<close>

type_synonym metric_call = "string \<times> string \<times> string \<times> string \<times> string"

definition metric_def :: "metric_call \<Rightarrow> string" where
  "metric_def m = (case m of (name, kind, labels, v, suffix) \<Rightarrow> name @ '' '' @ kind)"

definition metric_line :: "metric_call \<Rightarrow> string" where
  "metric_line m =
     (case m of (name, kind, labels, v, suffix) \<Rightarrow>
        line (name @ suffix @ ''{'' @ labels @ ''} '' @ v))"

definition populateMetric :: "metric_call \<Rightarrow> (string \<times> string) list \<Rightarrow> (string \<times> string) list" where
  "populateMetric m metrics_output =
     (let so_far = (case map_of metrics_output (metric_def m) of None \<Rightarrow> [] | Some text \<Rightarrow> text)
      in map_set (metric_def m) (so_far @ metric_line m) metrics_output)"

definition underscores :: "string \<Rightarrow> string" where
  "underscores = map (\<lambda>c. if c = CHR ''.'' then CHR ''_'' else c)"

definition prometheus_statistic :: "output_env \<Rightarrow> string \<Rightarrow> StatisticProto \<Rightarrow> metric_call list" where
  "prometheus_statistic F scope st =
     (if proto_id st = [] then []
      else
        (let s_name = ''nighthawk_'' @ underscores (proto_id st);
             s_mean = (case proto_mean st of Inl d \<Rightarrow> double_of_int (DurationToMicroseconds F d) | Inr v \<Rightarrow> v);
             s_sum = s_mean * double_of_u64 (proto_count st)
         in [(s_name @ ''_min'', ''counter'', scope, show_or (show_microseconds F) show_u64 (proto_min st), []),
             (s_name @ ''_max'', ''counter'', scope, show_or (show_microseconds F) show_u64 (proto_max st), []),
             (s_name @ ''_mean'', ''counter'', scope, fmt_double F s_mean, []),
             (s_name @ ''_pstdev'', ''counter'', scope,
              show_or (show_microseconds F) (fmt_double F) (proto_pstdev st), [])]
            @ map (\<lambda>x. (s_name, ''summary'',
                        scope @ '',quantile='' @ dquote # fmt_double F (percentile_of x) @ [dquote],
                        show_or (show_microseconds F) show_raw_percentile (percentile_value x), []))
                  (iteratePercentiles st)
            @ (if percentiles st = []
               then [(s_name @ ''_count'', ''counter'', scope, show_u64 (proto_count st), []),
                     (s_name @ ''_sum'', ''counter'', scope, fmt_double F s_sum, [])]
               else [(s_name, ''summary'', scope, show_u64 (proto_count st), ''_count''),
                     (s_name, ''summary'', scope, fmt_double F s_sum, ''_sum'')])))"

definition prometheus_result :: "output_env \<Rightarrow> ResultProto \<Rightarrow> metric_call list" where
  "prometheus_result F r =
     (let scope = ''scope='' @ dquote # result_name r @ [dquote]
      in concat (map (prometheus_statistic F scope) (statistics r))
         @ map (\<lambda>c. (''nighthawk_'' @ underscores (counter_name c), ''counter'', scope,
                     show_u64 (counter_value c), [])) (counters r))"

definition prometheus_metrics :: "output_env \<Rightarrow> Output \<Rightarrow> (string \<times> string) list" where
  "prometheus_metrics F out = fold populateMetric (concat (map (prometheus_result F) (results out))) []"

definition Prometheus_formatProto :: "output_env \<Rightarrow> Output \<Rightarrow> string" where
  "Prometheus_formatProto F out =
     concat (map (\<lambda>(definition_of, text). line (''# TYPE '' @ definition_of) @ text) (prometheus_metrics F out))"

section \<open>Choosing a formatter\<close>

text \<open>\<^verbatim>\<open>OutputFormatterFactoryImpl::create\<close> followed by \<^verbatim>\<open>formatProto\<close>.\<close>

definition formatProto :: "output_env \<Rightarrow> int \<Rightarrow> Output \<Rightarrow> failure + string status_or" where
  "formatProto F output_format out =
     (if output_format = 2 then Inr (Inr (Console_formatProto F out))
      else if output_format = 1 then Inr (Inr (output_json F out))
      else if output_format = 3 then Inr (Inr (output_yaml F out))
      else if output_format = 4 then Inr (Inr (Dotted_formatProto F out))
      else if output_format = 5 then Inr (Fortio_formatProto F out)
      else if output_format = 6 then Inr (FortioPedantic_formatProto F out)
      else if output_format = 7 then Inr (Inr (Csv_formatProto F out))
      else if output_format = 8 then Inr (Inr (Prometheus_formatProto F out))
      else Inl (PanicFailure ''not reached''))"

text \<open>
  \<^verbatim>\<open>OutputTransformMain::run\<close> on the text of its input: the exit code and what it prints. Reading the
  message from JSON is a parameter that gives the message or the exception's text.
\<close>

definition OutputTransformMain_run ::
    "output_env \<Rightarrow> (string \<Rightarrow> string + Output) \<Rightarrow> string \<Rightarrow> string \<Rightarrow> failure + nat \<times> string" where
  "OutputTransformMain_run F loadFromJson output_format input =
     (case OutputFormat_Parse (str_upper output_format) of
        None \<Rightarrow> Inl (ReleaseAssertFailure ''Invalid output format'')
      | Some translated_format \<Rightarrow>
          (case loadFromJson input of
             Inl e \<Rightarrow> Inr (1, [])
           | Inr out \<Rightarrow>
               (case formatProto F translated_format out of
                  Inl f \<Rightarrow> Inl f
                | Inr (Inl e) \<Rightarrow> Inr (1, [])
                | Inr (Inr text) \<Rightarrow> Inr (0, text))))"

section \<open>Properties\<close>


text \<open>The first element that satisfies a predicate precedes every other one that does.\<close>

lemma find_first:
  "sorted_wrt R xs \<Longrightarrow> find P xs = Some y \<Longrightarrow> x \<in> set xs \<Longrightarrow> P x \<Longrightarrow> x = y \<or> R y x"
  by (induction xs) (auto split: if_splits)

lemma find_in: "find P xs = Some y \<Longrightarrow> y \<in> set xs \<and> P y"
  by (auto simp: find_Some_iff)

lemma find_both:
  assumes "sorted_wrt R xs" "find P xs = Some x" "\<And>y. Q y \<Longrightarrow> P y" "Q x" "\<And>y. R x y \<Longrightarrow> \<not> R y x" "\<not> R x x"
  shows "find Q xs = Some x"
proof -
  have x: "x \<in> set xs" using assms(2) by (simp add: find_in)
  then obtain y where y: "find Q xs = Some y" using assms(4) by (metis find_None_iff option.exhaust)
  then have "y \<in> set xs" "Q y" by (simp_all add: find_in)
  then have "y = x \<or> R x y" using find_first [OF assms(1,2)] assms(3) by blast
  moreover have "x = y \<or> R y x" using find_first [OF assms(1) y x assms(4)] .
  ultimately show ?thesis using y assms(5) by blast
qed

abbreviation ascends :: "Percentile list \<Rightarrow> bool" where
  "ascends \<equiv> sorted_wrt (\<lambda>x y. percentile_of x < percentile_of y)"

lemma iterate_from_in: "x \<in> set (iterate_from ps l marks) \<Longrightarrow> x \<in> set ps \<and> l < percentile_of x"
  by (induction marks arbitrary: l)
    (auto dest!: find_in intro: double_less_trans split: option.splits)

lemma iterate_from_ascends: "ascends (iterate_from ps l marks)"
  by (induction marks arbitrary: l) (auto dest: iterate_from_in split: option.splits)

lemma iterate_from_length: "length (iterate_from ps l marks) \<le> length marks"
  by (induction marks arbitrary: l) (auto intro: le_SucI split: option.splits)

lemma iterate_from_covers:
  assumes "ascends ps" "sorted_wrt (\<le>) marks" "p \<in> set marks"
    and x: "find (\<lambda>x. p \<le> percentile_of x) ps = Some x" and "l < percentile_of x"
  shows "x \<in> set (iterate_from ps l marks)"
  using assms(2,3,5)
proof (induction marks arbitrary: l)
  case (Cons q marks)
  let ?P = "\<lambda>x. q \<le> percentile_of x \<and> l < percentile_of x"
  have in_ps: "x \<in> set ps" "p \<le> percentile_of x" using find_in [OF x] by simp_all
  have "?P x"
  proof
    show "q \<le> percentile_of x" using Cons.prems(1,2) in_ps(2) by (auto intro: double_le_trans)
  qed (rule Cons.prems(3))
  then obtain y where y: "find ?P ps = Some y" using in_ps(1) by (metis (no_types, lifting) find_None_iff option.exhaust)
  then have "x = y \<or> percentile_of y < percentile_of x"
    using find_first [OF assms(1) y in_ps(1)] \<open>?P x\<close> by simp
  moreover have "p = q \<Longrightarrow> x = y"
    using find_both [OF assms(1) x, of ?P] \<open>?P x\<close> y by (auto dest: double_less_asym)
  ultimately show ?case using Cons.IH [of "percentile_of y"] Cons.prems(1,2) y by auto
qed simp

lemma marks_ascend: "sorted_wrt (\<le>) percentile_marks"
  unfolding percentile_marks_def by (rule to_double_sorted) simp

lemma marks_nonneg: "p \<in> set percentile_marks \<Longrightarrow> Fin (- 1) < p"
  using to_double_mono [of 0] unfolding percentile_marks_def
  by (auto intro: double_less_le_trans [of _ "Fin 0"])

text \<open>
  C18. For a statistic whose percentiles strictly ascend, the percentiles that a formatter shows strictly
  ascend too, are percentiles of the statistic and are at most nine; and for every mark (the median,
  the 75th percentile and so on) the first percentile that reaches the mark is among them.
\<close>

theorem percentiles_reported:
  assumes "ascends (percentiles st)"
  shows "ascends (iteratePercentiles st) \<and> set (iteratePercentiles st) \<subseteq> set (percentiles st)
    \<and> length (iteratePercentiles st) \<le> 9
    \<and> (\<forall>p x. p \<in> set percentile_marks \<and> find (\<lambda>x. p \<le> percentile_of x) (percentiles st) = Some x
         \<longrightarrow> x \<in> set (iteratePercentiles st))"
proof (intro conjI allI impI)
  show "length (iteratePercentiles st) \<le> 9"
    using iterate_from_length [of "percentiles st" "Fin (- 1)" percentile_marks]
    by (simp add: iteratePercentiles_def percentile_marks_def)
  fix p x
  assume x: "p \<in> set percentile_marks \<and> find (\<lambda>x. p \<le> percentile_of x) (percentiles st) = Some x"
  then have "Fin (- 1) < p" "p \<le> percentile_of x" by (auto simp: marks_nonneg dest: find_in)
  then have "Fin (- 1) < percentile_of x" by (rule double_less_le_trans)
  then show "x \<in> set (iteratePercentiles st)"
    unfolding iteratePercentiles_def using x assms marks_ascend by (blast intro: iterate_from_covers)
qed (auto simp: iteratePercentiles_def iterate_from_ascends dest: iterate_from_in)

definition demo_percentile :: "rat \<Rightarrow> u64 \<Rightarrow> Percentile" where
  "demo_percentile p n = \<lparr>percentile_value = Inr (Fin p), percentile_of = Fin p, percentile_count = n\<rparr>"

definition demo_statistic :: StatisticProto where
  "demo_statistic =
     \<lparr>proto_id = ''latency'', proto_count = 8, proto_mean = Inr 1, proto_pstdev = Inr 0, proto_min = Inr 0,
      proto_max = Inr 2, percentiles = [demo_percentile 0 1, demo_percentile (1/2) 4, demo_percentile 1 8]\<rparr>"

theorem percentiles_reported_witness:
  "ascends (percentiles demo_statistic) \<and> demo_percentile 1 8 \<in> set (iteratePercentiles demo_statistic)"
proof
  show a: "ascends (percentiles demo_statistic)" by (simp add: demo_statistic_def demo_percentile_def)
  have "1 \<in> set percentile_marks" by (simp add: percentile_marks_def one_double_def)
  moreover have "find (\<lambda>x. 1 \<le> percentile_of x) (percentiles demo_statistic) = Some (demo_percentile 1 8)"
    by (simp add: demo_statistic_def demo_percentile_def one_double_def)
  ultimately show "demo_percentile 1 8 \<in> set (iteratePercentiles demo_statistic)"
    using percentiles_reported [OF a] by blast
qed

lemma fortio_data_length [simp]: "length (fortio_data F c e i ps) = length ps"
  by (induction ps arbitrary: c e i) (simp_all add: Let_def)

lemma fortio_data_sum:
  "ps \<noteq> [] \<Longrightarrow> sum_list (map de_count (fortio_data F c e i ps)) = percentile_count (last ps) - c"
  by (induction ps arbitrary: c e i) (auto simp: Let_def)

lemma fortio_data_end: "j < length ps \<Longrightarrow> de_end (fortio_data F c e i ps ! j) = fortio_value F (percentile_value (ps ! j))"
  by (induction ps arbitrary: c e i j) (auto simp: Let_def nth_Cons split: nat.splits)

lemma fortio_data_start:
  "j < length ps \<Longrightarrow> de_start (fortio_data F c e i ps ! j) =
     (if i + j = 0 then fortio_value F (percentile_value (ps ! 0))
      else if j = 0 then e else fortio_value F (percentile_value (ps ! (j - 1))))"
  by (induction ps arbitrary: c e i j) (auto simp: Let_def nth_Cons split: nat.splits)

text \<open>
  C19. The histogram written for Fortio has one entry per percentile; the entries are contiguous, the first
  being empty and each later one starting where the previous one ends, and their counts, which are
  differences of cumulative counts, add up to the cumulative count of the last percentile.
\<close>

theorem fortio_histogram_contiguous:
  fixes F st
  defines "ps \<equiv> percentiles st" and "entries \<equiv> dh_data (renderFortioDurationHistogram F st)"
  assumes "ps \<noteq> []"
  shows "length entries = length ps
    \<and> de_start (entries ! 0) = de_end (entries ! 0)
    \<and> (\<forall>j. Suc j < length ps \<longrightarrow> de_start (entries ! Suc j) = de_end (entries ! j))
    \<and> sum_list (map de_count entries) = percentile_count (last ps)"
  using assms(3) unfolding entries_def ps_def renderFortioDurationHistogram_def
  by (simp add: Let_def fortio_data_start fortio_data_end fortio_data_sum)

definition plain_output_env :: output_env where
  "plain_output_env =
     \<lparr>fmt_double = (\<lambda>_. ''x''), fmt_general = (\<lambda>_ _. ''x''), fmt_fixed = (\<lambda>_ _. ''x''),
      DurationToMicroseconds = (\<lambda>d. seconds d * 1000000 + truncate_quot (nanos d) 1000),
      DurationToNanoseconds = (\<lambda>d. seconds d * 1000000000 + nanos d),
      NanosecondsToDuration = (\<lambda>n. \<lparr>seconds = truncate_quot n 1000000000, nanos = truncate_rem n 1000000000\<rparr>),
      NanosecondsToTimestamp = (\<lambda>n. \<lparr>seconds = truncate_quot n 1000000000, nanos = truncate_rem n 1000000000\<rparr>),
      output_json = (\<lambda>_. []), output_yaml = (\<lambda>_. []), fortio_json = (\<lambda>_. [])\<rparr>"

theorem fortio_histogram_contiguous_witness:
  "percentiles demo_statistic \<noteq> []
   \<and> sum_list (map de_count (dh_data (renderFortioDurationHistogram plain_output_env demo_statistic))) = 8"
  using fortio_histogram_contiguous [of demo_statistic plain_output_env]
  by (simp add: demo_statistic_def demo_percentile_def)

section \<open>Grouping of the Prometheus output\<close>

lemma populate_sorted: "sorted_map m \<Longrightarrow> sorted_map (fold populateMetric calls m)"
  by (induction calls arbitrary: m) (simp_all add: populateMetric_def Let_def sorted_map_set)

lemma populate_lookup:
  "sorted_map m \<Longrightarrow>
   map_of (fold populateMetric calls m) d =
     (if (\<exists>c \<in> set calls. metric_def c = d) \<or> d \<in> dom (map_of m)
      then Some ((case map_of m d of None \<Rightarrow> [] | Some t \<Rightarrow> t)
                 @ concat (map metric_line (filter (\<lambda>c. metric_def c = d) calls)))
      else None)"
proof (induction calls arbitrary: m)
  case Nil
  then show ?case by (auto simp: dom_def split: option.splits)
next
  case (Cons c calls)
  let ?m = "populateMetric c m"
  have m: "sorted_map ?m" "map_of ?m = (map_of m)(metric_def c \<mapsto>
      (case map_of m (metric_def c) of None \<Rightarrow> [] | Some t \<Rightarrow> t) @ metric_line c)"
    using Cons.prems by (simp_all add: populateMetric_def Let_def sorted_map_set map_of_map_set)
  show ?case by (auto simp: Cons.IH [OF m(1)] m(2) split: option.splits)
qed

definition prometheus_calls :: "output_env \<Rightarrow> Output \<Rightarrow> metric_call list" where
  "prometheus_calls F out = concat (map (prometheus_result F) (results out))"

text \<open>
  C20. The Prometheus formatter writes every metric definition once, in strictly ascending order, and
  below it exactly the lines recorded for that definition, in the order in which they were recorded.
\<close>

theorem prometheus_grouped:
  "\<exists>groups. Prometheus_formatProto F out =
       concat (map (\<lambda>(d, text). line (''# TYPE '' @ d) @ text) groups)
     \<and> sorted_map groups
     \<and> map_of groups = (\<lambda>d.
         let recorded = filter (\<lambda>c. metric_def c = d) (prometheus_calls F out)
         in if recorded = [] then None else Some (concat (map metric_line recorded)))"
proof (intro exI conjI)
  let ?groups = "fold populateMetric (prometheus_calls F out) []"
  show "Prometheus_formatProto F out = concat (map (\<lambda>(d, text). line (''# TYPE '' @ d) @ text) ?groups)"
    by (simp add: Prometheus_formatProto_def prometheus_metrics_def prometheus_calls_def)
  show "sorted_map ?groups" by (rule populate_sorted) simp
  show "map_of ?groups = (\<lambda>d. let recorded = filter (\<lambda>c. metric_def c = d) (prometheus_calls F out)
      in if recorded = [] then None else Some (concat (map metric_line recorded)))"
    by (rule ext) (simp add: populate_lookup Let_def filter_empty_conv)
qed

text \<open>A duration is printed modulo a thousand seconds.\<close>

lemma truncate_rem_mod: "0 \<le> a \<Longrightarrow> 0 < b \<Longrightarrow> truncate_rem a b = a mod b"
  by (simp add: truncate_rem_def truncate_quot_def minus_mult_div_eq_mod)

lemma duration_printed_modulo:
  assumes "DurationToMicroseconds F d = DurationToMicroseconds F e + 1000000000 * k"
    and "0 \<le> DurationToMicroseconds F e" "0 \<le> k"
  shows "formatProtoDuration F d = formatProtoDuration F e"
proof -
  have "(x + 1000000000 * k) mod 1000000 = x mod 1000000" "(x + 1000000000 * k) mod 1000 = x mod 1000" for x
    using mod_mult_self2 [of x 1000000 "1000 * k"] mod_mult_self2 [of x 1000 "1000000 * k"] by simp_all
  then show ?thesis using assms by (simp add: formatProtoDuration_def Let_def truncate_rem_mod)
qed

end
