(* ===== verification/StepController.thy ===== *)
theory StepController
  imports Output
begin

text \<open>
  The plugins of the adaptive load controller (\<^verbatim>\<open>source/adaptive_load\<close>): how they are loaded
  (\<^verbatim>\<open>plugin_loader.cc\<close>), the scoring functions, the setter of the request rate and the exponential
  search, with the messages of \<^verbatim>\<open>api/adaptive_load\<close> they use.

  The plugin registry, the unpacking of a configuration and the printing of a number are parameters.
  The lemmas show that the search keeps an interval between a load that met the thresholds and one
  that did not, and that it converges.
\<close>

section \<open>Messages\<close>

record MetricEvaluation =
  metric_id :: string
  metric_value :: double
  threshold_score :: double
  weight :: double

record BenchmarkResult =
  nighthawk_service_output :: Output
  metric_evaluations :: "MetricEvaluation list"
  start_time :: proto_duration
  end_time :: proto_duration

record ExponentialSearchStepControllerConfig =
  cfg_input_variable_setter :: "TypedExtensionConfig option"
  cfg_initial_value :: double
  cfg_exponential_factor :: double

record BinaryScoringFunctionConfig =
  cfg_lower_threshold :: "double option"
  cfg_upper_threshold :: "double option"

record LinearScoringFunctionConfig =
  cfg_threshold :: double
  cfg_scaling_constant :: double

section \<open>Loading of plugins\<close>

text \<open>
  A factory validates a configuration and creates a plugin from it. The loaders are one function
  over the registry: they return the status of a failed validation, turn an \<^verbatim>\<open>EnvoyException\<close> into a
  status and let every other exception through.
\<close>

record 'p plugin_factory =
  ValidateConfig_of :: "opaque \<Rightarrow> failure + status"
  create_of :: "opaque \<Rightarrow> failure + 'p"

type_synonym 'p registry = "string \<Rightarrow> failure + 'p plugin_factory"

definition catch_EnvoyException :: "string \<Rightarrow> failure + 'p status_or \<Rightarrow> failure + 'p status_or" where
  "catch_EnvoyException name r =
     (case r of
        Inl (EnvoyException what) \<Rightarrow>
          Inr (Inl (Status kInvalidArgument (''Could not load plugin: '' @ name @ '': '' @ what)))
      | _ \<Rightarrow> r)"

definition load_plugin :: "'p registry \<Rightarrow> TypedExtensionConfig \<Rightarrow> failure + 'p status_or" where
  "load_plugin getAndCheckFactoryByName config =
     catch_EnvoyException (ext_name config)
       (case getAndCheckFactoryByName (ext_name config) of
          Inl f \<Rightarrow> Inl f
        | Inr config_factory \<Rightarrow>
            (case ValidateConfig_of config_factory (typed_config config) of
               Inl f \<Rightarrow> Inl f
             | Inr validation_status \<Rightarrow>
                 if \<not> ok validation_status then Inr (Inl validation_status)
                 else map_sum id Inr (create_of config_factory (typed_config config))))"

text \<open>\<^verbatim>\<open>THROW_IF_NOT_OK\<close> on an unpacked configuration, and a validation that accepts everything.\<close>

definition unpack_or_throw :: "(opaque \<Rightarrow> 'c status_or) \<Rightarrow> ('c \<Rightarrow> failure + 'p) \<Rightarrow> opaque \<Rightarrow> failure + 'p" where
  "unpack_or_throw unpackTo f any =
     (case unpackTo any of Inl st \<Rightarrow> Inl (EnvoyException (message st)) | Inr config \<Rightarrow> f config)"

definition accept_config :: "opaque \<Rightarrow> failure + status" where
  "accept_config any = Inr OkStatus"

section \<open>Scoring functions\<close>

datatype scoring_function =
    BinaryScoringFunction (upper_threshold: double) (lower_threshold: double)
  | LinearScoringFunction (threshold: double) (scaling_constant: double)
  | OtherScoringFunction "double \<Rightarrow> double"

definition new_BinaryScoringFunction :: "BinaryScoringFunctionConfig \<Rightarrow> scoring_function" where
  "new_BinaryScoringFunction config =
     BinaryScoringFunction (get_or PosInf (cfg_upper_threshold config)) (get_or NegInf (cfg_lower_threshold config))"

definition new_LinearScoringFunction :: "LinearScoringFunctionConfig \<Rightarrow> scoring_function" where
  "new_LinearScoringFunction config =
     LinearScoringFunction (cfg_threshold config) (cfg_scaling_constant config)"

fun ScoringFunction_EvaluateMetric :: "scoring_function \<Rightarrow> double \<Rightarrow> double" where
  "ScoringFunction_EvaluateMetric (BinaryScoringFunction upper lower) v =
     (if v \<le> upper \<and> lower \<le> v then 1 else - 1)"
| "ScoringFunction_EvaluateMetric (LinearScoringFunction thr k) v = k * (thr - v)"
| "ScoringFunction_EvaluateMetric (OtherScoringFunction f) v = f v"

text \<open>What the adaptive load plugins need from outside: unpacking, printing and plugins of others.\<close>

type_synonym input_variable_setter = "CommandLineOptions \<Rightarrow> double \<Rightarrow> failure + CommandLineOptions status_or"

record adaptive_env =
  unpack_binary :: "opaque \<Rightarrow> BinaryScoringFunctionConfig status_or"
  unpack_linear :: "opaque \<Rightarrow> LinearScoringFunctionConfig status_or"
  unpack_rps :: "opaque \<Rightarrow> unit status_or"
  unpack_exponential :: "opaque \<Rightarrow> ExponentialSearchStepControllerConfig status_or"
  other_scoring :: "scoring_function registry"
  other_setters :: "input_variable_setter registry"
  print_double :: "double \<Rightarrow> string"

definition BinaryScoringFunctionConfigFactory :: "adaptive_env \<Rightarrow> scoring_function plugin_factory" where
  "BinaryScoringFunctionConfigFactory A =
     \<lparr>ValidateConfig_of = accept_config,
      create_of = unpack_or_throw (unpack_binary A) (\<lambda>config. Inr (new_BinaryScoringFunction config))\<rparr>"

definition LinearScoringFunctionConfigFactory :: "adaptive_env \<Rightarrow> scoring_function plugin_factory" where
  "LinearScoringFunctionConfigFactory A =
     \<lparr>ValidateConfig_of = accept_config,
      create_of = unpack_or_throw (unpack_linear A) (\<lambda>config. Inr (new_LinearScoringFunction config))\<rparr>"

definition scoring_registry :: "adaptive_env \<Rightarrow> scoring_function registry" where
  "scoring_registry A name =
     (if name = ''nighthawk.binary_scoring'' then Inr (BinaryScoringFunctionConfigFactory A)
      else if name = ''nighthawk.linear_scoring'' then Inr (LinearScoringFunctionConfigFactory A)
      else other_scoring A name)"

definition LoadScoringFunctionPlugin :: "adaptive_env \<Rightarrow> TypedExtensionConfig \<Rightarrow> failure + scoring_function status_or" where
  "LoadScoringFunctionPlugin A = load_plugin (scoring_registry A)"

section \<open>The setter of the request rate\<close>

text \<open>
  The cast to \<^verbatim>\<open>unsigned int\<close> truncates; of a NaN, which passes both comparisons, it is undefined.
\<close>

definition RequestsPerSecond_SetInputVariable :: "(double \<Rightarrow> string) \<Rightarrow> input_variable_setter" where
  "RequestsPerSecond_SetInputVariable print command_line_options input_value =
     (if input_value < 0 \<or> Fin 4294967295 < input_value
      then Inr (Inl (Status kInternal
        (''Input value out of range for uint32 requests_per_second: '' @ print input_value)))
      else case input_value of
        Fin x \<Rightarrow> Inr (Inr (command_line_options\<lparr>p_requests_per_second := Some (word_of_int (truncate_rat x))\<rparr>))
      | _ \<Rightarrow> Inl (UndefinedBehaviour ''conversion of a NaN to unsigned int''))"

definition RequestsPerSecondInputVariableSetterConfigFactory :: "adaptive_env \<Rightarrow> input_variable_setter plugin_factory" where
  "RequestsPerSecondInputVariableSetterConfigFactory A =
     \<lparr>ValidateConfig_of = accept_config,
      create_of = unpack_or_throw (unpack_rps A) (\<lambda>_. Inr (RequestsPerSecond_SetInputVariable (print_double A)))\<rparr>"

definition setter_registry :: "adaptive_env \<Rightarrow> input_variable_setter registry" where
  "setter_registry A name =
     (if name = ''nighthawk.rps'' then Inr (RequestsPerSecondInputVariableSetterConfigFactory A)
      else other_setters A name)"

definition LoadInputVariableSetterPlugin :: "adaptive_env \<Rightarrow> TypedExtensionConfig \<Rightarrow> failure + input_variable_setter status_or" where
  "LoadInputVariableSetterPlugin A = load_plugin (setter_registry A)"

section \<open>The exponential search\<close>

record ExponentialSearchStepController =
  command_line_options_template :: CommandLineOptions
  input_variable_setter :: input_variable_setter
  is_range_finding_phase :: bool
  exponential_factor :: double
  previous_load_value :: double
  current_load_value :: double
  bottom_load_value :: double
  top_load_value :: double
  doom_reason :: string

definition TotalScore :: "BenchmarkResult \<Rightarrow> double" where
  "TotalScore benchmark_result =
     (if \<exists>evaluation \<in> set (metric_evaluations benchmark_result). 0 < weight evaluation \<and> threshold_score evaluation < 0
      then - 1 else 1)"

definition new_ExponentialSearchStepController ::
    "adaptive_env \<Rightarrow> ExponentialSearchStepControllerConfig \<Rightarrow> CommandLineOptions
      \<Rightarrow> failure + ExponentialSearchStepController" where
  "new_ExponentialSearchStepController A config template =
     (let make = (\<lambda>setter.
            \<lparr>command_line_options_template = template, input_variable_setter = setter,
             is_range_finding_phase = True,
             exponential_factor = (if 0 < cfg_exponential_factor config then cfg_exponential_factor config else Fin 2),
             previous_load_value = NaN, current_load_value = cfg_initial_value config,
             bottom_load_value = NaN, top_load_value = NaN, doom_reason = []\<rparr>)
      in case cfg_input_variable_setter config of
           None \<Rightarrow> Inr (make (RequestsPerSecond_SetInputVariable (print_double A)))
         | Some c \<Rightarrow>
             (case LoadInputVariableSetterPlugin A c of
                Inl f \<Rightarrow> Inl f
              | Inr (Inl st) \<Rightarrow> Inl (ReleaseAssertFailure
                  (''InputVariableSetter plugin loading error should have been caught during input validation: '' @ message st))
              | Inr (Inr setter) \<Rightarrow> Inr (make setter)))"

definition GetCurrentCommandLineOptions :: "ExponentialSearchStepController \<Rightarrow> failure + CommandLineOptions status_or" where
  "GetCurrentCommandLineOptions s =
     input_variable_setter s (command_line_options_template s) (current_load_value s)"

definition IsConverged :: "ExponentialSearchStepController \<Rightarrow> bool" where
  "IsConverged s \<longleftrightarrow>
     doom_reason s = [] \<and> \<not> is_range_finding_phase s
     \<and> \<bar>current_load_value s div previous_load_value s - 1\<bar> < to_double (1 / 100)"

text \<open>The reason is returned when there is one.\<close>

definition IsDoomed :: "ExponentialSearchStepController \<Rightarrow> string option" where
  "IsDoomed s = (if doom_reason s = [] then None else Some (doom_reason s))"

definition initial_load_doom :: string where
  "initial_load_doom =
     ''ExponentialSearchStepController cannot continue if the metrics values already exceed ''
     @ ''metric thresholds with the initial load. Check the initial load value in the ''
     @ ''ExponentialSearchStepControllerConfig, requested metrics, and thresholds.''"

definition IterateRangeFindingPhase :: "double \<Rightarrow> ExponentialSearchStepController \<Rightarrow> ExponentialSearchStepController" where
  "IterateRangeFindingPhase score s =
     (if 0 < score
      then s\<lparr>previous_load_value := current_load_value s,
             current_load_value := current_load_value s * exponential_factor s\<rparr>
      else if isnan (previous_load_value s) then s\<lparr>doom_reason := initial_load_doom\<rparr>
      else s\<lparr>is_range_finding_phase := False,
             bottom_load_value := previous_load_value s,
             top_load_value := current_load_value s,
             previous_load_value := current_load_value s,
             current_load_value := (previous_load_value s + current_load_value s) div Fin 2\<rparr>)"

definition IterateBinarySearchPhase :: "double \<Rightarrow> ExponentialSearchStepController \<Rightarrow> ExponentialSearchStepController" where
  "IterateBinarySearchPhase score s =
     (let s1 = (if 0 < score then s\<lparr>bottom_load_value := current_load_value s\<rparr>
                else s\<lparr>top_load_value := current_load_value s\<rparr>)
      in s1\<lparr>previous_load_value := current_load_value s1,
            current_load_value := (bottom_load_value s1 + top_load_value s1) div Fin 2\<rparr>)"

definition UpdateAndRecompute :: "BenchmarkResult \<Rightarrow> ExponentialSearchStepController \<Rightarrow> ExponentialSearchStepController" where
  "UpdateAndRecompute benchmark_result s =
     (let score = TotalScore benchmark_result
      in if is_range_finding_phase s then IterateRangeFindingPhase score s
         else IterateBinarySearchPhase score s)"

definition ExponentialSearch_ValidateConfig :: "adaptive_env \<Rightarrow> opaque \<Rightarrow> failure + status" where
  "ExponentialSearch_ValidateConfig A any =
     (case unpack_exponential A any of
        Inl st \<Rightarrow> Inr st
      | Inr config \<Rightarrow>
          (case cfg_input_variable_setter config of
             None \<Rightarrow> Inr OkStatus
           | Some c \<Rightarrow> map_sum id (\<lambda>r. case r of Inl st \<Rightarrow> st | Inr _ \<Rightarrow> OkStatus) (LoadInputVariableSetterPlugin A c)))"

definition ExponentialSearchStepControllerConfigFactory ::
    "adaptive_env \<Rightarrow> CommandLineOptions \<Rightarrow> ExponentialSearchStepController plugin_factory" where
  "ExponentialSearchStepControllerConfigFactory A template =
     \<lparr>ValidateConfig_of = ExponentialSearch_ValidateConfig A,
      create_of = unpack_or_throw (unpack_exponential A)
        (\<lambda>config. new_ExponentialSearchStepController A config template)\<rparr>"

section \<open>Loads and midpoints\<close>

text \<open>The loads for which the floating-point arithmetic of the search is analysed.\<close>

definition load_floor :: rat where
  "load_floor = 2 powi (-1000)"

definition load_limit :: rat where
  "load_limit = 2 ^ 1000"

lemma load_floor_pos: "0 < load_floor" "2 powi (-1022) \<le> load_floor"
  unfolding load_floor_def by (rule pow2_pos, rule pow2_mono) simp

lemma load_limit_le: "2 * load_limit \<le> 2 ^ 1023" "0 < load_limit" "rnd load_limit = load_limit"
  unfolding load_limit_def using rnd_grid [of 1 1000] by simp_all

text \<open>The midpoint of two loads is their rounded exact midpoint.\<close>

lemma midpoint:
  assumes "load_floor \<le> b" "b \<le> t" "t \<le> load_limit"
  shows "(Fin b + Fin t) div Fin 2 = Fin (rnd ((b + t) / 2))"
proof -
  let ?m = "(b + t) / 2"
  have "0 < b" "0 < t" "load_floor * 2 \<le> b + t" "b + t \<le> load_limit * 2" using assms load_floor_pos by linarith+
  moreover from this have "load_floor \<le> ?m" "?m \<le> load_limit" by simp_all
  ultimately have *: "0 < b" "0 < t" "load_floor \<le> ?m" "?m \<le> load_limit" by blast+
  then have "2 powi (-1022) \<le> \<bar>?m\<bar>" using load_floor_pos by linarith
  then have "rnd (2 * ?m) = 2 * rnd ?m" by (rule rnd_twice)
  moreover have "2 * ?m = b + t" by simp
  ultimately have half: "rnd (b + t) = 2 * rnd ?m" by metis
  have "\<bar>b + t\<bar> \<le> 2 ^ 1023" using assms *(1,2) load_limit_le(1) by linarith
  moreover have "\<bar>rnd ?m\<bar> \<le> 2 ^ 1023"
    using rnd_nonneg [of ?m] rnd_mono [OF *(4)] *(3) load_floor_pos load_limit_le by linarith
  ultimately show ?thesis by (simp add: dbl_defs to_double_Fin half)
qed

lemma midpoint_between:
  assumes "rnd b = b" "rnd t = t" "b \<le> t"
  shows "b \<le> rnd ((b + t) / 2)" "rnd ((b + t) / 2) \<le> t"
  using rnd_mono [of b "(b + t) / 2"] rnd_mono [of "(b + t) / 2" t] assms by simp_all

primrec controller_after ::
    "ExponentialSearchStepController \<Rightarrow> (nat \<Rightarrow> BenchmarkResult) \<Rightarrow> nat \<Rightarrow> ExponentialSearchStepController" where
  "controller_after s rs 0 = s"
| "controller_after s rs (Suc n) = UpdateAndRecompute (rs n) (controller_after s rs n)"

lemma TotalScore_cases: "TotalScore r = 1 \<or> TotalScore r = - 1"
  by (simp add: TotalScore_def)

lemma signs [simp]: "(0 :: double) < 1" "\<not> (0 :: double) < - 1" "(- 1 :: double) < 0" "\<not> (1 :: double) < 0"
  by (simp_all add: dbl_defs)

lemma new_controller:
  "new_ExponentialSearchStepController A config template = Inr s \<Longrightarrow>
   is_range_finding_phase s \<and> doom_reason s = [] \<and> previous_load_value s = NaN
   \<and> current_load_value s = cfg_initial_value config
   \<and> exponential_factor s = (if 0 < cfg_exponential_factor config then cfg_exponential_factor config else Fin 2)"
  by (auto simp: new_ExponentialSearchStepController_def Let_def split: option.splits sum.splits)

text \<open>A load that was tested at step \<open>i\<close> with the given score.\<close>

definition tested :: "ExponentialSearchStepController \<Rightarrow> (nat \<Rightarrow> BenchmarkResult) \<Rightarrow> nat \<Rightarrow> double \<Rightarrow> double \<Rightarrow> bool" where
  "tested s rs n load score \<longleftrightarrow>
     (\<exists>i < n. current_load_value (controller_after s rs i) = load \<and> TotalScore (rs i) = score)"

definition sane_load :: "double \<Rightarrow> bool" where
  "sane_load d \<longleftrightarrow> (case d of Fin x \<Rightarrow> rnd x = x \<and> load_floor \<le> x \<and> x \<le> load_limit | _ \<Rightarrow> False)"

definition bracketed :: "ExponentialSearchStepController \<Rightarrow> (nat \<Rightarrow> BenchmarkResult) \<Rightarrow> nat \<Rightarrow> bool" where
  "bracketed s0 rs n \<longleftrightarrow>
     (let s = controller_after s0 rs n in
      tested s0 rs n (bottom_load_value s) 1 \<and> tested s0 rs n (top_load_value s) (- 1)
      \<and> sane_load (bottom_load_value s) \<and> sane_load (top_load_value s)
      \<and> bottom_load_value s \<le> current_load_value s \<and> current_load_value s \<le> top_load_value s)"

definition search_inv :: "ExponentialSearchStepController \<Rightarrow> (nat \<Rightarrow> BenchmarkResult) \<Rightarrow> nat \<Rightarrow> bool" where
  "search_inv s0 rs n \<longleftrightarrow>
     (let s = controller_after s0 rs n in
      exponential_factor s = exponential_factor s0 \<and> sane_load (current_load_value s) \<and>
      (if is_range_finding_phase s
       then previous_load_value s = NaN
            \<or> tested s0 rs n (previous_load_value s) 1 \<and> sane_load (previous_load_value s)
              \<and> previous_load_value s \<le> current_load_value s
       else bracketed s0 rs n))"

lemma tested_Suc: "tested s rs n l v \<Longrightarrow> tested s rs (Suc n) l v"
  by (auto simp: tested_def intro: less_SucI)

lemma tested_now: "TotalScore (rs n) = v \<Longrightarrow> tested s rs (Suc n) (current_load_value (controller_after s rs n)) v"
  by (auto simp: tested_def)

lemma sane_midpoint:
  assumes "sane_load x" "sane_load y" "x \<le> y"
  shows "sane_load ((x + y) div Fin 2) \<and> x \<le> (x + y) div Fin 2 \<and> (x + y) div Fin 2 \<le> y"
proof -
  obtain b t where xy: "x = Fin b" "y = Fin t" using assms by (auto simp: sane_load_def split: double.splits)
  then have bt: "rnd b = b" "rnd t = t" "b \<le> t" "load_floor \<le> b" "t \<le> load_limit"
    using assms by (simp_all add: sane_load_def)
  let ?m = "rnd ((b + t) / 2)"
  have m: "b \<le> ?m" "?m \<le> t" using midpoint_between [OF bt(1-3)] by simp_all
  then have "load_floor \<le> ?m" "?m \<le> load_limit" using bt by linarith+
  then show ?thesis using m by (simp add: xy midpoint [OF bt(4,3,5)] sane_load_def)
qed

lemma raised_load:
  assumes "sane_load x" "1 \<le> f" "x * Fin f \<le> Fin load_limit"
  shows "sane_load (x * Fin f) \<and> x \<le> x * Fin f"
proof -
  obtain b where x: "x = Fin b" "rnd b = b" "load_floor \<le> b" "b \<le> load_limit"
    using assms(1) by (auto simp: sane_load_def split: double.splits)
  have "0 < b" using x(3) load_floor_pos(1) by linarith
  then have "b \<le> b * f" using assms(2) by simp
  then have le: "b \<le> rnd (b * f)" using rnd_mono [of b "b * f"] x(2) by simp
  have "x * Fin f = Fin (rnd (b * f))"
    using assms(3) \<open>0 < b\<close> le unfolding x(1) by (auto simp: dbl_defs to_double_def Let_def split: if_splits)
  moreover have "load_floor \<le> rnd (b * f)" using x(3) le by linarith
  ultimately show ?thesis using assms(3) le x(1) by (simp add: sane_load_def)
qed

lemma search_inv_step:
  assumes inv: "search_inv s0 rs n" and f: "exponential_factor s0 = Fin f" "1 \<le> f"
    and le: "current_load_value (controller_after s0 rs (Suc n)) \<le> Fin load_limit"
  shows "search_inv s0 rs (Suc n)"
proof -
  let ?s = "controller_after s0 rs n"
  have sane: "sane_load (current_load_value ?s)" and ef: "exponential_factor ?s = Fin f"
    using inv f by (simp_all add: search_inv_def Let_def)
  have score: "TotalScore (rs n) = 1 \<or> TotalScore (rs n) = - 1" by (rule TotalScore_cases)
  have now: "tested s0 rs (Suc n) (current_load_value ?s) (TotalScore (rs n))" by (rule tested_now) simp
  show ?thesis
  proof (cases "is_range_finding_phase ?s")
    case True
    show ?thesis
    proof (cases "TotalScore (rs n) = 1")
      case up: True
      have "current_load_value ?s * Fin f \<le> Fin load_limit"
        using le True up ef by (simp add: UpdateAndRecompute_def IterateRangeFindingPhase_def)
      then show ?thesis
        using raised_load [OF sane f(2)] sane True up ef f now
        by (simp add: search_inv_def UpdateAndRecompute_def IterateRangeFindingPhase_def)
    next
      case False
      then have down: "TotalScore (rs n) = - 1" using score by simp
      show ?thesis
      proof (cases "previous_load_value ?s = NaN")
        case nan: True
        then show ?thesis using True down sane ef f
          by (simp add: search_inv_def UpdateAndRecompute_def IterateRangeFindingPhase_def)
      next
        case prev: False
        then have prev': "\<not> isnan (previous_load_value ?s)" by (cases "previous_load_value ?s") simp_all
        have p: "tested s0 rs n (previous_load_value ?s) 1" "sane_load (previous_load_value ?s)"
            "previous_load_value ?s \<le> current_load_value ?s"
          using inv True prev by (simp_all add: search_inv_def Let_def)
        show ?thesis
          using sane_midpoint [OF p(2) sane p(3)] p(2) sane tested_Suc [OF p(1)] now True down prev' ef f
          by (simp add: search_inv_def bracketed_def UpdateAndRecompute_def IterateRangeFindingPhase_def)
      qed
    qed
  next
    case False
    then have br: "bracketed s0 rs n" using inv by (simp add: search_inv_def Let_def)
    note b = br [unfolded bracketed_def Let_def]
    show ?thesis
    proof (cases "TotalScore (rs n) = 1")
      case True
      then show ?thesis
        using b sane sane_midpoint [of "current_load_value ?s" "top_load_value ?s"] now False ef f
        by (simp add: search_inv_def bracketed_def UpdateAndRecompute_def IterateBinarySearchPhase_def Let_def tested_Suc)
    next
      case down: False
      then have "TotalScore (rs n) = - 1" using score by simp
      then show ?thesis
        using b sane sane_midpoint [of "bottom_load_value ?s" "current_load_value ?s"] now False ef f
        by (simp add: search_inv_def bracketed_def UpdateAndRecompute_def IterateBinarySearchPhase_def Let_def tested_Suc)
    qed
  qed
qed

lemma search_inv_holds:
  assumes "new_ExponentialSearchStepController A config template = Inr s0"
    and "sane_load (cfg_initial_value config)" "exponential_factor s0 = Fin f" "1 \<le> f"
    and "\<And>m. m \<le> n \<Longrightarrow> current_load_value (controller_after s0 rs m) \<le> Fin load_limit"
  shows "search_inv s0 rs n"
  using assms(5)
proof (induction n)
  case 0
  then show ?case using new_controller [OF assms(1)] assms(2) by (simp add: search_inv_def)
next
  case (Suc n)
  show ?case by (rule search_inv_step [OF _ assms(3,4)]) (simp_all only: Suc order_refl le_SucI)
qed


section \<open>Convergence\<close>

text \<open>
  After \<open>j\<close> steps of the binary search that started on an interval from \<open>b0\<close> to at most twice \<open>b0\<close>: the
  width is at most \<open>b0 / 2 ^ j\<close> up to the rounding of the midpoints.
\<close>

definition narrowed :: "rat \<Rightarrow> nat \<Rightarrow> ExponentialSearchStepController \<Rightarrow> bool" where
  "narrowed b0 j s \<longleftrightarrow>
     \<not> is_range_finding_phase s \<and> doom_reason s = [] \<and>
     (\<exists>b t. bottom_load_value s = Fin b \<and> top_load_value s = Fin t \<and> rnd b = b \<and> rnd t = t
        \<and> b0 \<le> b \<and> b \<le> t \<and> t \<le> 2 * b0 \<and> t - b \<le> b0 / 2 ^ j + 4 * roundoff * b0
        \<and> current_load_value s = Fin (rnd ((b + t) / 2))
        \<and> previous_load_value s \<in> {Fin b, Fin t})"

lemma midpoint_error:
  assumes "load_floor \<le> b" "b \<le> t"
  shows "\<bar>rnd ((b + t) / 2) - (b + t) / 2\<bar> \<le> roundoff * t"
proof -
  let ?m = "(b + t) / 2"
  have m: "load_floor \<le> ?m" "?m \<le> t" using assms by simp_all
  then have "2 powi (-1022) \<le> ?m" "0 < ?m" using load_floor_pos by linarith+
  then have "\<bar>rnd ?m - ?m\<bar> \<le> 2 powi (-53) * ?m" using rnd_rel_err [of ?m] by simp
  also have "2 powi (-53) * ?m = roundoff * ?m" by (simp add: power_int_minus)
  also have "\<dots> \<le> roundoff * t" using m(2) by (intro mult_left_mono) simp_all
  finally show ?thesis .
qed

lemma narrowed_step:
  assumes "narrowed b0 j s" "load_floor \<le> b0" "2 * b0 \<le> load_limit"
  shows "narrowed b0 (Suc j) (UpdateAndRecompute r s)"
proof -
  obtain b t where s: "\<not> is_range_finding_phase s" "doom_reason s = []"
    "bottom_load_value s = Fin b" "top_load_value s = Fin t" "rnd b = b" "rnd t = t"
    "b0 \<le> b" "b \<le> t" "t \<le> 2 * b0" "t - b \<le> b0 / 2 ^ j + 4 * roundoff * b0"
    "current_load_value s = Fin (rnd ((b + t) / 2))"
    using assms(1) by (auto simp: narrowed_def)
  define m where "m = rnd ((b + t) / 2)"
  have m: "b \<le> m" "m \<le> t" "rnd m = m" using midpoint_between [OF s(5,6,8)] by (simp_all add: m_def)
  have floor: "load_floor \<le> b" "t \<le> load_limit" using s(7-9) assms(2,3) by linarith+
  define e where "e = roundoff * b0"
  define q where "q = b0 / 2 ^ Suc j"
  have eq: "4 * roundoff * b0 = 4 * e" "b0 / 2 ^ j = 2 * q" by (simp_all add: e_def q_def)
  have "\<bar>m - (b + t) / 2\<bar> \<le> roundoff * t" unfolding m_def using midpoint_error [OF floor(1) s(8)] .
  also have "\<dots> \<le> roundoff * (2 * b0)" using s(9) by (intro mult_left_mono) simp_all
  also have "\<dots> = 2 * e" by (simp add: e_def)
  finally have err: "2 * m - (b + t) \<le> 4 * e" "(b + t) - 2 * m \<le> 4 * e"
    by (simp_all add: abs_le_iff field_simps)
  have "t - b \<le> 2 * q + 4 * e" using s(10) unfolding eq .
  then have "m - b \<le> q + 4 * e" "t - m \<le> q + 4 * e" using err by linarith+
  then have width: "m - b \<le> b0 / 2 ^ Suc j + 4 * roundoff * b0" "t - m \<le> b0 / 2 ^ Suc j + 4 * roundoff * b0"
    unfolding eq(1) q_def by simp_all
  have up: "(Fin m + Fin t) div Fin 2 = Fin (rnd ((m + t) / 2))" and down: "(Fin b + Fin m) div Fin 2 = Fin (rnd ((b + m) / 2))"
    using m floor by (intro midpoint; linarith)+
  show ?thesis
  proof (cases "TotalScore r = 1")
    case True
    then show ?thesis using s m width up
      by (simp add: narrowed_def UpdateAndRecompute_def IterateBinarySearchPhase_def Let_def flip: m_def)
  next
    case False
    then have "TotalScore r = - 1" using TotalScore_cases by blast
    then show ?thesis using s m width down
      by (simp add: narrowed_def UpdateAndRecompute_def IterateBinarySearchPhase_def Let_def flip: m_def)
  qed
qed

lemma close_ratio:
  assumes "0 < p" "\<bar>c - p\<bar> \<le> 9 / 1024 * p"
  shows "\<bar>Fin c div Fin p - 1\<bar> < to_double (1 / 100)"
proof -
  have "c - p \<le> 9 / 1024 * p" "p - c \<le> 9 / 1024 * p" using assms(2) by (simp_all only: abs_le_iff minus_diff_eq)
  then have "1 - 9 / 1024 \<le> c / p" "c / p \<le> 1 + 9 / 1024" using assms(1) by (simp_all add: field_simps)
  then have "rnd (1015 / 1024) \<le> rnd (c / p)" "rnd (c / p) \<le> rnd (1033 / 1024)" by (intro rnd_mono; simp)+
  moreover have "rnd (1015 / 1024) = 1015 / 1024" "rnd (1033 / 1024) = 1033 / 1024" "rnd (9 / 1024) = 9 / 1024"
      "rnd (10 / 1024) = 10 / 1024" "rnd (- 9 / 1024) = - 9 / 1024"
    using rnd_grid [of 1015 "-10"] rnd_grid [of 1033 "-10"] rnd_grid [of 9 "-10"] rnd_grid [of 10 "-10"] rnd_grid [of "-9" "-10"]
    by (simp_all add: power_int_minus)
  ultimately have r: "1015 / 1024 \<le> rnd (c / p)" "rnd (c / p) \<le> 1033 / 1024" by simp_all
  then have "rnd (- 9 / 1024) \<le> rnd (rnd (c / p) - 1)" "rnd (rnd (c / p) - 1) \<le> rnd (9 / 1024)"
    by (intro rnd_mono; simp)+
  then have d: "\<bar>rnd (rnd (c / p) - 1)\<bar> \<le> 9 / 1024"
    using \<open>rnd (9 / 1024) = _\<close> \<open>rnd (- 9 / 1024) = _\<close> by simp
  have "rnd (10 / 1024) \<le> rnd (1 / 100)" by (rule rnd_mono) simp
  then have "9 / 1024 < rnd (1 / 100)" using \<open>rnd (10 / 1024) = _\<close> by simp
  moreover have "\<bar>c / p\<bar> \<le> 2" "\<bar>rnd (c / p) - 1\<bar> \<le> 2"
    using \<open>1 - 9 / 1024 \<le> c / p\<close> \<open>c / p \<le> 1 + 9 / 1024\<close> r unfolding abs_le_iff by linarith+
  moreover have "to_double (1 / 100) = Fin (rnd (1 / 100))" by (rule to_double_small) simp
  ultimately show ?thesis using assms(1) d by (simp add: dbl_defs to_double_small)
qed

lemma narrowed_converged:
  assumes "narrowed b0 7 s" "load_floor \<le> b0"
  shows "IsConverged s"
proof -
  obtain b t p where s: "\<not> is_range_finding_phase s" "doom_reason s = []" "rnd b = b" "rnd t = t"
    "b0 \<le> b" "b \<le> t" "t - b \<le> b0 / 2 ^ 7 + 4 * roundoff * b0"
    "current_load_value s = Fin (rnd ((b + t) / 2))" "previous_load_value s = Fin p" "p \<in> {b, t}"
    using assms(1) by (auto simp: narrowed_def)
  let ?c = "rnd ((b + t) / 2)"
  have "0 < b0" using assms(2) load_floor_pos by linarith
  have "\<bar>?c - p\<bar> \<le> t - b" using midpoint_between [OF s(3,4,6)] s(10) by (auto simp: abs_le_iff)
  also have "\<dots> \<le> 9 / 1024 * b0" using s(7) \<open>0 < b0\<close> by simp
  also have "\<dots> \<le> 9 / 1024 * p" using s(5,6,10) by auto
  finally show ?thesis using close_ratio [of p ?c] s \<open>0 < b0\<close> by (auto simp: IsConverged_def)
qed


lemma narrowed_run:
  assumes "narrowed b0 0 (controller_after s0 rs n)" "load_floor \<le> b0" "2 * b0 \<le> load_limit"
  shows "narrowed b0 j (controller_after s0 rs (n + j))"
  using assms by (induction j) (simp_all add: narrowed_step)

lemma doubled_load:
  assumes "rnd x = x" "load_floor \<le> x" "x \<le> load_limit"
  shows "Fin x * Fin 2 = Fin (2 * x)" "rnd (2 * x) = 2 * x"
proof -
  have x: "0 < x" "2 powi (-1022) \<le> \<bar>x\<bar>" using assms(2) load_floor_pos by linarith+
  then show "rnd (2 * x) = 2 * x" using rnd_twice [of x] assms(1) by simp
  moreover have "\<bar>2 * x\<bar> \<le> 2 ^ 1023" using x assms(3) load_limit_le(1) by linarith
  ultimately show "Fin x * Fin 2 = Fin (2 * x)" by (simp add: dbl_defs to_double_Fin mult.commute)
qed

lemma range_phase:
  assumes "new_ExponentialSearchStepController A config template = Inr s0" "exponential_factor s0 = Fin 2"
    and "cfg_initial_value config = Fin v" "rnd v = v" "load_floor \<le> v" "v * 2 ^ m \<le> load_limit"
    and "\<And>i. i < m \<Longrightarrow> TotalScore (rs i) = 1"
  shows "is_range_finding_phase (controller_after s0 rs m) \<and> doom_reason (controller_after s0 rs m) = []
    \<and> exponential_factor (controller_after s0 rs m) = Fin 2
    \<and> current_load_value (controller_after s0 rs m) = Fin (v * 2 ^ m) \<and> rnd (v * 2 ^ m) = v * 2 ^ m
    \<and> previous_load_value (controller_after s0 rs m) = (if m = 0 then NaN else Fin (v * 2 ^ (m - 1)))"
  using assms(6,7)
proof (induction m)
  case 0
  then show ?case using new_controller [OF assms(1)] assms(2-4) by simp
next
  case (Suc m)
  have v: "0 < v" using assms(5) load_floor_pos by linarith
  then have "v * 2 ^ m \<le> v * 2 ^ Suc m" by simp
  then have m: "v * 2 ^ m \<le> load_limit" using Suc.prems(1) by linarith
  have "v * 1 \<le> v * 2 ^ m" using v by (intro mult_left_mono) simp_all
  then have floor: "load_floor \<le> v * 2 ^ m" using assms(5) by simp
  have IH: "is_range_finding_phase (controller_after s0 rs m)" "doom_reason (controller_after s0 rs m) = []"
      "exponential_factor (controller_after s0 rs m) = Fin 2"
      "current_load_value (controller_after s0 rs m) = Fin (v * 2 ^ m)" "rnd (v * 2 ^ m) = v * 2 ^ m"
    using Suc.IH [OF m] Suc.prems(2) by simp_all
  have eq: "v * 2 ^ Suc m = 2 * (v * 2 ^ m)" by simp
  show ?case unfolding eq using IH doubled_load [OF IH(5) floor m] Suc.prems(2) [of m]
    by (simp add: UpdateAndRecompute_def IterateRangeFindingPhase_def)
qed

text \<open>The whole search.\<close>

lemma search_ends:
  assumes "new_ExponentialSearchStepController A config template = Inr s0" "exponential_factor s0 = Fin 2"
    and "cfg_initial_value config = Fin v" "rnd v = v" "load_floor \<le> v" "v * 2 ^ k \<le> load_limit" "L < v * 2 ^ k"
    and fails: "\<And>n l. current_load_value (controller_after s0 rs n) = Fin l \<Longrightarrow> L < l \<Longrightarrow> TotalScore (rs n) < 0"
  shows "\<exists>n \<le> k + 8. IsConverged (controller_after s0 rs n) \<or> IsDoomed (controller_after s0 rs n) \<noteq> None"
proof -
  have v: "0 < v" using assms(5) load_floor_pos by linarith
  have le: "v * 2 ^ m \<le> load_limit" if "m \<le> k" for m
  proof -
    have "v * 2 ^ m \<le> v * 2 ^ k" using v that by (intro mult_left_mono power_increasing) simp_all
    then show ?thesis using assms(6) by linarith
  qed
  note phase = range_phase [where rs = rs, OF assms(1-5) le]
  have "\<exists>m. m \<le> k \<and> TotalScore (rs m) = - 1"
  proof (rule ccontr)
    assume "\<not> ?thesis"
    then have good: "TotalScore (rs i) = 1" if "i \<le> k" for i using TotalScore_cases that by blast
    then have "current_load_value (controller_after s0 rs k) = Fin (v * 2 ^ k)" using phase [of k] by simp
    then show False using fails assms(7) good [of k] by fastforce
  qed
  then obtain m where m: "m \<le> k" "TotalScore (rs m) = - 1" "\<And>i. i < m \<Longrightarrow> TotalScore (rs i) \<noteq> - 1"
    using exists_least_iff [of "\<lambda>m. m \<le> k \<and> TotalScore (rs m) = - 1"] by (meson le_trans less_imp_le)
  then have good: "TotalScore (rs i) = 1" if "i < m" for i using that TotalScore_cases by blast
  let ?s = "controller_after s0 rs m"
  have s: "is_range_finding_phase ?s" "doom_reason ?s = []" "current_load_value ?s = Fin (v * 2 ^ m)" "rnd (v * 2 ^ m) = v * 2 ^ m"
      "previous_load_value ?s = (if m = 0 then NaN else Fin (v * 2 ^ (m - 1)))"
    using phase [OF m(1)] good by simp_all
  show ?thesis
  proof (cases "m = 0")
    case True
    then have "IsDoomed (controller_after s0 rs (Suc m)) \<noteq> None" using s m(2)
      by (simp add: UpdateAndRecompute_def IterateRangeFindingPhase_def IsDoomed_def initial_load_doom_def)
    then show ?thesis using True by (intro exI [of _ "Suc m"]) simp
  next
    case False
    define b where "b = v * 2 ^ (m - 1)"
    have t: "v * 2 ^ m = 2 * b" using False by (cases m) (simp_all add: b_def)
    have "v * 1 \<le> b" unfolding b_def using v by (intro mult_left_mono) simp_all
    then have b: "load_floor \<le> b" "2 * b \<le> load_limit" "0 < b" using assms(5) le [OF m(1)] t v by simp_all
    have "rnd b = b" using phase [of "m - 1"] m(1) good by (simp add: b_def)
    moreover have "previous_load_value ?s = Fin b" using s(5) False by (simp add: b_def)
    ultimately have "narrowed b 0 (controller_after s0 rs (Suc m))"
      using s(1-4) [unfolded t] m(2) b midpoint [of b "2 * b"]
      by (simp add: narrowed_def UpdateAndRecompute_def IterateRangeFindingPhase_def)
    then have "narrowed b 7 (controller_after s0 rs (Suc m + 7))" using b(1,2) by (rule narrowed_run)
    then have "IsConverged (controller_after s0 rs (Suc m + 7))" using b(1) by (rule narrowed_converged)
    then show ?thesis using m(1) by (intro exI [of _ "Suc m + 7"]) simp
  qed
qed


text \<open>
  C22. In the binary search phase of the exponential search, the bottom of the interval is a load that was
  tested and met the thresholds, its top is a load that was tested and did not, and the load to test
  next lies between them. This is in the floating-point arithmetic of the code, for an initial load
  that is a binary64 number, a factor of at least one and loads within the analysed range.
\<close>

theorem search_brackets:
  assumes "new_ExponentialSearchStepController A config template = Inr s0"
    and "sane_load (cfg_initial_value config)" "exponential_factor s0 = Fin f" "1 \<le> f"
    and "\<And>m. m \<le> n \<Longrightarrow> current_load_value (controller_after s0 rs m) \<le> Fin load_limit"
    and "\<not> is_range_finding_phase (controller_after s0 rs n)"
  shows "tested s0 rs n (bottom_load_value (controller_after s0 rs n)) 1
    \<and> tested s0 rs n (top_load_value (controller_after s0 rs n)) (- 1)
    \<and> bottom_load_value (controller_after s0 rs n) \<le> current_load_value (controller_after s0 rs n)
    \<and> current_load_value (controller_after s0 rs n) \<le> top_load_value (controller_after s0 rs n)"
proof -
  have "search_inv s0 rs n" by (rule search_inv_holds [OF assms(1-5)])
  then show ?thesis using assms(6) by (simp add: search_inv_def bracketed_def Let_def)
qed

text \<open>
  C21. The exponential search comes to an end. With the factor two, which is the default, and a system
  that does not meet its thresholds under any load above \<open>L\<close>, the controller is converged or doomed
  after at most \<open>k + 8\<close> benchmarks, where \<open>k\<close> doublings take the initial load above \<open>L\<close>, whatever the
  results of the benchmarks at lower loads.
\<close>

theorem search_converges:
  assumes "new_ExponentialSearchStepController A config template = Inr s0" "exponential_factor s0 = Fin 2"
    and "cfg_initial_value config = Fin v" "rnd v = v" "load_floor \<le> v" "v * 2 ^ k \<le> load_limit" "L < v * 2 ^ k"
    and fails: "\<And>n l. current_load_value (controller_after s0 rs n) = Fin l \<Longrightarrow> L < l \<Longrightarrow> TotalScore (rs n) < 0"
  shows "\<exists>n \<le> k + 8. IsConverged (controller_after s0 rs n) \<or> IsDoomed (controller_after s0 rs n) \<noteq> None"
  using assms by (rule search_ends)

text \<open>A concrete search: one request per second is fine, more is not.\<close>

definition plain_adaptive_env :: adaptive_env where
  "plain_adaptive_env =
     \<lparr>unpack_binary = (\<lambda>_. Inr \<lparr>cfg_lower_threshold = None, cfg_upper_threshold = Some 1\<rparr>),
      unpack_linear = (\<lambda>_. Inr \<lparr>cfg_threshold = 0, cfg_scaling_constant = 1\<rparr>),
      unpack_rps = (\<lambda>_. Inr ()),
      unpack_exponential = (\<lambda>_. Inr \<lparr>cfg_input_variable_setter = None, cfg_initial_value = Fin 1, cfg_exponential_factor = 0\<rparr>),
      other_scoring = (\<lambda>_. Inl (EnvoyException ''unknown'')), other_setters = (\<lambda>_. Inl (EnvoyException ''unknown'')),
      print_double = (\<lambda>_. [])\<rparr>"

definition plain_search_config :: ExponentialSearchStepControllerConfig where
  "plain_search_config = \<lparr>cfg_input_variable_setter = None, cfg_initial_value = Fin 1, cfg_exponential_factor = 0\<rparr>"

definition plain_controller :: "CommandLineOptions \<Rightarrow> ExponentialSearchStepController" where
  "plain_controller template =
     \<lparr>command_line_options_template = template, input_variable_setter = RequestsPerSecond_SetInputVariable (\<lambda>_. []),
      is_range_finding_phase = True, exponential_factor = Fin 2, previous_load_value = NaN, current_load_value = Fin 1,
      bottom_load_value = NaN, top_load_value = NaN, doom_reason = []\<rparr>"

lemma plain_controller_new:
  "new_ExponentialSearchStepController plain_adaptive_env plain_search_config template = Inr (plain_controller template)"
  by (simp add: new_ExponentialSearchStepController_def plain_search_config_def plain_controller_def plain_adaptive_env_def)

definition scored_result :: "Output \<Rightarrow> double \<Rightarrow> BenchmarkResult" where
  "scored_result out score =
     \<lparr>nighthawk_service_output = out,
      metric_evaluations = [\<lparr>metric_id = ''builtin/latency'', metric_value = 1, threshold_score = score, weight = 1\<rparr>],
      start_time = zero_duration, end_time = zero_duration\<rparr>"

lemma scored_result_score [simp]: "TotalScore (scored_result out 1) = 1" "TotalScore (scored_result out (- 1)) = - 1"
  by (simp_all add: TotalScore_def scored_result_def)

lemma load_bounds: "load_floor \<le> 1" "1 \<le> load_limit" "2 \<le> load_limit"
  by (simp_all add: load_floor_def load_limit_def power_int_minus inverse_le_1_iff)


text \<open>The output of a run without results.\<close>

definition empty_output :: Output where
  "empty_output = \<lparr>timestamp = zero_duration, out_options = default_CommandLineOptions, results = [], version = (0, 0, 0)\<rparr>"

definition plain_s0 :: ExponentialSearchStepController where
  "plain_s0 = plain_controller default_CommandLineOptions"

definition plain_results :: "nat \<Rightarrow> BenchmarkResult" where
  "plain_results n = scored_result empty_output (if n = 0 then 1 else - 1)"

lemma plain_run:
  "controller_after plain_s0 plain_results 1 = plain_s0\<lparr>previous_load_value := Fin 1, current_load_value := Fin 2\<rparr>"
  "controller_after plain_s0 plain_results 2 =
     plain_s0\<lparr>is_range_finding_phase := False, bottom_load_value := Fin 1, top_load_value := Fin 2,
              previous_load_value := Fin 2, current_load_value := Fin (3 / 2)\<rparr>"
proof -
  have "Fin 1 * Fin 2 = Fin 2" "(Fin 1 + Fin 2) div Fin 2 = Fin (3 / 2)" by (simp_all add: dbl_defs)
  then show
    "controller_after plain_s0 plain_results 1 = plain_s0\<lparr>previous_load_value := Fin 1, current_load_value := Fin 2\<rparr>"
    "controller_after plain_s0 plain_results 2 =
       plain_s0\<lparr>is_range_finding_phase := False, bottom_load_value := Fin 1, top_load_value := Fin 2,
                previous_load_value := Fin 2, current_load_value := Fin (3 / 2)\<rparr>"
    by (simp_all add: numeral_2_eq_2 plain_s0_def plain_controller_def plain_results_def UpdateAndRecompute_def
        IterateRangeFindingPhase_def)
qed

theorem search_brackets_witness:
  "tested plain_s0 plain_results 2 (Fin 1) 1 \<and> tested plain_s0 plain_results 2 (Fin 2) (- 1)
   \<and> bottom_load_value (controller_after plain_s0 plain_results 2) = Fin 1"
proof -
  have "sane_load (cfg_initial_value plain_search_config)"
    by (simp add: sane_load_def plain_search_config_def load_bounds rnd_int [of 1, simplified])
  moreover have "exponential_factor plain_s0 = Fin 2" "(1 :: rat) \<le> 2" by (simp_all add: plain_s0_def plain_controller_def)
  moreover have "current_load_value (controller_after plain_s0 plain_results m) \<le> Fin load_limit" if "m \<le> 2" for m
  proof -
    have "m = 0 \<or> m = 1 \<or> m = 2" using that by linarith
    moreover have "3 / 2 \<le> load_limit" using load_bounds by simp
    ultimately show ?thesis using plain_run load_bounds
      by (auto simp: plain_s0_def plain_controller_def)
  qed
  moreover have "\<not> is_range_finding_phase (controller_after plain_s0 plain_results 2)" by (simp add: plain_run)
  ultimately show ?thesis
    using search_brackets [OF plain_controller_new [of default_CommandLineOptions, folded plain_s0_def], of 2 2 plain_results]
    by (simp add: plain_run)
qed

theorem search_converges_witness:
  "\<exists>n \<le> 9. IsConverged (controller_after plain_s0 plain_results n) \<or> IsDoomed (controller_after plain_s0 plain_results n) \<noteq> None"
proof -
  have "TotalScore (plain_results n) < 0"
    if "current_load_value (controller_after plain_s0 plain_results n) = Fin l" "1 < l" for n l
    using that by (cases "n = 0") (simp_all add: plain_s0_def plain_controller_def plain_results_def)
  then show ?thesis
    using search_converges [OF plain_controller_new [of default_CommandLineOptions, folded plain_s0_def], of 1 1 1 plain_results]
    by (simp add: plain_s0_def plain_controller_def plain_search_config_def load_bounds rnd_int [of 1, simplified])
qed

end
