(* ===== verification/AdaptiveLoad.thy ===== *)
theory AdaptiveLoad
  imports StepController
begin

text \<open>
  The adaptive load session (\<^verbatim>\<open>source/adaptive_load\<close>): the metrics computed from a run
  (\<^verbatim>\<open>metrics_plugin_impl.cc\<close>), their evaluation (\<^verbatim>\<open>metrics_evaluator_impl.cc\<close>), the defaults and checks of
  a specification (\<^verbatim>\<open>session_spec_proto_helper_impl.cc\<close>), the client of the Nighthawk service
  (\<^verbatim>\<open>source/common/nighthawk_service_client_impl.cc\<close>) and the controller
  (\<^verbatim>\<open>adaptive_load_controller_impl.cc\<close>).

  The session is generic in the step controller, which it uses through four operations. What happens
  outside is a \<open>session_world\<close>, indexed by the number of the benchmark: the service's stream, the
  clocks and the answers of metrics plugins of others.
\<close>

section \<open>Messages\<close>

record MetricSpec =
  metric_name :: string
  metrics_plugin_name :: string

record ThresholdSpec =
  ts_scoring_function :: TypedExtensionConfig
  ts_weight :: "double option"

record MetricSpecWithThreshold =
  mst_metric_spec :: MetricSpec
  mst_threshold_spec :: ThresholdSpec

record AdaptiveLoadSessionSpec =
  metrics_plugin_configs :: "TypedExtensionConfig list"
  metric_thresholds :: "MetricSpecWithThreshold list"
  informational_metric_specs :: "MetricSpec list"
  nighthawk_traffic_template :: CommandLineOptions
  measuring_period :: "proto_duration option"
  convergence_deadline :: "proto_duration option"
  testing_stage_duration :: "proto_duration option"
  benchmark_cooldown_duration :: "proto_duration option"
  step_controller_config :: TypedExtensionConfig

record AdaptiveLoadSessionOutput =
  adjusting_stage_results :: "BenchmarkResult list"
  testing_stage_result :: "BenchmarkResult option"
  output_metric_thresholds :: "MetricSpecWithThreshold list"

record ExecutionResponse =
  response_output :: Output
  error_detail :: status

record ReportingPeriod =
  period_start :: proto_duration
  period_duration :: proto_duration

text \<open>
  A metrics plugin; its answers depend on when it is asked, which is represented by the number of the
  benchmark.
\<close>

record metrics_plugin =
  GetMetricByName_of :: "nat \<Rightarrow> string \<Rightarrow> double status_or"
  GetMetricByNameWithReportingPeriod_of :: "nat \<Rightarrow> string \<Rightarrow> ReportingPeriod \<Rightarrow> double status_or"
  GetAllSupportedMetricNames_of :: "string list"

text \<open>
  Protobuf's arithmetic on durations and timestamps, its generated validation, the metrics plugins of
  others and the printing of codes and numbers.
\<close>

record session_env =
  plugins :: adaptive_env
  other_metrics :: "metrics_plugin registry"
  validate_spec :: "AdaptiveLoadSessionSpec \<Rightarrow> string option"
  duration_s :: "proto_duration \<Rightarrow> int"
  duration_ms :: "proto_duration \<Rightarrow> int"
  duration_ns :: "proto_duration \<Rightarrow> int"
  time_plus :: "proto_duration \<Rightarrow> proto_duration \<Rightarrow> proto_duration"
  time_minus :: "proto_duration \<Rightarrow> proto_duration \<Rightarrow> proto_duration"
  time_less :: "proto_duration \<Rightarrow> proto_duration \<Rightarrow> bool"
  systemClockToTimestamp :: "int \<Rightarrow> proto_duration"
  print_code :: "status_code \<Rightarrow> string"
  print_fixed2 :: "double \<Rightarrow> string"
  missing_factory :: "string \<Rightarrow> string"

section \<open>Metrics of a run\<close>

definition GetResult :: "Output \<Rightarrow> string \<Rightarrow> ResultProto status_or" where
  "GetResult out name =
     (case find (\<lambda>r. result_name r = name) (results out) of
        Some r \<Rightarrow> Inr r
      | None \<Rightarrow> Inl (Status kInternal
          (''Result '' @ quote_char # name @ quote_char # '' not found in Nighthawk output.'')))"

text \<open>The 64-bit value of the counter is returned as a 32-bit number.\<close>

definition GetCounter :: "ResultProto \<Rightarrow> string \<Rightarrow> u32 status_or" where
  "GetCounter r name =
     (case find (\<lambda>c. counter_name c = name) (counters r) of
        Some c \<Rightarrow> Inr (ucast (counter_value c))
      | None \<Rightarrow> Inl (Status kInternal
          (''Counter '' @ quote_char # name @ quote_char # '' not found in Result proto.'')))"

definition GetStatistic :: "ResultProto \<Rightarrow> string \<Rightarrow> StatisticProto status_or" where
  "GetStatistic r i =
     (case find (\<lambda>st. proto_id st = i) (statistics r) of
        Some st \<Rightarrow> Inr st
      | None \<Rightarrow> Inl (Status kInternal
          (''Statistic '' @ quote_char # i @ quote_char # '' not found in Result proto.'')))"

record NighthawkStatsEmulatedMetricsPlugin =
  metric_from_name :: "string \<rightharpoonup> double"
  errors :: "string list"

definition counter_or_nan :: "ResultProto \<Rightarrow> string \<Rightarrow> double \<times> string list" where
  "counter_or_nan r name =
     (case GetCounter r name of
        Inr w \<Rightarrow> (to_double (of_nat (unat w)), [])
      | Inl st \<Rightarrow> (NaN, [message st]))"

text \<open>The product of rate, duration and workers is computed in \<^verbatim>\<open>int64_t\<close>.\<close>

definition ExtractCounters ::
    "session_env \<Rightarrow> Output \<Rightarrow> NighthawkStatsEmulatedMetricsPlugin \<Rightarrow> NighthawkStatsEmulatedMetricsPlugin" where
  "ExtractCounters E out m =
     (case GetResult out ''global'' of
        Inl st \<Rightarrow> m\<lparr>errors := errors m @ [message st]\<rparr>
      | Inr global_result \<Rightarrow>
          (let actual_duration_seconds = word_of_int (duration_s E (execution_duration global_result)) :: i64;
               number_of_workers = (if length (results out) = 1 then 1 else word_of_nat (length (results out)) - 1) :: u32;
               rps = get_or 0 (p_requests_per_second (out_options out));
               total_specified = double_of_int (sint (ucast rps * actual_duration_seconds * ucast number_of_workers :: i64));
               (total_sent, sent_errors) = counter_or_nan global_result ''upstream_rq_total'';
               (total_2xx, ok_errors) = counter_or_nan global_result ''benchmark.http_2xx'';
               duration = double_of_int (sint actual_duration_seconds);
               m1 = m\<lparr>errors := errors m @ sent_errors @ ok_errors\<rparr>;
               m2 = (if 0 < duration
                     then m1\<lparr>metric_from_name := (metric_from_name m1)
                            (''attempted-rps'' \<mapsto> total_specified div duration, ''achieved-rps'' \<mapsto> total_sent div duration)\<rparr>
                     else m1\<lparr>errors := errors m1 @ [''Nighthawk returned a benchmark result with zero actual duration.'']\<rparr>)
           in m2\<lparr>metric_from_name := (metric_from_name m2)
                 (''send-rate'' \<mapsto> (if 0 < total_specified then total_sent div total_specified else 0),
                  ''success-rate'' \<mapsto> (if 0 < total_sent then total_2xx div total_sent else 0))\<rparr>))"

definition ExtractStatistics ::
    "session_env \<Rightarrow> Output \<Rightarrow> NighthawkStatsEmulatedMetricsPlugin \<Rightarrow> NighthawkStatsEmulatedMetricsPlugin" where
  "ExtractStatistics E out m =
     (case GetResult out ''global'' of
        Inl st \<Rightarrow> m\<lparr>errors := errors m @ [message st]\<rparr>
      | Inr global_result \<Rightarrow>
          (case GetStatistic global_result ''benchmark_http_client.request_to_response'' of
             Inl st \<Rightarrow> m\<lparr>errors := errors m @ [message st]\<rparr>
           | Inr st \<Rightarrow>
               (let least = double_of_int (duration_ns E (case proto_min st of Inl d \<Rightarrow> d | Inr _ \<Rightarrow> zero_duration));
                    mean = double_of_int (duration_ns E (case proto_mean st of Inl d \<Rightarrow> d | Inr _ \<Rightarrow> zero_duration));
                    largest = double_of_int (duration_ns E (case proto_max st of Inl d \<Rightarrow> d | Inr _ \<Rightarrow> zero_duration));
                    pstdev = double_of_int (duration_ns E (case proto_pstdev st of Inl d \<Rightarrow> d | Inr _ \<Rightarrow> zero_duration))
                in m\<lparr>metric_from_name := (metric_from_name m)
                     (''latency-ns-min'' \<mapsto> least, ''latency-ns-mean'' \<mapsto> mean, ''latency-ns-max'' \<mapsto> largest,
                      ''latency-ns-mean-plus-1stdev'' \<mapsto> mean + pstdev,
                      ''latency-ns-mean-plus-2stdev'' \<mapsto> mean + Fin 2 * pstdev,
                      ''latency-ns-mean-plus-3stdev'' \<mapsto> mean + Fin 3 * pstdev,
                      ''latency-ns-pstdev'' \<mapsto> pstdev)\<rparr>)))"

definition new_NighthawkStatsEmulatedMetricsPlugin :: "session_env \<Rightarrow> Output \<Rightarrow> NighthawkStatsEmulatedMetricsPlugin" where
  "new_NighthawkStatsEmulatedMetricsPlugin E out =
     ExtractStatistics E out (ExtractCounters E out \<lparr>metric_from_name = Map.empty, errors = []\<rparr>)"

definition GetMetricByName :: "NighthawkStatsEmulatedMetricsPlugin \<Rightarrow> string \<Rightarrow> double status_or" where
  "GetMetricByName m name =
     (if errors m \<noteq> [] then Inl (Status kInternal (str_join [newline] (errors m)))
      else case metric_from_name m name of
        Some v \<Rightarrow> Inr v
      | None \<Rightarrow> Inl (Status kInternal (''Metric '' @ quote_char # name @ quote_char # '' was not computed by the ''
          @ quote_char # ''builtin'' @ quote_char # '' plugin.'')))"

definition builtin_metric_names :: "string list" where
  "builtin_metric_names =
     [''achieved-rps'', ''attempted-rps'', ''latency-ns-max'', ''latency-ns-mean'', ''latency-ns-mean-plus-1stdev'',
      ''latency-ns-mean-plus-2stdev'', ''latency-ns-mean-plus-3stdev'', ''latency-ns-min'', ''latency-ns-pstdev'',
      ''send-rate'', ''success-rate'']"

text \<open>The plugin seen through the interface; it has the default \<^verbatim>\<open>GetMetricByNameWithReportingPeriod\<close>.\<close>

definition builtin_plugin :: "session_env \<Rightarrow> Output \<Rightarrow> metrics_plugin" where
  "builtin_plugin E out =
     \<lparr>GetMetricByName_of = (\<lambda>_. GetMetricByName (new_NighthawkStatsEmulatedMetricsPlugin E out)),
      GetMetricByNameWithReportingPeriod_of = (\<lambda>_ _ _. Inl (Status kUnimplemented
        ''GetMetricByNameWithReportingPeriod not implemented.'')),
      GetAllSupportedMetricNames_of = builtin_metric_names\<rparr>"

section \<open>Evaluation of metrics\<close>

definition GetReportingPeriod :: "session_env \<Rightarrow> Output \<Rightarrow> ReportingPeriod status_or" where
  "GetReportingPeriod E out =
     (let start_of = (\<lambda>r. get_or zero_duration (execution_start r));
          end_of = (\<lambda>r. time_plus E (start_of r) (execution_duration r))
      in case results out of
           [] \<Rightarrow> Inl (Status kInvalidArgument ''output.results cannot be empty.'')
         | first # _ \<Rightarrow>
             (let max_start_time = fold (\<lambda>r t. if time_less E t (start_of r) then start_of r else t) (results out) (start_of first);
                  min_end_time = fold (\<lambda>r t. if time_less E (end_of r) t then end_of r else t) (results out) (end_of first)
              in if \<not> time_less E max_start_time min_end_time
                 then Inl (Status kInvalidArgument
                   (''Reported execution times in output.results indicate that there is no time ''
                    @ ''where all workers were active.''))
                 else Inr \<lparr>period_start = max_start_time, period_duration = time_minus E min_end_time max_start_time\<rparr>))"

definition GetMetric :: "nat \<Rightarrow> metrics_plugin \<Rightarrow> string \<Rightarrow> ReportingPeriod \<Rightarrow> double status_or" where
  "GetMetric n plugin name reporting_period =
     (case GetMetricByNameWithReportingPeriod_of plugin n name reporting_period of
        Inl st \<Rightarrow> if code st = kUnimplemented then GetMetricByName_of plugin n name else Inl st
      | Inr v \<Rightarrow> Inr v)"

definition EvaluateMetric ::
    "session_env \<Rightarrow> nat \<Rightarrow> MetricSpec \<Rightarrow> metrics_plugin \<Rightarrow> ThresholdSpec option \<Rightarrow> ReportingPeriod
      \<Rightarrow> failure + MetricEvaluation status_or" where
  "EvaluateMetric E n metric_spec plugin threshold_spec reporting_period =
     (let identifier = metrics_plugin_name metric_spec @ ''/'' @ metric_name metric_spec
      in case GetMetric n plugin (metric_name metric_spec) reporting_period of
           Inl st \<Rightarrow> Inr (Inl (Status (code st)
             (''Error calling MetricsPlugin '' @ quote_char # metrics_plugin_name metric_spec @ '': '' @ message st)))
         | Inr v \<Rightarrow>
             (case threshold_spec of
                None \<Rightarrow> Inr (Inr \<lparr>metric_id = identifier, metric_value = v, threshold_score = 0, weight = 0\<rparr>)
              | Some thr \<Rightarrow>
                  (case LoadScoringFunctionPlugin (plugins E) (ts_scoring_function thr) of
                     Inl f \<Rightarrow> Inl f
                   | Inr (Inl st) \<Rightarrow> Inl (ReleaseAssertFailure
                       (''ScoringFunction plugin loading error should have been caught during input validation: '' @ message st))
                   | Inr (Inr scoring_function) \<Rightarrow>
                       Inr (Inr \<lparr>metric_id = identifier, metric_value = v,
                                 threshold_score = ScoringFunction_EvaluateMetric scoring_function v,
                                 weight = get_or 0 (ts_weight thr)\<rparr>))))"

definition ExtractMetricSpecs :: "AdaptiveLoadSessionSpec \<Rightarrow> (MetricSpec \<times> ThresholdSpec option) list" where
  "ExtractMetricSpecs spec =
     map (\<lambda>mt. (mst_metric_spec mt, Some (mst_threshold_spec mt))) (metric_thresholds spec)
     @ map (\<lambda>ms. (ms, None)) (informational_metric_specs spec)"

text \<open>
  The loop over the metrics collects evaluations and errors. A plugin that is not in the map is a null
  pointer, which the loop dereferences.
\<close>

primrec evaluate_metrics ::
    "session_env \<Rightarrow> nat \<Rightarrow> (string \<rightharpoonup> metrics_plugin) \<Rightarrow> ReportingPeriod \<Rightarrow> (MetricSpec \<times> ThresholdSpec option) list
      \<Rightarrow> failure + MetricEvaluation list \<times> string list" where
  "evaluate_metrics E n name_to_plugin_map reporting_period [] = Inr ([], [])"
| "evaluate_metrics E n name_to_plugin_map reporting_period (p # ps) =
     (case name_to_plugin_map (metrics_plugin_name (fst p)) of
        None \<Rightarrow> Inl (UndefinedBehaviour ''dereference of a null MetricsPlugin pointer'')
      | Some plugin \<Rightarrow>
          (case EvaluateMetric E n (fst p) plugin (snd p) reporting_period of
             Inl f \<Rightarrow> Inl f
           | Inr evaluation_or \<Rightarrow>
               map_sum id (\<lambda>(evaluations, errs).
                 case evaluation_or of
                   Inl st \<Rightarrow> (evaluations, (''Error evaluating metric: '' @ print_code E (code st) @ '': '' @ message st) # errs)
                 | Inr evaluation \<Rightarrow> (evaluation # evaluations, errs))
               (evaluate_metrics E n name_to_plugin_map reporting_period ps)))"

definition AnalyzeNighthawkBenchmark ::
    "session_env \<Rightarrow> nat \<Rightarrow> ExecutionResponse \<Rightarrow> AdaptiveLoadSessionSpec \<Rightarrow> (string \<rightharpoonup> metrics_plugin)
      \<Rightarrow> failure + BenchmarkResult status_or" where
  "AnalyzeNighthawkBenchmark E n nighthawk_response spec custom_plugins =
     (if code (error_detail nighthawk_response) \<noteq> kOk
      then Inr (Inl (Status (code (error_detail nighthawk_response)) (message (error_detail nighthawk_response))))
      else
        (let out = response_output nighthawk_response;
             name_to_plugin_map = custom_plugins(''nighthawk.builtin'' \<mapsto> builtin_plugin E out)
         in case GetReportingPeriod E out of
              Inl st \<Rightarrow> Inr (Inl st)
            | Inr reporting_period \<Rightarrow>
                map_sum id (\<lambda>(evaluations, errs).
                  if errs \<noteq> [] then Inl (Status kInternal (str_join [newline] errs))
                  else Inr \<lparr>nighthawk_service_output = out, metric_evaluations = evaluations,
                            start_time = zero_duration, end_time = zero_duration\<rparr>)
                (evaluate_metrics E n name_to_plugin_map reporting_period (ExtractMetricSpecs spec))))"

section \<open>Defaults and checks of a specification\<close>

definition default_plugin_name :: "MetricSpec \<Rightarrow> MetricSpec" where
  "default_plugin_name ms =
     (if metrics_plugin_name ms = [] then ms\<lparr>metrics_plugin_name := ''nighthawk.builtin''\<rparr> else ms)"

definition SetSessionSpecDefaults :: "AdaptiveLoadSessionSpec \<Rightarrow> AdaptiveLoadSessionSpec" where
  "SetSessionSpecDefaults spec =
     (let tmpl = nighthawk_traffic_template spec
      in spec
        \<lparr>nighthawk_traffic_template :=
           (if p_open_loop tmpl = None then tmpl\<lparr>p_open_loop := Some True\<rparr> else tmpl),
         measuring_period := Some (get_or \<lparr>seconds = 10, nanos = 0\<rparr> (measuring_period spec)),
         convergence_deadline := Some (get_or \<lparr>seconds = 300, nanos = 0\<rparr> (convergence_deadline spec)),
         testing_stage_duration := Some (get_or \<lparr>seconds = 30, nanos = 0\<rparr> (testing_stage_duration spec)),
         metric_thresholds := map (\<lambda>mt. mt
           \<lparr>mst_metric_spec := default_plugin_name (mst_metric_spec mt),
            mst_threshold_spec := (mst_threshold_spec mt)
              \<lparr>ts_weight := Some (get_or 1 (ts_weight (mst_threshold_spec mt)))\<rparr>\<rparr>) (metric_thresholds spec),
         informational_metric_specs := map default_plugin_name (informational_metric_specs spec)\<rparr>)"

definition metrics_registry :: "session_env \<Rightarrow> metrics_plugin registry" where
  "metrics_registry E = other_metrics E"

definition LoadMetricsPlugin :: "session_env \<Rightarrow> TypedExtensionConfig \<Rightarrow> failure + metrics_plugin status_or" where
  "LoadMetricsPlugin E = load_plugin (metrics_registry E)"

definition LoadStepControllerPlugin ::
    "(CommandLineOptions \<Rightarrow> 's registry) \<Rightarrow> TypedExtensionConfig \<Rightarrow> CommandLineOptions \<Rightarrow> failure + 's status_or" where
  "LoadStepControllerPlugin controllers config template = load_plugin (controllers template) config"

text \<open>The loop of the check over the metrics plugins: the plugins that load, and the errors.\<close>

primrec check_metrics_plugins ::
    "session_env \<Rightarrow> TypedExtensionConfig list \<Rightarrow> (string \<rightharpoonup> metrics_plugin) \<Rightarrow> failure + (string \<rightharpoonup> metrics_plugin) \<times> string list" where
  "check_metrics_plugins E [] plugin_from_name = Inr (plugin_from_name, [])"
| "check_metrics_plugins E (config # configs) plugin_from_name =
     (case LoadMetricsPlugin E config of
        Inl f \<Rightarrow> Inl f
      | Inr (Inl st) \<Rightarrow>
          map_sum id (\<lambda>(m, errs). (m, (''Failed to load MetricsPlugin: '' @ message st) # errs))
            (check_metrics_plugins E configs plugin_from_name)
      | Inr (Inr plugin) \<Rightarrow> check_metrics_plugins E configs (plugin_from_name(ext_name config \<mapsto> plugin)))"

primrec check_scoring_functions :: "session_env \<Rightarrow> MetricSpecWithThreshold list \<Rightarrow> failure + string list" where
  "check_scoring_functions E [] = Inr []"
| "check_scoring_functions E (mt # mts) =
     (case LoadScoringFunctionPlugin (plugins E) (ts_scoring_function (mst_threshold_spec mt)) of
        Inl f \<Rightarrow> Inl f
      | Inr (Inl st) \<Rightarrow>
          map_sum id (\<lambda>errs. (''Failed to load ScoringFunction plugin: '' @ message st) # errs) (check_scoring_functions E mts)
      | Inr (Inr _) \<Rightarrow> check_scoring_functions E mts)"

definition check_metric_spec :: "(string \<rightharpoonup> metrics_plugin) \<Rightarrow> string list \<Rightarrow> MetricSpec \<Rightarrow> string list" where
  "check_metric_spec plugin_from_name plugin_names ms =
     (case plugin_from_name (metrics_plugin_name ms) of
        Some plugin \<Rightarrow>
          if metric_name ms \<in> set (GetAllSupportedMetricNames_of plugin) then []
          else [''Metric named '' @ quote_char # metric_name ms @ quote_char # '' not implemented by plugin ''
                @ quote_char # metrics_plugin_name ms @ quote_char # ''. Metrics implemented: ''
                @ str_join '', '' (GetAllSupportedMetricNames_of plugin) @ ''.'']
      | None \<Rightarrow>
          [''MetricSpec referred to nonexistent metrics_plugin_name '' @ quote_char # metrics_plugin_name ms
           @ quote_char # ''. You must declare the plugin in metrics_plugin_configs or use plugin ''
           @ quote_char # ''nighthawk.builtin'' @ quote_char # ''. Available plugins: '' @ str_join '', '' plugin_names @ ''.''])"

definition CheckSessionSpec ::
    "session_env \<Rightarrow> (CommandLineOptions \<Rightarrow> 's registry) \<Rightarrow> AdaptiveLoadSessionSpec \<Rightarrow> failure + status" where
  "CheckSessionSpec E controllers spec =
     (let duration_errors =
            (case p_duration (nighthawk_traffic_template spec) of
               Duration _ \<Rightarrow>
                 [''nighthawk_traffic_template should not have |duration| set. Set |measuring_period| ''
                  @ ''and |testing_stage_duration| in the AdaptiveLoadSessionSpec proto instead.'']
             | _ \<Rightarrow> []);
          validation_errors =
            (case validate_spec E spec of
               None \<Rightarrow> []
             | Some e \<Rightarrow> [''the AdaptiveLoadSessionSpec doesn'' @ quote_char # ''t validate: '' @ e]);
          plugin_names = ''nighthawk.builtin'' # map ext_name (metrics_plugin_configs spec);
          empty = \<lparr>timestamp = zero_duration, out_options = default_CommandLineOptions, results = [], version = (0, 0, 0)\<rparr>
      in case check_metrics_plugins E (metrics_plugin_configs spec) [''nighthawk.builtin'' \<mapsto> builtin_plugin E empty] of
           Inl f \<Rightarrow> Inl f
         | Inr (plugin_from_name, plugin_errors) \<Rightarrow>
             (case LoadStepControllerPlugin controllers (step_controller_config spec) (nighthawk_traffic_template spec) of
                Inl f \<Rightarrow> Inl f
              | Inr step_controller_or \<Rightarrow>
                  (case check_scoring_functions E (metric_thresholds spec) of
                     Inl f \<Rightarrow> Inl f
                   | Inr scoring_errors \<Rightarrow>
                       (let all_metric_specs = map mst_metric_spec (metric_thresholds spec) @ informational_metric_specs spec;
                            errs = duration_errors @ validation_errors @ plugin_errors
                              @ (case step_controller_or of
                                   Inl st \<Rightarrow> [''Failed to load StepController plugin: '' @ message st]
                                 | Inr _ \<Rightarrow> [])
                              @ scoring_errors
                              @ concat (map (check_metric_spec plugin_from_name plugin_names) all_metric_specs)
                        in Inr (if errs \<noteq> [] then Status kInvalidArgument (str_join [newline] errs) else OkStatus)))))"

section \<open>The service client\<close>

text \<open>What the bidirectional stream does with one request.\<close>

record service_stream =
  write_ok :: bool
  writes_done_ok :: bool
  messages_read :: "ExecutionResponse list"
  finish_status :: status

definition PerformNighthawkBenchmark :: "service_stream \<Rightarrow> failure + ExecutionResponse status_or" where
  "PerformNighthawkBenchmark stream =
     (if \<not> write_ok stream
      then Inr (Inl (Status kUnavailable ''Failed to write request to the Nighthawk Service gRPC channel.''))
      else if \<not> writes_done_ok stream
      then Inr (Inl (Status kInternal ''WritesDone() failed on the Nighthawk Service gRPC channel.''))
      else case messages_read stream of
        [] \<Rightarrow> Inr (Inl (Status kInternal ''Nighthawk Service did not send a gRPC response.''))
      | [response] \<Rightarrow> if ok (finish_status stream) then Inr (Inr response) else Inr (Inl (finish_status stream))
      | _ \<Rightarrow> Inl (ReleaseAssertFailure ''Nighthawk Service has started responding with more than one message.''))"

section \<open>The controller\<close>

record 's controller_ops =
  current_options :: "'s \<Rightarrow> failure + CommandLineOptions status_or"
  converged :: "'s \<Rightarrow> bool"
  doomed :: "'s \<Rightarrow> string option"
  update :: "BenchmarkResult \<Rightarrow> 's \<Rightarrow> 's"

definition exponential_ops :: "ExponentialSearchStepController controller_ops" where
  "exponential_ops =
     \<lparr>current_options = GetCurrentCommandLineOptions, converged = IsConverged, doomed = IsDoomed, update = UpdateAndRecompute\<rparr>"

definition exponential_registry :: "session_env \<Rightarrow> CommandLineOptions \<Rightarrow> ExponentialSearchStepController registry" where
  "exponential_registry E template name =
     (if name = ''nighthawk.exponential_search'' then Inr (ExponentialSearchStepControllerConfigFactory (plugins E) template)
      else Inl (EnvoyException (missing_factory E name)))"

text \<open>
  The world of a session: the stream opened for the \<open>n\<close>-th benchmark, the system times around it, and
  the monotonic time when the deadline is checked after it, given the milliseconds slept before.
\<close>

record session_world =
  execution_stream :: "nat \<Rightarrow> CommandLineOptions \<Rightarrow> service_stream"
  system_start :: "nat \<Rightarrow> int"
  system_end :: "nat \<Rightarrow> int"
  monotonic_start :: int
  monotonic_after :: "nat \<Rightarrow> u64 \<Rightarrow> int"

primrec LoadMetricsPlugins :: "session_env \<Rightarrow> TypedExtensionConfig list \<Rightarrow> (string \<rightharpoonup> metrics_plugin) \<Rightarrow> failure + (string \<rightharpoonup> metrics_plugin)" where
  "LoadMetricsPlugins E [] m = Inr m"
| "LoadMetricsPlugins E (config # configs) m =
     (case LoadMetricsPlugin E config of
        Inl f \<Rightarrow> Inl f
      | Inr (Inl st) \<Rightarrow> Inl (ReleaseAssertFailure
          (''MetricsPlugin loading error should have been caught during input validation: '' @ message st))
      | Inr (Inr plugin) \<Rightarrow> LoadMetricsPlugins E configs (m(ext_name config \<mapsto> plugin)))"

definition LoadStepControllerPluginFromSpec ::
    "(CommandLineOptions \<Rightarrow> 's registry) \<Rightarrow> AdaptiveLoadSessionSpec \<Rightarrow> failure + 's" where
  "LoadStepControllerPluginFromSpec controllers spec =
     (case LoadStepControllerPlugin controllers (step_controller_config spec) (nighthawk_traffic_template spec) of
        Inl f \<Rightarrow> Inl f
      | Inr (Inl st) \<Rightarrow> Inl (ReleaseAssertFailure
          (''StepController plugin loading error should have been caught during input validation: '' @ message st))
      | Inr (Inr s) \<Rightarrow> Inr s)"

definition PerformAndAnalyzeNighthawkBenchmark ::
    "session_env \<Rightarrow> session_world \<Rightarrow> 's controller_ops \<Rightarrow> AdaptiveLoadSessionSpec \<Rightarrow> (string \<rightharpoonup> metrics_plugin)
      \<Rightarrow> proto_duration \<Rightarrow> nat \<Rightarrow> 's \<Rightarrow> failure + (BenchmarkResult \<times> 's) status_or" where
  "PerformAndAnalyzeNighthawkBenchmark E W ops spec custom_plugins duration n s =
     (case current_options ops s of
        Inl f \<Rightarrow> Inl f
      | Inr (Inl st) \<Rightarrow> Inr (Inl st)
      | Inr (Inr command_line_options) \<Rightarrow>
          (case PerformNighthawkBenchmark (execution_stream W n (command_line_options\<lparr>p_duration := Duration duration\<rparr>)) of
             Inl f \<Rightarrow> Inl f
           | Inr (Inl st) \<Rightarrow> Inr (Inl st)
           | Inr (Inr nighthawk_response) \<Rightarrow>
               (case AnalyzeNighthawkBenchmark E n nighthawk_response spec custom_plugins of
                  Inl f \<Rightarrow> Inl f
                | Inr (Inl st) \<Rightarrow> Inr (Inl st)
                | Inr (Inr r) \<Rightarrow>
                    (let benchmark_result = r\<lparr>start_time := systemClockToTimestamp E (system_start W n),
                                              end_time := systemClockToTimestamp E (system_end W n)\<rparr>
                     in Inr (Inr (benchmark_result, update ops benchmark_result s))))))"

definition cooldown_ms :: "session_env \<Rightarrow> AdaptiveLoadSessionSpec \<Rightarrow> u64" where
  "cooldown_ms E spec =
     (case benchmark_cooldown_duration spec of None \<Rightarrow> 0 | Some d \<Rightarrow> word_of_int (duration_ms E d))"

definition time_limit_ns :: "session_env \<Rightarrow> AdaptiveLoadSessionSpec \<Rightarrow> int" where
  "time_limit_ns E spec = duration_ns E (get_or zero_duration (convergence_deadline spec))"

definition past_deadline :: "session_env \<Rightarrow> session_world \<Rightarrow> AdaptiveLoadSessionSpec \<Rightarrow> nat \<Rightarrow> bool" where
  "past_deadline E W spec n \<longleftrightarrow>
     time_limit_ns E spec < monotonic_after W n (cooldown_ms E spec) - monotonic_start W"

text \<open>The loop of the adjusting stage; \<open>n\<close> is the number of benchmarks done.\<close>

partial_function (option) adjusting_stage ::
    "session_env \<Rightarrow> session_world \<Rightarrow> 's controller_ops \<Rightarrow> AdaptiveLoadSessionSpec \<Rightarrow> (string \<rightharpoonup> metrics_plugin)
      \<Rightarrow> nat \<Rightarrow> 's \<Rightarrow> BenchmarkResult list \<Rightarrow> (failure + ('s \<times> BenchmarkResult list) status_or) option" where
  "adjusting_stage E W ops spec custom_plugins n s so_far =
     (case PerformAndAnalyzeNighthawkBenchmark E W ops spec custom_plugins
             (get_or zero_duration (measuring_period spec)) n s of
        Inl f \<Rightarrow> Some (Inl f)
      | Inr (Inl st) \<Rightarrow> Some (Inr (Inl st))
      | Inr (Inr (result, s')) \<Rightarrow>
          if past_deadline E W spec n
          then Some (Inr (Inl (Status kDeadlineExceeded
            (''Failed to converge before deadline of ''
             @ print_fixed2 E (double_of_int (time_limit_ns E spec) div Fin 1000000000) @ '' seconds.''))))
          else if \<not> converged ops s' \<and> doomed ops s' = None
          then adjusting_stage E W ops spec custom_plugins (Suc n) s' (so_far @ [result])
          else Some (Inr (Inr (s', so_far @ [result]))))"

definition testing_stage ::
    "session_env \<Rightarrow> session_world \<Rightarrow> 's controller_ops \<Rightarrow> AdaptiveLoadSessionSpec \<Rightarrow> (string \<rightharpoonup> metrics_plugin)
      \<Rightarrow> 's \<Rightarrow> BenchmarkResult list \<Rightarrow> failure + AdaptiveLoadSessionOutput status_or" where
  "testing_stage E W ops spec custom_plugins s adjusting =
     (case doomed ops s of
        Some reason \<Rightarrow> Inr (Inl (Status kAborted
          (''Step controller determined that it can never converge: '' @ reason)))
      | None \<Rightarrow>
          map_sum id (map_sum id (\<lambda>(result, _).
            \<lparr>adjusting_stage_results = adjusting, testing_stage_result = Some result,
             output_metric_thresholds = metric_thresholds spec\<rparr>))
          (PerformAndAnalyzeNighthawkBenchmark E W ops spec custom_plugins
             (get_or zero_duration (testing_stage_duration spec)) (length adjusting) s))"

definition PerformAdaptiveLoadSession ::
    "session_env \<Rightarrow> session_world \<Rightarrow> 's controller_ops \<Rightarrow> (CommandLineOptions \<Rightarrow> 's registry) \<Rightarrow> AdaptiveLoadSessionSpec
      \<Rightarrow> (failure + AdaptiveLoadSessionOutput status_or) option" where
  "PerformAdaptiveLoadSession E W ops controllers input_spec =
     (let spec = SetSessionSpecDefaults input_spec
      in case CheckSessionSpec E controllers spec of
           Inl f \<Rightarrow> Some (Inl f)
         | Inr validation_status \<Rightarrow>
             if \<not> ok validation_status then Some (Inr (Inl validation_status))
             else
               (case LoadMetricsPlugins E (metrics_plugin_configs spec) Map.empty of
                  Inl f \<Rightarrow> Some (Inl f)
                | Inr custom_plugins \<Rightarrow>
                    (case LoadStepControllerPluginFromSpec controllers spec of
                       Inl f \<Rightarrow> Some (Inl f)
                     | Inr s \<Rightarrow>
                         (case adjusting_stage E W ops spec custom_plugins 0 s [] of
                            None \<Rightarrow> None
                          | Some (Inl f) \<Rightarrow> Some (Inl f)
                          | Some (Inr (Inl st)) \<Rightarrow> Some (Inr (Inl st))
                          | Some (Inr (Inr (s', adjusting))) \<Rightarrow>
                              Some (testing_stage E W ops spec custom_plugins s' adjusting)))))"

section \<open>The reporting period\<close>

definition session_time_laws :: "session_env \<Rightarrow> (proto_duration \<Rightarrow> int) \<Rightarrow> bool" where
  "session_time_laws E ns \<longleftrightarrow>
     (\<forall>a b. time_less E a b = (ns a < ns b)) \<and> (\<forall>a d. ns (time_plus E a d) = ns a + ns d)
     \<and> (\<forall>a b. ns (time_minus E a b) = ns a - ns b)"

lemma fold_max:
  fixes ns :: "'t \<Rightarrow> int"
  assumes "\<And>a b. lt a b = (ns a < ns b)"
  shows "ns (fold (\<lambda>r t. if lt t (f r) then f r else t) rs t0) = Max (insert (ns t0) ((\<lambda>r. ns (f r)) ` set rs))"
proof -
  have "ns (fold (\<lambda>r t. if lt t (f r) then f r else t) rs t0) = fold max (map (\<lambda>r. ns (f r)) rs) (ns t0)"
    by (induction rs arbitrary: t0) (simp_all add: assms max_def)
  then show ?thesis using Max.set_eq_fold [of "ns t0" "map (\<lambda>r. ns (f r)) rs"] by simp
qed

lemma fold_min:
  fixes ns :: "'t \<Rightarrow> int"
  assumes "\<And>a b. lt a b = (ns a < ns b)"
  shows "ns (fold (\<lambda>r t. if lt (f r) t then f r else t) rs t0) = Min (insert (ns t0) ((\<lambda>r. ns (f r)) ` set rs))"
proof -
  have "ns (fold (\<lambda>r t. if lt (f r) t then f r else t) rs t0) = fold min (map (\<lambda>r. ns (f r)) rs) (ns t0)"
    by (induction rs arbitrary: t0) (simp_all add: assms min_def not_less [symmetric])
  then show ?thesis using Min.set_eq_fold [of "ns t0" "map (\<lambda>r. ns (f r)) rs"] by simp
qed

definition run_start :: "(proto_duration \<Rightarrow> int) \<Rightarrow> ResultProto \<Rightarrow> int" where
  "run_start ns r = ns (get_or zero_duration (execution_start r))"

definition run_end :: "(proto_duration \<Rightarrow> int) \<Rightarrow> ResultProto \<Rightarrow> int" where
  "run_end ns r = run_start ns r + ns (execution_duration r)"

text \<open>
  C27. The reporting period of a run is the intersection of the execution times of its results: it starts
  when the last of them started and ends when the first of them ended, and there is one exactly when
  that is a period of positive length. Timestamps and durations compare and add like the numbers of
  nanoseconds they stand for.
\<close>

theorem reporting_period_is_intersection:
  assumes "session_time_laws E ns" "results out \<noteq> []"
  shows "case GetReportingPeriod E out of
      Inr p \<Rightarrow> ns (period_start p) = Max (run_start ns ` set (results out))
        \<and> ns (period_start p) + ns (period_duration p) = Min (run_end ns ` set (results out))
        \<and> 0 < ns (period_duration p)
    | Inl st \<Rightarrow> Min (run_end ns ` set (results out)) \<le> Max (run_start ns ` set (results out))"
proof -
  have less: "\<And>a b. time_less E a b = (ns a < ns b)" and plus: "\<And>a d. ns (time_plus E a d) = ns a + ns d"
    and minus: "\<And>a b. ns (time_minus E a b) = ns a - ns b"
    using assms(1) by (simp_all add: session_time_laws_def)
  obtain r rs where out: "results out = r # rs" using assms(2) by (cases "results out") auto
  let ?start = "\<lambda>r. get_or zero_duration (execution_start r)"
  let ?finish = "\<lambda>r. time_plus E (?start r) (execution_duration r)"
  define M where "M = fold (\<lambda>r t. if time_less E t (?start r) then ?start r else t) (r # rs) (?start r)"
  define N where "N = fold (\<lambda>r t. if time_less E (?finish r) t then ?finish r else t) (r # rs) (?finish r)"
  have "ns M = Max (run_start ns ` set (results out))"
    unfolding M_def using fold_max [of "time_less E" ns ?start "r # rs" "?start r"] less
    by (simp add: out run_start_def)
  moreover have "ns N = Min (run_end ns ` set (results out))"
    unfolding N_def using fold_min [of "time_less E" ns ?finish "r # rs" "?finish r"] less
    by (simp add: out run_start_def run_end_def plus)
  moreover have "GetReportingPeriod E out =
      (if \<not> time_less E M N
       then Inl (Status kInvalidArgument (''Reported execution times in output.results indicate that there is no time ''
         @ ''where all workers were active.''))
       else Inr \<lparr>period_start = M, period_duration = time_minus E N M\<rparr>)"
    by (simp only: GetReportingPeriod_def Let_def out list.case M_def N_def)
  ultimately show ?thesis by (simp add: less minus)
qed


section \<open>The adjusting stage\<close>

abbreviation adjusting_benchmark where
  "adjusting_benchmark E W ops spec custom_plugins \<equiv>
     PerformAndAnalyzeNighthawkBenchmark E W ops spec custom_plugins (get_or zero_duration (measuring_period spec))"

lemma adjusting_returns:
  assumes "past_deadline E W spec m" "n \<le> m"
  shows "\<exists>r. adjusting_stage E W ops spec custom_plugins n s so_far = Some r"
  using assms(2)
proof (induction "m - n" arbitrary: n s so_far)
  case 0
  then have "past_deadline E W spec n" using assms(1) by simp
  then show ?case by (subst adjusting_stage.simps) (auto split: sum.splits)
next
  case (Suc d)
  then have "Suc n \<le> m" "d = m - Suc n" by simp_all
  then show ?case using Suc.hyps(1) by (subst adjusting_stage.simps) (auto split: sum.splits)
qed

text \<open>What one more benchmark of the stage does.\<close>

lemma adjusting_stageE:
  assumes "adjusting_stage E W ops spec custom_plugins n s so_far = r"
  obtains f where "adjusting_benchmark E W ops spec custom_plugins n s = Inl f" "r = Some (Inl f)"
  | st where "adjusting_benchmark E W ops spec custom_plugins n s = Inr (Inl st)" "r = Some (Inr (Inl st))"
  | result s' st where "adjusting_benchmark E W ops spec custom_plugins n s = Inr (Inr (result, s'))"
      "past_deadline E W spec n" "r = Some (Inr (Inl st))"
  | result s' where "adjusting_benchmark E W ops spec custom_plugins n s = Inr (Inr (result, s'))"
      "\<not> past_deadline E W spec n" "\<not> converged ops s'" "doomed ops s' = None"
      "adjusting_stage E W ops spec custom_plugins (Suc n) s' (so_far @ [result]) = r"
  | result s' where "adjusting_benchmark E W ops spec custom_plugins n s = Inr (Inr (result, s'))"
      "\<not> past_deadline E W spec n" "converged ops s' \<or> doomed ops s' \<noteq> None"
      "r = Some (Inr (Inr (s', so_far @ [result])))"
  using assms by (subst (asm) adjusting_stage.simps) (auto split: sum.splits prod.splits if_splits)

lemma benchmark_updates:
  "PerformAndAnalyzeNighthawkBenchmark E W ops spec custom_plugins d n s = Inr (Inr (result, s')) \<Longrightarrow> s' = update ops result s"
  by (auto simp: PerformAndAnalyzeNighthawkBenchmark_def Let_def split: sum.splits)

definition stage_history ::
    "session_env \<Rightarrow> session_world \<Rightarrow> 's controller_ops \<Rightarrow> AdaptiveLoadSessionSpec \<Rightarrow> nat \<Rightarrow> 's \<Rightarrow> BenchmarkResult list \<Rightarrow> bool" where
  "stage_history E W ops spec n s rs \<longleftrightarrow>
     rs \<noteq> [] \<and> (\<forall>i < length rs. \<not> past_deadline E W spec (n + i))
     \<and> (let s' = fold (update ops) rs s in converged ops s' \<or> doomed ops s' \<noteq> None)
     \<and> (\<forall>i. 0 < i \<and> i < length rs \<longrightarrow>
          (let si = fold (update ops) (take i rs) s in \<not> converged ops si \<and> doomed ops si = None))"

lemma stage_history_last:
  "converged ops (update ops r s) \<or> doomed ops (update ops r s) \<noteq> None \<Longrightarrow> \<not> past_deadline E W spec n
   \<Longrightarrow> stage_history E W ops spec n s [r]"
  by (simp add: stage_history_def)

lemma stage_history_Cons:
  assumes "stage_history E W ops spec (Suc n) (update ops r s) rs" "\<not> past_deadline E W spec n"
    and "\<not> converged ops (update ops r s)" "doomed ops (update ops r s) = None"
  shows "stage_history E W ops spec n s (r # rs)"
proof -
  have mid: "\<not> converged ops (fold (update ops) (take j rs) (update ops r s))
      \<and> doomed ops (fold (update ops) (take j rs) (update ops r s)) = None" if "j < length rs" for j
    using that assms by (cases "j = 0") (simp_all add: stage_history_def Let_def)
  have "\<not> past_deadline E W spec (n + i)" if "i < Suc (length rs)" for i
    using that assms(1,2) by (cases i) (simp_all add: stage_history_def)
  then show ?thesis using assms(1) mid unfolding stage_history_def Let_def
    by (auto simp: take_Cons split: nat.splits)
qed

text \<open>Induction over the benchmarks of the stage.\<close>

lemma adjusting_induct [consumes 1, case_names Failure Error Continue Stop]:
  assumes "adjusting_stage E W ops spec custom_plugins n s so_far = Some y"
    and "\<And>n s so_far f. adjusting_benchmark E W ops spec custom_plugins n s = Inl f \<Longrightarrow> P n s so_far (Inl f)"
    and "\<And>n s so_far st. P n s so_far (Inr (Inl st))"
    and "\<And>n s so_far result s' y. adjusting_benchmark E W ops spec custom_plugins n s = Inr (Inr (result, s')) \<Longrightarrow>
      \<not> past_deadline E W spec n \<Longrightarrow> \<not> converged ops s' \<Longrightarrow> doomed ops s' = None \<Longrightarrow>
      P (Suc n) s' (so_far @ [result]) y \<Longrightarrow> P n s so_far y"
    and "\<And>n s so_far result s'. adjusting_benchmark E W ops spec custom_plugins n s = Inr (Inr (result, s')) \<Longrightarrow>
      \<not> past_deadline E W spec n \<Longrightarrow> converged ops s' \<or> doomed ops s' \<noteq> None \<Longrightarrow>
      P n s so_far (Inr (Inr (s', so_far @ [result])))"
  shows "P n s so_far y"
  using assms
proof (induction rule: adjusting_stage.raw_induct [rotated, consumes 1])
  case (1 loop E W ops spec custom_plugins n s so_far y)
  note IH = 1(1) [OF _ 1(3-6)] and body = 1(2) and error = 1(4) and more = 1(5) and stop = 1(6)
  show ?case
  proof (cases "adjusting_benchmark E W ops spec custom_plugins n s")
    case (Inl f)
    then show ?thesis using 1(2) 1(3) [OF Inl, of so_far] by simp
  next
    case (Inr r)
    show ?thesis
    proof (cases r)
      case Err: (Inl st)
      then show ?thesis using 1(2) Inr 1(4) [of n s so_far st] by simp
    next
      case Ok: (Inr p)
      obtain result s' where p: "p = (result, s')" by fastforce
      have b: "adjusting_benchmark E W ops spec custom_plugins n s = Inr (Inr (result, s'))" using Inr Ok p by simp
      consider "past_deadline E W spec n" | "\<not> past_deadline E W spec n" "\<not> converged ops s' \<and> doomed ops s' = None"
        | "\<not> past_deadline E W spec n" "\<not> (\<not> converged ops s' \<and> doomed ops s' = None)" by blast
      then show ?thesis
      proof cases
        case 1
        then have "\<exists>st. y = Inr (Inl st)" using body b by auto
        then show ?thesis using error by blast
      next
        case 2
        then show ?thesis using body more [OF b] IH b by simp
      next
        case 3
        then show ?thesis using body stop [OF b, of so_far] b by auto
      qed
    qed
  qed
qed


lemma adjusting_history:
  assumes "adjusting_stage E W ops spec custom_plugins n s so_far = Some y" "y = Inr (Inr (s', all_results))"
  shows "\<exists>rs. all_results = so_far @ rs \<and> s' = fold (update ops) rs s \<and> stage_history E W ops spec n s rs"
  using assms
proof (induction rule: adjusting_induct)
  case (Continue n s so_far result s1 y)
  then obtain rs where "all_results = so_far @ [result] @ rs" "s' = fold (update ops) rs s1"
      "stage_history E W ops spec (Suc n) s1 rs" by auto
  then show ?case using benchmark_updates [OF Continue(1)] stage_history_Cons Continue(2-4)
    by (intro exI [of _ "result # rs"]) simp
next
  case (Stop n s so_far result s1)
  then have "stage_history E W ops spec n s [result]"
    using benchmark_updates [OF Stop(1)] stage_history_last [of ops result s E W spec n] by simp
  then show ?case using benchmark_updates [OF Stop(1)] Stop(4) by (intro exI [of _ "[result]"]) simp
qed simp_all

section \<open>What the check of a specification guarantees\<close>

lemma check_metrics_plugins_loads:
  "check_metrics_plugins E configs m = Inr (m', []) \<Longrightarrow>
   \<exists>custom. LoadMetricsPlugins E configs m0 = Inr custom \<and> dom custom = dom m0 \<union> ext_name ` set configs
     \<and> dom m' = dom m \<union> ext_name ` set configs"
proof (induction configs arbitrary: m m0)
  case (Cons config configs)
  then obtain plugin where "LoadMetricsPlugin E config = Inr (Inr plugin)"
      "check_metrics_plugins E configs (m(ext_name config \<mapsto> plugin)) = Inr (m', [])"
    by (auto split: sum.splits simp: map_sum_def)
  then show ?case using Cons.IH [of "m(ext_name config \<mapsto> plugin)" "m0(ext_name config \<mapsto> plugin)"]
    by (auto simp del: fun_upd_apply)
qed simp

lemma check_scoring_functions_loads:
  "check_scoring_functions E mts = Inr [] \<Longrightarrow> mt \<in> set mts \<Longrightarrow>
   \<exists>f. LoadScoringFunctionPlugin (plugins E) (ts_scoring_function (mst_threshold_spec mt)) = Inr (Inr f)"
  by (induction mts) (auto split: sum.splits simp: map_sum_def)

definition spec_ready ::
    "session_env \<Rightarrow> (CommandLineOptions \<Rightarrow> 's registry) \<Rightarrow> AdaptiveLoadSessionSpec \<Rightarrow> (string \<rightharpoonup> metrics_plugin) \<Rightarrow> bool" where
  "spec_ready E controllers spec custom \<longleftrightarrow>
     LoadMetricsPlugins E (metrics_plugin_configs spec) Map.empty = Inr custom
     \<and> (\<exists>s. LoadStepControllerPluginFromSpec controllers spec = Inr s)
     \<and> (\<forall>(ms, thr) \<in> set (ExtractMetricSpecs spec).
          metrics_plugin_name ms \<in> insert ''nighthawk.builtin'' (dom custom)
          \<and> (\<forall>t. thr = Some t \<longrightarrow> (\<exists>f. LoadScoringFunctionPlugin (plugins E) (ts_scoring_function t) = Inr (Inr f))))"

lemma CheckSessionSpec_ready:
  assumes "CheckSessionSpec E controllers spec = Inr st" "ok st"
  shows "\<exists>custom. spec_ready E controllers spec custom"
proof -
  let ?m0 = "[''nighthawk.builtin'' \<mapsto> builtin_plugin E
    \<lparr>timestamp = zero_duration, out_options = default_CommandLineOptions, results = [], version = (0, 0, 0)\<rparr>]"
  obtain m' errs1 c errs2 where
    parts: "check_metrics_plugins E (metrics_plugin_configs spec) ?m0 = Inr (m', errs1)"
      "LoadStepControllerPlugin controllers (step_controller_config spec) (nighthawk_traffic_template spec) = Inr c"
      "check_scoring_functions E (metric_thresholds spec) = Inr errs2"
    using assms(1) unfolding CheckSessionSpec_def Let_def by (auto split: sum.splits prod.splits)
  have none: "errs1 = []" "\<exists>s. c = Inr s" "errs2 = []"
      "\<forall>ms \<in> set (map mst_metric_spec (metric_thresholds spec) @ informational_metric_specs spec).
         metrics_plugin_name ms \<in> dom m'"
    using assms parts unfolding CheckSessionSpec_def Let_def
    by (auto simp: ok_def check_metric_spec_def dom_def split: if_splits sum.splits option.splits)
  obtain custom where custom: "LoadMetricsPlugins E (metrics_plugin_configs spec) Map.empty = Inr custom"
      "dom custom = ext_name ` set (metrics_plugin_configs spec)"
      "dom m' = dom ?m0 \<union> ext_name ` set (metrics_plugin_configs spec)"
    using check_metrics_plugins_loads [OF parts(1) [unfolded none(1)], of Map.empty] by auto
  have "metrics_plugin_name ms \<in> insert ''nighthawk.builtin'' (dom custom)"
    if "(ms, thr) \<in> set (ExtractMetricSpecs spec)" for ms thr
    using that none(4) custom(2,3) by (auto simp: ExtractMetricSpecs_def)
  moreover have "\<exists>f. LoadScoringFunctionPlugin (plugins E) (ts_scoring_function t) = Inr (Inr f)"
    if "(ms, Some t) \<in> set (ExtractMetricSpecs spec)" for ms t
    using that check_scoring_functions_loads [OF parts(3) [unfolded none(3)]] by (auto simp: ExtractMetricSpecs_def)
  ultimately show ?thesis using custom(1) none(2) parts(2)
    by (auto simp: spec_ready_def LoadStepControllerPluginFromSpec_def)
qed


lemma evaluate_metrics_safe:
  assumes "\<forall>(ms, thr) \<in> set ps. metrics_plugin_name ms \<in> dom m
      \<and> (\<forall>t. thr = Some t \<longrightarrow> (\<exists>f. LoadScoringFunctionPlugin (plugins E) (ts_scoring_function t) = Inr (Inr f)))"
  shows "\<exists>r. evaluate_metrics E n m period ps = Inr r"
  using assms
proof (induction ps)
  case (Cons p ps)
  obtain ms thr where p: "p = (ms, thr)" by fastforce
  then obtain plugin where plugin: "m (metrics_plugin_name ms) = Some plugin" using Cons.prems by auto
  have "\<exists>e. EvaluateMetric E n ms plugin thr period = Inr e"
  proof (cases thr)
    case (Some t)
    then obtain f where "LoadScoringFunctionPlugin (plugins E) (ts_scoring_function t) = Inr (Inr f)"
      using Cons.prems p by auto
    then show ?thesis using Some by (auto simp: EvaluateMetric_def Let_def split: sum.splits)
  qed (auto simp: EvaluateMetric_def Let_def split: sum.splits)
  moreover obtain r where "evaluate_metrics E n m period ps = Inr r" using Cons by auto
  ultimately show ?case using p plugin by auto
qed simp

lemma AnalyzeNighthawkBenchmark_safe:
  assumes "spec_ready E controllers spec custom"
  shows "\<exists>r. AnalyzeNighthawkBenchmark E n response spec custom = Inr r"
proof -
  let ?m = "custom(''nighthawk.builtin'' \<mapsto> builtin_plugin E (response_output response))"
  have "\<exists>r. evaluate_metrics E n ?m period (ExtractMetricSpecs spec) = Inr r" for period
    using assms by (intro evaluate_metrics_safe) (auto simp: spec_ready_def)
  then obtain r where "\<And>period. evaluate_metrics E n ?m period (ExtractMetricSpecs spec) = Inr (r period)" by metis
  then show ?thesis
    by (cases "GetReportingPeriod E (response_output response)") (simp_all add: AnalyzeNighthawkBenchmark_def Let_def)
qed

text \<open>The release assertion of the service client, and the runs in which it can fail.\<close>

definition service_abort :: "session_world \<Rightarrow> failure \<Rightarrow> bool" where
  "service_abort W f \<longleftrightarrow>
     f = ReleaseAssertFailure ''Nighthawk Service has started responding with more than one message.''
     \<and> (\<exists>n options. 1 < length (messages_read (execution_stream W n options)))"

lemma PerformNighthawkBenchmark_failure:
  "PerformNighthawkBenchmark (execution_stream W n options) = Inl f \<Longrightarrow> service_abort W f"
  unfolding PerformNighthawkBenchmark_def service_abort_def
  by (auto split: list.splits if_splits intro!: exI [of _ n] exI [of _ options])

section \<open>The contract of a step controller\<close>

text \<open>
  A step controller keeps its states valid, and a valid state has options for the next benchmark or an
  error status, unless it fails in one of the ways the contract names.
\<close>

locale step_controller =
  fixes ops :: "'s controller_ops" and valid :: "'s \<Rightarrow> bool" and abort :: "failure \<Rightarrow> bool"
  assumes update_valid: "valid s \<Longrightarrow> valid (update ops r s)"
    and options_failure: "valid s \<Longrightarrow> current_options ops s = Inl f \<Longrightarrow> abort f"
begin

lemma benchmark_failure:
  assumes "spec_ready E controllers spec custom" "valid s"
    and "PerformAndAnalyzeNighthawkBenchmark E W ops spec custom d n s = Inl f"
  shows "abort f \<or> service_abort W f"
proof -
  have "AnalyzeNighthawkBenchmark E n response spec custom \<noteq> Inl g" for response g
    using AnalyzeNighthawkBenchmark_safe [OF assms(1), of n response] by auto
  then show ?thesis using assms(3) options_failure [OF assms(2)]
    unfolding PerformAndAnalyzeNighthawkBenchmark_def Let_def
    by (auto split: sum.splits dest: PerformNighthawkBenchmark_failure)
qed

lemma stage_failure:
  assumes "adjusting_stage E W ops spec custom n s so_far = Some y"
    and "spec_ready E controllers spec custom" "valid s"
  shows "(\<forall>f. y = Inl f \<longrightarrow> abort f \<or> service_abort W f) \<and> (\<forall>s' rs. y = Inr (Inr (s', rs)) \<longrightarrow> valid s')"
  using assms
proof (induction rule: adjusting_induct)
  case (Failure n s so_far f)
  then show ?case using benchmark_failure [OF Failure(2,3,1)] by simp
next
  case (Continue n s so_far result s' y)
  then show ?case using benchmark_updates [OF Continue(1)] update_valid by simp
next
  case (Stop n s so_far result s')
  then show ?case using benchmark_updates [OF Stop(1)] update_valid by simp
qed simp

lemma session_failure:
  assumes "CheckSessionSpec E controllers (SetSessionSpecDefaults spec) = Inr st"
    and "LoadStepControllerPluginFromSpec controllers (SetSessionSpecDefaults spec) = Inr s" "valid s"
    and "PerformAdaptiveLoadSession E W ops controllers spec = Some (Inl f)"
  shows "abort f \<or> service_abort W f"
proof (cases "ok st")
  case True
  let ?spec = "SetSessionSpecDefaults spec"
  obtain custom where ready: "spec_ready E controllers ?spec custom"
    using CheckSessionSpec_ready [OF assms(1) True] by blast
  then have custom: "LoadMetricsPlugins E (metrics_plugin_configs ?spec) Map.empty = Inr custom"
    by (simp add: spec_ready_def)
  consider "adjusting_stage E W ops ?spec custom 0 s [] = Some (Inl f)"
    | s' rs where "adjusting_stage E W ops ?spec custom 0 s [] = Some (Inr (Inr (s', rs)))"
        "testing_stage E W ops ?spec custom s' rs = Inl f"
    using assms(1,2,4) True custom unfolding PerformAdaptiveLoadSession_def Let_def
    by (auto split: option.splits sum.splits)
  then show ?thesis
  proof cases
    case 1
    then show ?thesis using stage_failure [OF 1 ready assms(3)] by simp
  next
    case 2
    then have "valid s'" using stage_failure [OF 2(1) ready assms(3)] by simp
    then show ?thesis using benchmark_failure [OF ready] 2(2)
      by (auto simp: testing_stage_def map_sum_def split: option.splits sum.splits)
  qed
next
  case False
  then show ?thesis using assms(1,4) by (simp add: PerformAdaptiveLoadSession_def Let_def)
qed

end


text \<open>
  The exponential search satisfies the contract. The loads it tries have one sign, and none of them is a
  NaN unless the initial load is one or is a zero multiplied by an infinite factor.
\<close>

fun pos_load :: "double \<Rightarrow> bool" where
  "pos_load (Fin x) = (0 \<le> x)"
| "pos_load PosInf = True"
| "pos_load _ = False"

fun neg_load :: "double \<Rightarrow> bool" where
  "neg_load (Fin x) = (x \<le> 0)"
| "neg_load NegInf = True"
| "neg_load _ = False"

definition one_sided :: "(double \<Rightarrow> bool) \<Rightarrow> ExponentialSearchStepController \<Rightarrow> bool" where
  "one_sided side s \<longleftrightarrow>
     side (current_load_value s) \<and> (previous_load_value s = NaN \<or> side (previous_load_value s))
     \<and> (\<not> is_range_finding_phase s \<longrightarrow> side (bottom_load_value s) \<and> side (top_load_value s))"

definition sound_loads :: "ExponentialSearchStepController \<Rightarrow> bool" where
  "sound_loads s \<longleftrightarrow>
     (one_sided pos_load s \<or> one_sided neg_load s) \<and> 0 < exponential_factor s
     \<and> (is_range_finding_phase s \<longrightarrow> \<not> isnan (current_load_value s * exponential_factor s))"

definition search_from :: "ExponentialSearchStepController \<Rightarrow> ExponentialSearchStepController \<Rightarrow> bool" where
  "search_from s0 s \<longleftrightarrow>
     input_variable_setter s = input_variable_setter s0
     \<and> (isnan (current_load_value s0 * exponential_factor s0) \<or> sound_loads s)"

definition setter_abort :: "ExponentialSearchStepController \<Rightarrow> failure \<Rightarrow> bool" where
  "setter_abort s0 f \<longleftrightarrow>
     (\<exists>options load. input_variable_setter s0 options load = Inl f
        \<and> (isnan load \<longrightarrow> isnan (current_load_value s0 * exponential_factor s0)))"

lemma pos_to_double: "0 \<le> x \<Longrightarrow> pos_load (to_double x)"
  using rnd_nonneg [of x] by (auto simp: to_double_def Let_def)

lemma neg_to_double: "x \<le> 0 \<Longrightarrow> neg_load (to_double x)"
  using rnd_mono [of x 0] by (auto simp: to_double_def Let_def)

lemma isnan_iff: "isnan d \<longleftrightarrow> d = NaN"
  by (cases d) simp_all

lemma to_double_number: "to_double x \<noteq> NaN"
  by (simp add: to_double_def Let_def)

lemma side_times:
  assumes "0 < f" "d * f \<noteq> NaN"
  shows "pos_load d \<Longrightarrow> pos_load (d * f)" "neg_load d \<Longrightarrow> neg_load (d * f)"
  using assms
  by (cases d; cases f; simp add: dbl_defs inf_of_sign_def pos_to_double neg_to_double mult_le_0_iff split: if_splits)+

lemma times_number:
  assumes "0 < f" "d * f \<noteq> NaN"
  shows "d * f * f \<noteq> NaN"
proof (cases f)
  case (Fin x)
  then show ?thesis using assms by (cases "d * f") (auto simp: dbl_defs inf_of_sign_def to_double_number)
next
  case PosInf
  then have "d * f = PosInf \<or> d * f = NegInf" using assms(2) by (cases d) (auto simp: dbl_defs inf_of_sign_def split: if_splits)
  then show ?thesis using PosInf by (auto simp: dbl_defs)
qed (use assms in \<open>simp_all add: dbl_defs\<close>)

lemma side_midpoint:
  "pos_load x \<Longrightarrow> pos_load y \<Longrightarrow> pos_load ((x + y) div Fin 2)"
  "neg_load x \<Longrightarrow> neg_load y \<Longrightarrow> neg_load ((x + y) div Fin 2)"
proof -
  have half: "pos_load d \<Longrightarrow> pos_load (d div Fin 2)" "neg_load d \<Longrightarrow> neg_load (d div Fin 2)" for d
    by (cases d; simp add: dbl_defs pos_to_double neg_to_double)+
  show "pos_load ((x + y) div Fin 2)" if "pos_load x" "pos_load y"
    using that by (intro half) (cases x; cases y; simp add: dbl_defs pos_to_double)
  show "neg_load ((x + y) div Fin 2)" if "neg_load x" "neg_load y"
    using that by (intro half) (cases x; cases y; simp add: dbl_defs neg_to_double)
qed

lemma sound_loads_update: "sound_loads s \<Longrightarrow> sound_loads (UpdateAndRecompute r s)"
  by (cases "previous_load_value s = NaN")
    (auto simp: sound_loads_def one_sided_def UpdateAndRecompute_def IterateRangeFindingPhase_def IterateBinarySearchPhase_def
      Let_def side_times times_number side_midpoint isnan_iff)

lemma setter_update: "input_variable_setter (UpdateAndRecompute r s) = input_variable_setter s"
  by (simp add: UpdateAndRecompute_def IterateRangeFindingPhase_def IterateBinarySearchPhase_def Let_def)

lemma sound_load: "sound_loads s \<Longrightarrow> \<not> isnan (current_load_value s)"
  by (cases "current_load_value s") (auto simp: sound_loads_def one_sided_def)

interpretation search: step_controller exponential_ops "search_from s0" "setter_abort s0" for s0
proof
  fix s r
  assume "search_from s0 s"
  then show "search_from s0 (update exponential_ops r s)"
    by (auto simp: search_from_def exponential_ops_def setter_update sound_loads_update)
next
  fix s f
  assume "search_from s0 s" "current_options exponential_ops s = Inl f"
  then show "setter_abort s0 f" using sound_load [of s]
    by (auto simp: search_from_def setter_abort_def exponential_ops_def GetCurrentCommandLineOptions_def)
qed

lemma new_controller_sound:
  assumes "new_ExponentialSearchStepController A config template = Inr s"
  shows "search_from s s"
proof -
  have s: "is_range_finding_phase s" "previous_load_value s = NaN" "0 < exponential_factor s"
    using new_controller [OF assms] by (auto simp: dbl_defs)
  have "pos_load (current_load_value s) \<or> neg_load (current_load_value s)"
    if "\<not> isnan (current_load_value s * exponential_factor s)"
    using that by (cases "current_load_value s") (auto simp: dbl_defs)
  then show ?thesis using s by (auto simp: search_from_def sound_loads_def one_sided_def)
qed

lemma load_plugin_Inr:
  assumes "load_plugin reg config = Inr (Inr p)"
  shows "\<exists>F. reg (ext_name config) = Inr F \<and> create_of F (typed_config config) = Inr p"
  using assms
  by (auto simp: load_plugin_def catch_EnvoyException_def map_sum_def split: sum.splits failure.splits if_splits)

lemma loaded_search:
  assumes "LoadStepControllerPluginFromSpec (exponential_registry E) spec = Inr s"
  shows "\<exists>config. unpack_exponential (plugins E) (typed_config (step_controller_config spec)) = Inr config
    \<and> new_ExponentialSearchStepController (plugins E) config (nighthawk_traffic_template spec) = Inr s"
proof -
  have "load_plugin (exponential_registry E (nighthawk_traffic_template spec)) (step_controller_config spec) = Inr (Inr s)"
    using assms by (auto simp: LoadStepControllerPluginFromSpec_def LoadStepControllerPlugin_def split: sum.splits)
  then show ?thesis
    by (auto dest!: load_plugin_Inr simp: exponential_registry_def ExponentialSearchStepControllerConfigFactory_def
        unpack_or_throw_def split: if_splits sum.splits)
qed

lemma rps_setter_failure: "RequestsPerSecond_SetInputVariable print options load = Inl f \<Longrightarrow> isnan load"
  by (cases load) (auto simp: RequestsPerSecond_SetInputVariable_def dbl_defs split: if_splits)



section \<open>The course of a session\<close>

text \<open>
  C25. A session that succeeds has run its adjusting stage until the step controller converged and no
  longer: after the last adjusting result the controller has converged and is not doomed, after every
  earlier one it had neither converged nor given up, and no check of the deadline after a benchmark had
  failed. The output has the testing stage's result and repeats the thresholds with their defaults.
\<close>

theorem session_outcome:
  assumes "PerformAdaptiveLoadSession E W ops controllers input_spec = Some (Inr (Inr out))"
  shows "\<exists>s. LoadStepControllerPluginFromSpec controllers (SetSessionSpecDefaults input_spec) = Inr s
    \<and> stage_history E W ops (SetSessionSpecDefaults input_spec) 0 s (adjusting_stage_results out)
    \<and> converged ops (fold (update ops) (adjusting_stage_results out) s)
    \<and> doomed ops (fold (update ops) (adjusting_stage_results out) s) = None
    \<and> testing_stage_result out \<noteq> None
    \<and> output_metric_thresholds out = metric_thresholds (SetSessionSpecDefaults input_spec)"
proof -
  let ?spec = "SetSessionSpecDefaults input_spec"
  obtain custom s s' rs where run: "LoadStepControllerPluginFromSpec controllers ?spec = Inr s"
      "adjusting_stage E W ops ?spec custom 0 s [] = Some (Inr (Inr (s', rs)))"
      "testing_stage E W ops ?spec custom s' rs = Inr (Inr out)"
    using assms unfolding PerformAdaptiveLoadSession_def Let_def
    by (auto split: sum.splits if_splits option.splits)
  have history: "s' = fold (update ops) rs s" "stage_history E W ops ?spec 0 s rs"
    using adjusting_history [OF run(2)] by auto
  have out: "adjusting_stage_results out = rs" "testing_stage_result out \<noteq> None" "doomed ops s' = None"
      "output_metric_thresholds out = metric_thresholds ?spec"
    using run(3) by (auto simp: testing_stage_def map_sum_def split: option.splits sum.splits)
  moreover have "converged ops s'" using history out(3) by (auto simp: stage_history_def Let_def)
  ultimately show ?thesis using run(1) history by auto
qed

text \<open>
  C26. A session ends, whatever the step controller, the service and the metrics do, once the clock has
  passed the convergence deadline at the check after some benchmark.
\<close>

theorem session_terminates:
  assumes "past_deadline E W (SetSessionSpecDefaults input_spec) m"
  shows "\<exists>r. PerformAdaptiveLoadSession E W ops controllers input_spec = Some r"
proof -
  have "\<exists>r. adjusting_stage E W ops (SetSessionSpecDefaults input_spec) custom 0 s [] = Some r" for custom s
    by (rule adjusting_returns [OF assms]) simp
  then obtain r where "\<And>custom s. adjusting_stage E W ops (SetSessionSpecDefaults input_spec) custom 0 s [] = Some (r custom s)"
    by metis
  then show ?thesis unfolding PerformAdaptiveLoadSession_def Let_def
    by (auto split: sum.splits if_splits)
qed

text \<open>A stage that does not return performs one benchmark after the other.\<close>

primrec endless_run ::
    "session_env \<Rightarrow> session_world \<Rightarrow> 's controller_ops \<Rightarrow> AdaptiveLoadSessionSpec \<Rightarrow> (string \<rightharpoonup> metrics_plugin) \<Rightarrow> 's \<Rightarrow> nat \<Rightarrow> 's" where
  "endless_run E W ops spec custom s 0 = s"
| "endless_run E W ops spec custom s (Suc n) =
     (case adjusting_benchmark E W ops spec custom n (endless_run E W ops spec custom s n) of
        Inr (Inr (r, s')) \<Rightarrow> s'
      | _ \<Rightarrow> endless_run E W ops spec custom s n)"

lemma endless_stage:
  assumes "adjusting_stage E W ops spec custom 0 s [] = None"
  shows "\<exists>acc. adjusting_stage E W ops spec custom n (endless_run E W ops spec custom s n) acc = None"
proof (induction n)
  case 0
  then show ?case using assms by auto
next
  case (Suc n)
  then obtain acc where "adjusting_stage E W ops spec custom n (endless_run E W ops spec custom s n) acc = None" by blast
  then show ?case by (rule adjusting_stageE) auto
qed

lemma endless_step:
  assumes "adjusting_stage E W ops spec custom 0 s [] = None"
  shows "\<exists>r. adjusting_benchmark E W ops spec custom n (endless_run E W ops spec custom s n)
      = Inr (Inr (r, endless_run E W ops spec custom s (Suc n)))
    \<and> \<not> converged ops (endless_run E W ops spec custom s (Suc n)) \<and> doomed ops (endless_run E W ops spec custom s (Suc n)) = None"
proof -
  obtain acc where "adjusting_stage E W ops spec custom n (endless_run E W ops spec custom s n) acc = None"
    using endless_stage [OF assms] by blast
  then show ?thesis by (rule adjusting_stageE) auto
qed

text \<open>A benchmark at a load above the rates that the setter accepts is not run.\<close>

lemma rps_benchmark_load:
  assumes "adjusting_benchmark E W exponential_ops spec custom n s = Inr (Inr p)"
    and "input_variable_setter s = RequestsPerSecond_SetInputVariable print" "current_load_value s = Fin l"
  shows "l \<le> 4294967295"
  using assms
  by (auto simp: PerformAndAnalyzeNighthawkBenchmark_def exponential_ops_def GetCurrentCommandLineOptions_def
      RequestsPerSecond_SetInputVariable_def dbl_defs split: if_splits)

lemma doublings_reach:
  assumes "load_floor \<le> v" "v \<le> 4294967295"
  obtains k where "v * 2 ^ k \<le> load_limit" "4294967295 < v * 2 ^ k"
proof -
  have v: "0 < v" using assms(1) load_floor_pos by linarith
  obtain m where "4294967295 / v < of_nat m" using reals_Archimedean2 by blast
  moreover have "(of_nat m :: rat) < 2 ^ m" by (metis of_nat_less_two_power)
  ultimately have "4294967295 / v < 2 ^ m" by linarith
  then have ex: "4294967295 < v * 2 ^ m" using v by (simp add: divide_less_eq mult.commute)
  define k where "k = (LEAST m. 4294967295 < v * 2 ^ m)"
  have k: "4294967295 < v * 2 ^ k" unfolding k_def using ex by (rule LeastI)
  then obtain j where j: "k = Suc j" using assms(2) by (cases k) auto
  then have "\<not> 4294967295 < v * 2 ^ j" unfolding k_def by (metis k_def lessI not_less_Least)
  then have "v * 2 ^ k \<le> 2 ^ 33" using j by simp
  also have "(2 :: rat) ^ 33 \<le> load_limit" unfolding load_limit_def by (rule power_increasing) simp_all
  finally show ?thesis using that k by blast
qed

lemma search_stage_returns:
  assumes new: "new_ExponentialSearchStepController A config template = Inr s" "exponential_factor s = Fin 2"
    and setter: "input_variable_setter s = RequestsPerSecond_SetInputVariable print"
    and v: "cfg_initial_value config = Fin v" "rnd v = v" "load_floor \<le> v"
  shows "\<exists>r. adjusting_stage E W exponential_ops spec custom 0 s [] = Some r"
proof (rule ccontr)
  assume "\<not> ?thesis"
  then have none: "adjusting_stage E W exponential_ops spec custom 0 s [] = None" by simp
  let ?run = "endless_run E W exponential_ops spec custom s"
  obtain rs where step: "\<And>n. adjusting_benchmark E W exponential_ops spec custom n (?run n) = Inr (Inr (rs n, ?run (Suc n)))"
      "\<And>n. \<not> IsConverged (?run (Suc n)) \<and> IsDoomed (?run (Suc n)) = None"
    using endless_step [OF none] unfolding exponential_ops_def by simp metis
  have next_run: "?run (Suc n) = UpdateAndRecompute (rs n) (?run n)" for n
    using benchmark_updates [OF step(1) [of n]] by (simp add: exponential_ops_def del: endless_run.simps(2))
  have after: "controller_after s rs n = ?run n" for n
    by (induction n) (simp_all add: next_run del: endless_run.simps(2))
  have "input_variable_setter (?run n) = RequestsPerSecond_SetInputVariable print" for n
    by (induction n) (simp_all add: next_run setter setter_update del: endless_run.simps(2))
  then have low: "current_load_value (?run n) = Fin l \<Longrightarrow> l \<le> 4294967295" for n l
    using rps_benchmark_load [OF step(1)] by blast
  then have "v \<le> 4294967295" using new_controller [OF new(1)] v(1) low [of 0 v] by simp
  then obtain k where k: "v * 2 ^ k \<le> load_limit" "4294967295 < v * 2 ^ k" using doublings_reach v(3) by blast
  have "\<exists>n \<le> k + 8. IsConverged (controller_after s rs n) \<or> IsDoomed (controller_after s rs n) \<noteq> None"
  proof (rule search_ends [OF new v k])
    fix n l
    assume "current_load_value (controller_after s rs n) = Fin l" "4294967295 < l"
    then show "TotalScore (rs n) < 0" using low [of n l] by (simp add: after)
  qed
  then obtain n where n: "IsConverged (?run n) \<or> IsDoomed (?run n) \<noteq> None" by (auto simp: after)
  then show False using step(2) new_controller [OF new(1)] by (cases n) (auto simp: IsConverged_def IsDoomed_def)
qed




section \<open>A concrete session\<close>

text \<open>A service that answers every request with the same output, and a metric outside its threshold.\<close>

definition demo_ns :: "proto_duration \<Rightarrow> int" where
  "demo_ns d = seconds d * 1000000000 + nanos d"

definition demo_env :: session_env where
  "demo_env =
     \<lparr>plugins = plain_adaptive_env
        \<lparr>unpack_binary := (\<lambda>_. Inr \<lparr>cfg_lower_threshold = Some 1, cfg_upper_threshold = None\<rparr>)\<rparr>,
      other_metrics = (\<lambda>_. Inl (EnvoyException ''unknown'')), validate_spec = (\<lambda>_. None),
      duration_s = seconds, duration_ms = (\<lambda>d. seconds d * 1000), duration_ns = demo_ns,
      time_plus = (\<lambda>a d. \<lparr>seconds = seconds a + seconds d, nanos = nanos a + nanos d\<rparr>),
      time_minus = (\<lambda>a b. \<lparr>seconds = seconds a - seconds b, nanos = nanos a - nanos b\<rparr>),
      time_less = (\<lambda>a b. demo_ns a < demo_ns b),
      systemClockToTimestamp = (\<lambda>_. zero_duration), print_code = (\<lambda>_. []), print_fixed2 = (\<lambda>_. []),
      missing_factory = (\<lambda>_. [])\<rparr>"

definition demo_latency :: StatisticProto where
  "demo_latency =
     \<lparr>proto_id = ''benchmark_http_client.request_to_response'', proto_count = 1,
      proto_mean = Inl zero_duration, proto_pstdev = Inl zero_duration, proto_min = Inl zero_duration,
      proto_max = Inl zero_duration, percentiles = []\<rparr>"

definition demo_result :: ResultProto where
  "demo_result =
     \<lparr>result_name = ''global'',
      statistics = [demo_latency],
      counters = [\<lparr>counter_name = ''upstream_rq_total'', counter_value = 1\<rparr>, \<lparr>counter_name = ''benchmark.http_2xx'', counter_value = 1\<rparr>],
      execution_duration = \<lparr>seconds = 1, nanos = 0\<rparr>, execution_start = None, user_defined_outputs = []\<rparr>"

definition demo_response :: ExecutionResponse where
  "demo_response = \<lparr>response_output = empty_output\<lparr>results := [demo_result]\<rparr>, error_detail = OkStatus\<rparr>"

definition demo_world :: "int \<Rightarrow> session_world" where
  "demo_world t =
     \<lparr>execution_stream = (\<lambda>_ _. \<lparr>write_ok = True, writes_done_ok = True, messages_read = [demo_response], finish_status = OkStatus\<rparr>),
      system_start = (\<lambda>_. 0), system_end = (\<lambda>_. 0), monotonic_start = 0, monotonic_after = (\<lambda>_ _. t)\<rparr>"

definition demo_spec :: AdaptiveLoadSessionSpec where
  "demo_spec =
     \<lparr>metrics_plugin_configs = [],
      metric_thresholds = [\<lparr>mst_metric_spec = \<lparr>metric_name = ''send-rate'', metrics_plugin_name = []\<rparr>,
        mst_threshold_spec = \<lparr>ts_scoring_function = \<lparr>ext_name = ''nighthawk.binary_scoring'', typed_config = []\<rparr>, ts_weight = None\<rparr>\<rparr>],
      informational_metric_specs = [], nighthawk_traffic_template = default_CommandLineOptions, measuring_period = None,
      convergence_deadline = None, testing_stage_duration = None, benchmark_cooldown_duration = None,
      step_controller_config = \<lparr>ext_name = ''nighthawk.exponential_search'', typed_config = []\<rparr>\<rparr>"

lemma demo_checked: "CheckSessionSpec demo_env (exponential_registry demo_env) (SetSessionSpecDefaults demo_spec) = Inr OkStatus"
  by code_simp

abbreviation demo_output :: Output where
  "demo_output \<equiv> empty_output\<lparr>results := [demo_result]\<rparr>"

lemma demo_period: "GetReportingPeriod demo_env demo_output = Inr \<lparr>period_start = zero_duration, period_duration = \<lparr>seconds = 1, nanos = 0\<rparr>\<rparr>"
  by code_simp

lemma demo_parts:
  "GetResult demo_output ''global'' = Inr demo_result" "length (results demo_output) = 1"
  "p_requests_per_second (out_options empty_output) = None"
  "execution_duration demo_result = \<lparr>seconds = 1, nanos = 0\<rparr>"
  "GetCounter demo_result ''upstream_rq_total'' = Inr 1" "GetCounter demo_result ''benchmark.http_2xx'' = Inr 1"
  "GetStatistic demo_result ''benchmark_http_client.request_to_response'' = Inr demo_latency"
  by code_simp+

lemma demo_metric: "GetMetricByName (new_NighthawkStatsEmulatedMetricsPlugin demo_env demo_output) ''send-rate'' = Inr 0"
  by (simp add: GetMetricByName_def new_NighthawkStatsEmulatedMetricsPlugin_def ExtractCounters_def ExtractStatistics_def Let_def
      demo_parts counter_or_nan_def get_or_def double_of_int_def demo_env_def demo_latency_def dbl_defs)

lemma demo_metric_specs:
  "ExtractMetricSpecs (SetSessionSpecDefaults demo_spec) =
     [(\<lparr>metric_name = ''send-rate'', metrics_plugin_name = ''nighthawk.builtin''\<rparr>,
       Some \<lparr>ts_scoring_function = \<lparr>ext_name = ''nighthawk.binary_scoring'', typed_config = []\<rparr>, ts_weight = Some 1\<rparr>)]"
  by code_simp

lemma demo_scoring:
  "LoadScoringFunctionPlugin (plugins demo_env) \<lparr>ext_name = ''nighthawk.binary_scoring'', typed_config = []\<rparr> =
     Inr (Inr (BinaryScoringFunction PosInf 1))"
  by (simp add: LoadScoringFunctionPlugin_def load_plugin_def catch_EnvoyException_def scoring_registry_def demo_env_def
      BinaryScoringFunctionConfigFactory_def accept_config_def ok_def unpack_or_throw_def new_BinaryScoringFunction_def get_or_def)

lemma demo_analysis:
  "AnalyzeNighthawkBenchmark demo_env n demo_response (SetSessionSpecDefaults demo_spec) custom =
   Inr (Inr \<lparr>nighthawk_service_output = demo_output,
     metric_evaluations = [\<lparr>metric_id = ''nighthawk.builtin/send-rate'', metric_value = 0, threshold_score = - 1, weight = 1\<rparr>],
     start_time = zero_duration, end_time = zero_duration\<rparr>)"
proof -
  have "\<not> (1 :: double) \<le> 0" by (simp add: dbl_defs)
  then show ?thesis
    by (simp add: AnalyzeNighthawkBenchmark_def Let_def demo_response_def demo_period demo_metric_specs EvaluateMetric_def GetMetric_def
        builtin_plugin_def demo_metric demo_scoring get_or_def)
qed

lemma demo_benchmark:
  "adjusting_benchmark demo_env (demo_world t) exponential_ops (SetSessionSpecDefaults demo_spec) custom n s = Inr (Inr (r, s'))
   \<Longrightarrow> TotalScore r = - 1"
  by (auto simp: PerformAndAnalyzeNighthawkBenchmark_def Let_def PerformNighthawkBenchmark_def demo_world_def demo_analysis ok_def
      TotalScore_def split: sum.splits)

lemma demo_loaded:
  "LoadStepControllerPluginFromSpec (exponential_registry demo_env) (SetSessionSpecDefaults demo_spec) =
     Inr (plain_controller (default_CommandLineOptions\<lparr>p_open_loop := Some True\<rparr>))"
proof -
  have "step_controller_config (SetSessionSpecDefaults demo_spec) = \<lparr>ext_name = ''nighthawk.exponential_search'', typed_config = []\<rparr>"
    "nighthawk_traffic_template (SetSessionSpecDefaults demo_spec) = default_CommandLineOptions\<lparr>p_open_loop := Some True\<rparr>"
    by code_simp+
  then show ?thesis
    by (simp add: LoadStepControllerPluginFromSpec_def LoadStepControllerPlugin_def load_plugin_def catch_EnvoyException_def
        exponential_registry_def ExponentialSearchStepControllerConfigFactory_def ExponentialSearch_ValidateConfig_def
        unpack_or_throw_def ok_def demo_env_def plain_adaptive_env_def new_ExponentialSearchStepController_def plain_controller_def dbl_defs)
qed

text \<open>The same session with a NaN as initial load passes the check.\<close>

definition nan_env :: session_env where
  "nan_env = demo_env\<lparr>plugins := plugins demo_env
     \<lparr>unpack_exponential := (\<lambda>_. Inr \<lparr>cfg_input_variable_setter = None, cfg_initial_value = NaN, cfg_exponential_factor = 0\<rparr>)\<rparr>\<rparr>"

lemma nan_checked: "CheckSessionSpec nan_env (exponential_registry nan_env) (SetSessionSpecDefaults demo_spec) = Inr OkStatus"
  by code_simp

lemma nan_session:
  "PerformAdaptiveLoadSession nan_env (demo_world 0) exponential_ops (exponential_registry nan_env) demo_spec
   = Some (Inl (UndefinedBehaviour ''conversion of a NaN to unsigned int''))"
proof -
  let ?spec = "SetSessionSpecDefaults demo_spec"
  have spec: "metrics_plugin_configs ?spec = []" "nighthawk_traffic_template ?spec = default_CommandLineOptions\<lparr>p_open_loop := Some True\<rparr>"
    "step_controller_config ?spec = \<lparr>ext_name = ''nighthawk.exponential_search'', typed_config = []\<rparr>" by code_simp+
  have "LoadStepControllerPluginFromSpec (exponential_registry nan_env) ?spec =
      Inr ((plain_controller (default_CommandLineOptions\<lparr>p_open_loop := Some True\<rparr>))\<lparr>current_load_value := NaN\<rparr>)"
    by (simp add: spec LoadStepControllerPluginFromSpec_def LoadStepControllerPlugin_def load_plugin_def catch_EnvoyException_def
        exponential_registry_def ExponentialSearchStepControllerConfigFactory_def ExponentialSearch_ValidateConfig_def
        unpack_or_throw_def ok_def nan_env_def demo_env_def plain_adaptive_env_def new_ExponentialSearchStepController_def
        plain_controller_def dbl_defs)
  moreover have "adjusting_benchmark E W exponential_ops sp custom 0
      ((plain_controller (default_CommandLineOptions\<lparr>p_open_loop := Some True\<rparr>))\<lparr>current_load_value := NaN\<rparr>) =
      Inl (UndefinedBehaviour ''conversion of a NaN to unsigned int'')" for E W sp custom
    by (simp add: PerformAndAnalyzeNighthawkBenchmark_def exponential_ops_def GetCurrentCommandLineOptions_def plain_controller_def
        RequestsPerSecond_SetInputVariable_def dbl_defs)
  moreover from this have "adjusting_stage E W exponential_ops sp custom 0
      ((plain_controller (default_CommandLineOptions\<lparr>p_open_loop := Some True\<rparr>))\<lparr>current_load_value := NaN\<rparr>) [] =
      Some (Inl (UndefinedBehaviour ''conversion of a NaN to unsigned int''))" for E W sp custom
    by (subst adjusting_stage.simps) simp
  ultimately show ?thesis using nan_checked
    by (simp add: PerformAdaptiveLoadSession_def Let_def spec ok_def)
qed

theorem reporting_period_is_intersection_witness:
  "session_time_laws demo_env demo_ns \<and> results demo_output \<noteq> []
   \<and> Max (run_start demo_ns ` set (results demo_output)) = 0 \<and> Min (run_end demo_ns ` set (results demo_output)) = 1000000000"
proof -
  have "session_time_laws demo_env demo_ns" by (auto simp: session_time_laws_def demo_env_def demo_ns_def algebra_simps)
  moreover have "results demo_output \<noteq> []" by simp
  ultimately show ?thesis using reporting_period_is_intersection [of demo_env demo_ns demo_output] demo_period
    by (simp add: demo_ns_def zero_duration_def)
qed


theorem session_terminates_witness:
  "\<exists>r. PerformAdaptiveLoadSession demo_env (demo_world 1000000000000) exponential_ops (exponential_registry demo_env) demo_spec = Some r"
proof (rule session_terminates)
  show "past_deadline demo_env (demo_world 1000000000000) (SetSessionSpecDefaults demo_spec) 0" by code_simp
qed


text \<open>A step controller that converges at once.\<close>

definition fixed_ops :: "unit controller_ops" where
  "fixed_ops = \<lparr>current_options = (\<lambda>_. Inr (Inr default_CommandLineOptions)), converged = (\<lambda>_. True), doomed = (\<lambda>_. None),
     update = (\<lambda>_ s. s)\<rparr>"

definition fixed_registry :: "CommandLineOptions \<Rightarrow> unit registry" where
  "fixed_registry _ _ = Inr \<lparr>ValidateConfig_of = accept_config, create_of = (\<lambda>_. Inr ())\<rparr>"

lemma fixed_session:
  "\<exists>out. PerformAdaptiveLoadSession demo_env (demo_world 0) fixed_ops fixed_registry demo_spec = Some (Inr (Inr out))"
proof -
  let ?spec = "SetSessionSpecDefaults demo_spec"
  have "CheckSessionSpec demo_env fixed_registry ?spec = Inr OkStatus" by code_simp
  moreover have "metrics_plugin_configs ?spec = []" "\<not> past_deadline demo_env (demo_world 0) ?spec 0" by code_simp+
  moreover have "LoadStepControllerPluginFromSpec fixed_registry ?spec = Inr ()"
    by (simp add: LoadStepControllerPluginFromSpec_def LoadStepControllerPlugin_def load_plugin_def catch_EnvoyException_def
        fixed_registry_def accept_config_def ok_def)
  moreover have "\<exists>r. PerformAndAnalyzeNighthawkBenchmark demo_env (demo_world 0) fixed_ops ?spec custom d n () = Inr (Inr (r, ()))" for custom d n
    by (simp add: PerformAndAnalyzeNighthawkBenchmark_def Let_def fixed_ops_def PerformNighthawkBenchmark_def demo_world_def ok_def demo_analysis)
  then obtain r where "\<And>custom d n. PerformAndAnalyzeNighthawkBenchmark demo_env (demo_world 0) fixed_ops ?spec custom d n () = Inr (Inr (r custom d n, ()))"
    by metis
  moreover from this have "adjusting_stage demo_env (demo_world 0) fixed_ops ?spec custom 0 () [] =
      Some (Inr (Inr ((), [r custom (get_or zero_duration (measuring_period ?spec)) 0])))" for custom
    using \<open>\<not> past_deadline demo_env (demo_world 0) ?spec 0\<close>
    by (subst adjusting_stage.simps) (simp add: fixed_ops_def)
  ultimately show ?thesis
    by (simp add: PerformAdaptiveLoadSession_def Let_def ok_def testing_stage_def) (simp add: fixed_ops_def)
qed

theorem session_outcome_witness:
  "\<exists>out. PerformAdaptiveLoadSession demo_env (demo_world 0) fixed_ops fixed_registry demo_spec = Some (Inr (Inr out))
     \<and> testing_stage_result out \<noteq> None"
  using fixed_session session_outcome [of demo_env "demo_world 0" fixed_ops fixed_registry demo_spec] by blast

end
