(* ===== verification/RequestSource.thy ===== *)
theory RequestSource
  imports UriUtility
begin

text \<open>
  Request sources: the static and the remote source (\<^verbatim>\<open>source/common/request_source_impl.{h,cc}\<close>),
  the gRPC client the remote source pulls from (\<^verbatim>\<open>request_stream_grpc_client_impl.{h,cc}\<close>), the
  options list plugins (\<^verbatim>\<open>source/request_source/request_options_list_plugin_impl.{h,cc}\<close>) and the
  plugin that generates completion requests (\<^verbatim>\<open>llm_request_source_plugin_impl.{h,cc}\<close>).

  Envoy's header map and the names it gives to request methods are parameters. A request generator
  is a function on the state its lambda captures.
\<close>

section \<open>Envoy's header maps\<close>

record 'h header_map =
  hm_create :: 'h
  hm_copyFrom :: "'h \<Rightarrow> 'h \<Rightarrow> 'h"
  hm_get :: "'h \<Rightarrow> string \<Rightarrow> string list"
  hm_remove :: "'h \<Rightarrow> string \<Rightarrow> 'h"
  hm_addCopy :: "'h \<Rightarrow> string \<Rightarrow> string \<Rightarrow> 'h"
  hm_setCopy :: "'h \<Rightarrow> string \<Rightarrow> string \<Rightarrow> 'h"
  hm_setInline :: "'h \<Rightarrow> string \<Rightarrow> string \<Rightarrow> 'h"
  LowerCaseString :: "string \<Rightarrow> string"
  RequestMethod_Name :: "int \<Rightarrow> string"

text \<open>
  What the code relies on: a new map is empty, copying into an empty map gives the same values,
  removing a name removes all its values, and setting a name, or adding it when it has no value,
  leaves exactly the given value.
\<close>

definition header_map_laws :: "'h header_map \<Rightarrow> bool" where
  "header_map_laws H \<longleftrightarrow>
     (\<forall>k. hm_get H (hm_create H) k = [])
     \<and> (\<forall>d s k. (\<forall>j. hm_get H d j = []) \<longrightarrow> hm_get H (hm_copyFrom H d s) k = hm_get H s k)
     \<and> (\<forall>h k j. hm_get H (hm_remove H h k) j = (if j = k then [] else hm_get H h j))
     \<and> (\<forall>h k v j. hm_get H h k = [] \<longrightarrow>
           hm_get H (hm_addCopy H h k v) j = (if j = k then [v] else hm_get H h j))
     \<and> (\<forall>h k v j. hm_get H (hm_setCopy H h k v) j = (if j = k then [v] else hm_get H h j))
     \<and> (\<forall>h k v j. hm_get H (hm_setInline H h k v) j = (if j = k then [v] else hm_get H h j))"

abbreviation "Method_name \<equiv> '':method''"
abbreviation "Path_name \<equiv> '':path''"
abbreviation "Host_name \<equiv> '':authority''"
abbreviation "Scheme_name \<equiv> '':scheme''"
abbreviation "ContentLength_name \<equiv> ''content-length''"
abbreviation "ContentType_name \<equiv> ''content-type''"

record 'h request =
  request_header :: 'h
  request_body :: string

section \<open>The static source\<close>

record 'h StaticRequestSource =
  static_header :: 'h
  yields_left :: u64

definition new_StaticRequestSource :: "'h option \<Rightarrow> u64 \<Rightarrow> failure + 'h StaticRequestSource" where
  "new_StaticRequestSource header max_yields =
     (case header of
        None \<Rightarrow> Inl (ReleaseAssertFailure (''header can'' @ quote_char # ''t equal nullptr''))
      | Some h \<Rightarrow> Inr \<lparr>static_header = h, yields_left = max_yields\<rparr>)"

text \<open>One call of the generator. The decrement happens even when nothing is left.\<close>

definition StaticRequestSource_get ::
    "'h StaticRequestSource \<Rightarrow> 'h request option \<times> 'h StaticRequestSource" where
  "StaticRequestSource_get s =
     (let s' = s\<lparr>yields_left := yields_left s - 1\<rparr>
      in if yields_left s \<noteq> 0
         then (Some \<lparr>request_header = static_header s, request_body = []\<rparr>, s')
         else (None, s'))"

section \<open>The gRPC client of the remote source\<close>

datatype oneof_headers = NoHeaders | V2Headers "(string \<times> string) list" | V3Headers "(string \<times> string) list"

record RequestSpecifier =
  spec_method :: "string option"
  spec_path :: "string option"
  spec_authority :: "string option"
  spec_content_length :: "u32 option"
  spec_headers :: oneof_headers

type_synonym RequestStreamResponse = "RequestSpecifier option"

text \<open>Replacing the value of a header.\<close>

definition replace_header :: "'h header_map \<Rightarrow> string \<times> string \<Rightarrow> 'h \<Rightarrow> 'h" where
  "replace_header H kv h =
     (let k = LowerCaseString H (fst kv) in hm_addCopy H (hm_remove H h k) k (snd kv))"

definition set_if :: "'h header_map \<Rightarrow> string \<Rightarrow> string option \<Rightarrow> 'h \<Rightarrow> 'h" where
  "set_if H name v h = (case v of None \<Rightarrow> h | Some v \<Rightarrow> hm_setInline H (hm_remove H h name) name v)"

text \<open>
  The header is shared with the request that is returned, which therefore has all the changes.
\<close>

definition messageToRequest :: "'h header_map \<Rightarrow> 'h \<Rightarrow> RequestStreamResponse \<Rightarrow> 'h request" where
  "messageToRequest H base msg =
     (let header = hm_copyFrom H (hm_create H) base;
          header =
            (case msg of
               None \<Rightarrow> header
             | Some r \<Rightarrow>
                 (let header = (case spec_headers r of
                                  V3Headers hs \<Rightarrow> fold (replace_header H) hs header
                                | V2Headers hs \<Rightarrow> fold (replace_header H) hs header
                                | NoHeaders \<Rightarrow> header);
                      header = set_if H ContentLength_name
                                 (map_option (\<lambda>n. show_nat (unat n)) (spec_content_length r)) header;
                      header = set_if H Host_name (spec_authority r) header;
                      header = set_if H Path_name (spec_path r) header
                  in set_if H Method_name (spec_method r) header))
      in \<lparr>request_header = header, request_body = []\<rparr>)"

text \<open>The stream is open or null; \<open>sent_quantities\<close> is what has been written to it.\<close>

record 'h grpc_client =
  stream :: bool
  messages :: "RequestStreamResponse list"
  in_flight_headers :: u32
  total_messages_received :: u32
  base_header :: 'h
  header_buffer_length :: u32
  sent_quantities :: "u64 list"

definition new_grpc_client :: "'h \<Rightarrow> u32 \<Rightarrow> 'h grpc_client" where
  "new_grpc_client base n =
     \<lparr>stream = False, messages = [], in_flight_headers = 0, total_messages_received = 0,
      base_header = base, header_buffer_length = n, sent_quantities = []\<rparr>"

definition trySendRequest :: "'h grpc_client \<Rightarrow> 'h grpc_client" where
  "trySendRequest c =
     (if stream c
      then c\<lparr>sent_quantities := sent_quantities c @ [ucast (header_buffer_length c)],
             in_flight_headers := header_buffer_length c\<rparr>
      else c)"

definition grpc_client_start :: "bool \<Rightarrow> 'h grpc_client \<Rightarrow> 'h grpc_client" where
  "grpc_client_start established c = trySendRequest (c\<lparr>stream := established\<rparr>)"

definition emplaceMessage :: "RequestStreamResponse \<Rightarrow> 'h grpc_client \<Rightarrow> 'h grpc_client" where
  "emplaceMessage m c = c\<lparr>messages := messages c @ [m]\<rparr>"

definition onReceiveMessage :: "RequestStreamResponse \<Rightarrow> 'h grpc_client \<Rightarrow> 'h grpc_client" where
  "onReceiveMessage m c =
     emplaceMessage m (c\<lparr>in_flight_headers := in_flight_headers c - 1,
                         total_messages_received := total_messages_received c + 1\<rparr>)"

text \<open>The result says whether the close is logged as an error.\<close>

definition onRemoteClose :: "'h grpc_client \<Rightarrow> bool \<times> 'h grpc_client" where
  "onRemoteClose c =
     (in_flight_headers c \<noteq> 0 \<or> total_messages_received c = 0, c\<lparr>stream := False\<rparr>)"

definition streamStatusKnown :: "'h grpc_client \<Rightarrow> bool" where
  "streamStatusKnown c \<longleftrightarrow> \<not> stream c \<or> 0 < total_messages_received c"

definition maybeDequeue :: "'h header_map \<Rightarrow> 'h grpc_client \<Rightarrow> 'h request option \<times> 'h grpc_client" where
  "maybeDequeue H c =
     (case messages c of
        [] \<Rightarrow> (None, c)
      | m # ms \<Rightarrow>
          (let c' = c\<lparr>messages := ms\<rparr>
           in (Some (messageToRequest H (base_header c) m),
               if in_flight_headers c' = 0 \<and> length ms < unat (header_buffer_length c')
               then trySendRequest c' else c')))"

section \<open>The remote source\<close>

text \<open>
  The cluster lookup, the construction of the client and what one run of the dispatcher does to the
  client (and the time after it) come from Envoy. The loop waits for the first answer or a minute.
\<close>

record 'h RemoteRequestSource =
  service_cluster_name :: string
  grpc_client :: "'h grpc_client option"
  remote_base_header :: 'h
  remote_header_buffer_length :: u32

record 'h remote_environment =
  active_clusters :: "string list"
  client_factory :: "string option"
  stream_established :: bool
  start_time :: int
  dispatcher_run :: "nat \<Rightarrow> 'h grpc_client \<Rightarrow> 'h grpc_client"
  time_after :: "nat \<Rightarrow> int"

definition STREAM_SETUP_TIMEOUT :: int where
  "STREAM_SETUP_TIMEOUT = 60 * 1000000000"

partial_function (option) setup_loop ::
    "'h remote_environment \<Rightarrow> nat \<Rightarrow> 'h grpc_client \<Rightarrow> 'h grpc_client option" where
  "setup_loop E i c =
     (let c' = dispatcher_run E i c;
          timeout = STREAM_SETUP_TIMEOUT < time_after E i - start_time E
      in if \<not> streamStatusKnown c' \<and> \<not> timeout then setup_loop E (Suc i) c' else Some c')"

definition connectToRequestStreamGrpcService ::
    "'h remote_environment \<Rightarrow> 'h RemoteRequestSource \<Rightarrow> (failure + 'h RemoteRequestSource) option" where
  "connectToRequestStreamGrpcService E s =
     (if service_cluster_name s \<notin> set (active_clusters E)
      then Some (Inl (ReleaseAssertFailure (''Failed to find service cluster '' @ service_cluster_name s)))
      else case client_factory E of
        Some err \<Rightarrow> Some (Inl (EnvoyException err))
      | None \<Rightarrow>
          map_option (\<lambda>c. Inr (s\<lparr>grpc_client := Some c\<rparr>))
            (setup_loop E 0
               (grpc_client_start (stream_established E)
                  (new_grpc_client (remote_base_header s) (remote_header_buffer_length s)))))"

definition RemoteRequestSource_destroyOnThread :: "'h RemoteRequestSource \<Rightarrow> 'h RemoteRequestSource" where
  "RemoteRequestSource_destroyOnThread s = s\<lparr>grpc_client := None\<rparr>"

text \<open>A call before the source is initialised dereferences a null pointer: \<open>None\<close>.\<close>

definition RemoteRequestSource_get ::
    "'h header_map \<Rightarrow> 'h RemoteRequestSource \<Rightarrow> ('h request option \<times> 'h RemoteRequestSource) option" where
  "RemoteRequestSource_get H s =
     (case grpc_client s of
        None \<Rightarrow> None
      | Some c \<Rightarrow> (case maybeDequeue H c of (r, c') \<Rightarrow> Some (r, s\<lparr>grpc_client := Some c'\<rparr>)))"

section \<open>Options lists\<close>

record RequestOptions =
  request_method :: int
  request_headers :: "(string \<times> string) list"
  request_body_size :: u32
  json_body :: string

record 'h OptionsListRequestSource =
  list_header :: 'h
  options_list :: "RequestOptions list"
  request_count :: "u32 list"
  total_requests :: u32

definition new_OptionsListRequestSource ::
    "u32 \<Rightarrow> 'h \<Rightarrow> RequestOptions list \<Rightarrow> 'h OptionsListRequestSource" where
  "new_OptionsListRequestSource n header options =
     \<lparr>list_header = header, options_list = options, request_count = [], total_requests = n\<rparr>"

text \<open>\<^verbatim>\<open>get\<close> appends a counter and returns a generator with its own copy of it.\<close>

definition OptionsListRequestSource_get ::
    "'h OptionsListRequestSource \<Rightarrow> u32 \<times> 'h OptionsListRequestSource" where
  "OptionsListRequestSource_get s = (0, s\<lparr>request_count := request_count s @ [0]\<rparr>)"

definition option_to_request :: "'h header_map \<Rightarrow> 'h \<Rightarrow> RequestOptions \<Rightarrow> 'h request" where
  "option_to_request H header r =
     (let header = hm_setInline H header Method_name (RequestMethod_Name H (request_method r));
          content_length = (if json_body r \<noteq> [] then of_nat (length (json_body r)) else request_body_size r);
          header = (if 0 < content_length
                    then hm_setInline H header ContentLength_name (show_nat (unat content_length)) else header);
          header = (if json_body r \<noteq> []
                    then hm_setInline H header ContentType_name ''application/json'' else header);
          header = fold (\<lambda>kv h. hm_setCopy H h (LowerCaseString H (fst kv)) (snd kv)) (request_headers r) header
      in \<lparr>request_header = header, request_body = json_body r\<rparr>)"

definition options_generator ::
    "'h header_map \<Rightarrow> 'h OptionsListRequestSource \<Rightarrow> u32 \<Rightarrow> 'h request option \<times> u32" where
  "options_generator H s lambda_counter =
     (let header = hm_copyFrom H (hm_create H) (list_header s)
      in if total_requests s \<le> lambda_counter \<and> total_requests s \<noteq> 0 then (None, lambda_counter)
         else if options_list s = [] then (Some \<lparr>request_header = header, request_body = []\<rparr>, lambda_counter)
         else (let index = lambda_counter mod of_nat (length (options_list s))
               in (Some (option_to_request H header (options_list s ! unat index)), lambda_counter + 1)))"

text \<open>The plugin factories. Unpacking the configuration and reading the file belong to Envoy.\<close>

record FileBasedConfig =
  file_path :: string
  file_num_requests :: u32
  max_file_size :: "u32 option"

definition FileBased_createRequestSourcePlugin ::
    "status + FileBasedConfig \<Rightarrow> (string \<Rightarrow> int) \<Rightarrow> (string \<Rightarrow> status + RequestOptions list) \<Rightarrow> 'h
     \<Rightarrow> failure + 'h OptionsListRequestSource" where
  "FileBased_createRequestSourcePlugin unpacked fileSize loadFromFile header =
     (case unpacked of
        Inl e \<Rightarrow> Inl (EnvoyException (message e))
      | Inr config \<Rightarrow>
          (let limit = (case max_file_size config of None \<Rightarrow> 1000000 | Some n \<Rightarrow> n)
           in if uint limit < fileSize (file_path config)
              then Inl (NighthawkException ''file size must be less than max_file_size'')
              else case loadFromFile (file_path config) of
                Inl e \<Rightarrow> Inl (EnvoyException (message e))
              | Inr options \<Rightarrow> Inr (new_OptionsListRequestSource (file_num_requests config) header options)))"

record InLineConfig =
  inline_options_list :: "RequestOptions list"
  inline_num_requests :: u32

definition InLine_createRequestSourcePlugin ::
    "status + InLineConfig \<Rightarrow> 'h \<Rightarrow> failure + 'h OptionsListRequestSource" where
  "InLine_createRequestSourcePlugin unpacked header =
     (case unpacked of
        Inl e \<Rightarrow> Inl (EnvoyException (message e))
      | Inr config \<Rightarrow>
          Inr (new_OptionsListRequestSource (inline_num_requests config) header (inline_options_list config)))"

section \<open>Completion requests\<close>

record LlmConfig =
  llm_model_name :: string
  llm_req_token_count :: int
  llm_resp_max_tokens :: int
  llm_options_list :: "RequestOptions list"

record 'h LlmRequestSource =
  model_name :: string
  req_token_count :: int
  resp_max_tokens :: int
  llm_header :: 'h

definition ValidateConfig :: "LlmConfig \<Rightarrow> status" where
  "ValidateConfig c =
     (if llm_model_name c = [] then Status kInvalidArgument ''Model name is required.'' else OkStatus)"

definition kCharset :: string where
  "kCharset = ''0123456789ABCDEFGHIJKLMNOPQRSTUVWXYZabcdefghijklmnopqrstuvwxyz''"

text \<open>\<open>draw i\<close> is the index the \<open>i\<close>-th draw of the bit generator gives.\<close>

function prompt_loop :: "(nat \<Rightarrow> nat) \<Rightarrow> int \<Rightarrow> int \<Rightarrow> string \<Rightarrow> string" where
  "prompt_loop draw num_tokens i result =
     (if i < num_tokens
      then prompt_loop draw num_tokens (i + 1)
             (result @ [kCharset ! draw (nat i)] @ (if i < num_tokens - 1 then '' '' else []))
      else result)"
  by pat_completeness auto
termination by (relation "measure (\<lambda>(_, n, i, _). nat (n - i))") auto

declare prompt_loop.simps [simp del]

definition GenerateRandomPrompt :: "(nat \<Rightarrow> nat) \<Rightarrow> int \<Rightarrow> string" where
  "GenerateRandomPrompt draw num_tokens = prompt_loop draw num_tokens 0 []"

text \<open>The value of the enumerator \<^verbatim>\<open>RequestMethod::POST\<close>.\<close>

definition POST_method :: int where
  "POST_method = 3"

definition completion_body :: "string \<Rightarrow> int \<Rightarrow> string \<Rightarrow> string" where
  "completion_body model max_tokens content =
     [newline] @ ''      {'' @
     [newline] @ ''        '' @ [dquote] @ ''model'' @ [dquote] @ '': '' @ [dquote] @ model @ [dquote] @ '','' @
     [newline] @ ''        '' @ [dquote] @ ''max_tokens'' @ [dquote] @ '': '' @ show_int max_tokens @ '','' @
     [newline] @ ''        '' @ [dquote] @ ''messages'' @ [dquote] @ '': ['' @
     [newline] @ ''          {'' @
     [newline] @ ''            '' @ [dquote] @ ''role'' @ [dquote] @ '': '' @ [dquote] @ ''user'' @ [dquote] @ '','' @
     [newline] @ ''            '' @ [dquote] @ ''content'' @ [dquote] @ '': '' @ [dquote] @ content @ [dquote] @
     [newline] @ ''          }'' @
     [newline] @ ''        ]'' @
     [newline] @ ''      }'' @
     [newline] @ ''    ''"

definition LlmRequestSource_get ::
    "'h header_map \<Rightarrow> (nat \<Rightarrow> nat) \<Rightarrow> 'h LlmRequestSource \<Rightarrow> 'h request" where
  "LlmRequestSource_get H draw s =
     (let headers = hm_copyFrom H (hm_create H) (llm_header s);
          body = completion_body (model_name s) (resp_max_tokens s)
                   (GenerateRandomPrompt draw (req_token_count s));
          headers = hm_setInline H headers Method_name (RequestMethod_Name H POST_method);
          headers = hm_setInline H headers ContentType_name ''application/json'';
          headers = hm_setInline H headers ContentLength_name (show_nat (length body));
          headers = hm_setCopy H headers (LowerCaseString H Path_name) ''/v1/completions''
      in \<lparr>request_header = headers, request_body = body\<rparr>)"

definition Llm_createRequestSourcePlugin ::
    "'h header_map \<Rightarrow> status + LlmConfig \<Rightarrow> 'h \<Rightarrow> failure + 'h LlmRequestSource" where
  "Llm_createRequestSourcePlugin H unpacked header =
     (case unpacked of
        Inl e \<Rightarrow> Inl (EnvoyException (message e))
      | Inr config \<Rightarrow>
          (let st = ValidateConfig config
           in if \<not> ok st then Inl (EnvoyException (message st))
              else
                (let header = fold (\<lambda>kv h. hm_setCopy H h (LowerCaseString H (fst kv)) (snd kv))
                                (concat (map request_headers (llm_options_list config))) header
                 in Inr \<lparr>model_name = llm_model_name config, req_token_count = llm_req_token_count config,
                         resp_max_tokens = llm_resp_max_tokens config, llm_header = header\<rparr>)))"

section \<open>Lemmas\<close>

named_theorems header_simps \<open>what the header map operations leave\<close>

lemma header_lawsD:
  assumes "header_map_laws H"
  shows header_create: "hm_get H (hm_create H) k = []"
    and header_copy: "hm_get H (hm_copyFrom H (hm_create H) s) k = hm_get H s k"
    and header_remove: "hm_get H (hm_remove H h k) j = (if j = k then [] else hm_get H h j)"
    and header_setCopy: "hm_get H (hm_setCopy H h k v) j = (if j = k then [v] else hm_get H h j)"
    and header_setInline: "hm_get H (hm_setInline H h k v) j = (if j = k then [v] else hm_get H h j)"
  using assms unfolding header_map_laws_def by simp_all

lemma header_addCopy:
  "header_map_laws H \<Longrightarrow> hm_get H h k = [] \<Longrightarrow>
     hm_get H (hm_addCopy H h k v) j = (if j = k then [v] else hm_get H h j)"
  unfolding header_map_laws_def by blast

lemma header_replace:
  assumes "header_map_laws H"
  shows "hm_get H (replace_header H kv h) j =
    (if j = LowerCaseString H (fst kv) then [snd kv] else hm_get H h j)"
  using assms by (simp add: replace_header_def Let_def header_addCopy header_remove)

lemma header_set_if:
  assumes "header_map_laws H"
  shows "hm_get H (set_if H k v h) j = (if j = k \<and> v \<noteq> None then [the v] else hm_get H h j)"
  using assms by (simp add: set_if_def header_setInline header_remove split: option.split)

text \<open>The last of a list of headers with a given name, in any letter case.\<close>

definition last_header :: "'h header_map \<Rightarrow> string \<Rightarrow> (string \<times> string) list \<Rightarrow> string option" where
  "last_header H k hs = map_of (rev (map (\<lambda>kv. (LowerCaseString H (fst kv), snd kv)) hs)) k"

lemma last_header_Nil [simp]: "last_header H k [] = None"
  by (simp add: last_header_def)

lemma last_header_snoc [simp]:
  "last_header H k (hs @ [kv]) = (if k = LowerCaseString H (fst kv) then Some (snd kv) else last_header H k hs)"
  by (simp add: last_header_def)

lemma fold_headers:
  assumes step: "\<And>kv h. hm_get H (f kv h) k = (if k = LowerCaseString H (fst kv) then [snd kv] else hm_get H h k)"
  shows "hm_get H (fold f hs h) k = (case last_header H k hs of Some v \<Rightarrow> [v] | None \<Rightarrow> hm_get H h k)"
  by (induction hs rule: rev_induct) (simp_all add: step)

lemmas fold_replace_headers = fold_headers [where f = "replace_header H" for H, OF header_replace]

lemmas fold_setCopy_headers =
  fold_headers [where f = "\<lambda>kv h. hm_setCopy H h (LowerCaseString H (fst kv)) (snd kv)" for H, OF header_setCopy]

text \<open>A header map as an association list, on which the properties are exercised.\<close>

definition assoc_headers :: "(string \<times> string) list header_map" where
  "assoc_headers =
     \<lparr>hm_create = [], hm_copyFrom = (\<lambda>d s. d @ s),
      hm_get = (\<lambda>h k. map snd (filter (\<lambda>kv. fst kv = k) h)),
      hm_remove = (\<lambda>h k. filter (\<lambda>kv. fst kv \<noteq> k) h),
      hm_addCopy = (\<lambda>h k v. h @ [(k, v)]),
      hm_setCopy = (\<lambda>h k v. filter (\<lambda>kv. fst kv \<noteq> k) h @ [(k, v)]),
      hm_setInline = (\<lambda>h k v. filter (\<lambda>kv. fst kv \<noteq> k) h @ [(k, v)]),
      LowerCaseString = str_lower,
      RequestMethod_Name = (\<lambda>m. if m = 3 then ''POST'' else ''GET'')\<rparr>"

lemma filter_none_eq_Nil: "(\<forall>j. filter (\<lambda>kv. fst kv = j) d = []) \<Longrightarrow> d = []"
  by (metis (mono_tags) filter_empty_conv list.set_intros(1) neq_Nil_conv)

lemma assoc_headers_laws: "header_map_laws assoc_headers"
proof -
  have "filter (\<lambda>kv. fst kv \<noteq> k \<and> fst kv = j) h = (if j = k then [] else filter (\<lambda>kv. fst kv = j) h)"
    for j k and h :: "(string \<times> string) list"
    by (auto intro: filter_cong)
  then show ?thesis
    by (auto simp: header_map_laws_def assoc_headers_def dest!: filter_none_eq_Nil)
qed

section \<open>Properties\<close>



text \<open>Repeated calls of a generator.\<close>

fun options_run :: "'h header_map \<Rightarrow> 'h OptionsListRequestSource \<Rightarrow> nat \<Rightarrow> u32 \<Rightarrow> 'h request option list" where
  "options_run H s 0 c = []"
| "options_run H s (Suc n) c = (case options_generator H s c of (r, c') \<Rightarrow> r # options_run H s n c')"

text \<open>What the \<open>i\<close>-th call of a generator is meant to give.\<close>

definition options_spec :: "'h header_map \<Rightarrow> 'h OptionsListRequestSource \<Rightarrow> nat \<Rightarrow> 'h request option" where
  "options_spec H s i =
     (if total_requests s \<noteq> 0 \<and> unat (total_requests s) \<le> i then None
      else Some (option_to_request H (hm_copyFrom H (hm_create H) (list_header s))
                   (options_list s ! (i mod length (options_list s)))))"

definition options_counter :: "'h OptionsListRequestSource \<Rightarrow> nat \<Rightarrow> nat" where
  "options_counter s i = (if total_requests s \<noteq> 0 then min i (unat (total_requests s)) else i)"

lemma unat_of_nat_mod:
  assumes "i < 2 ^ 32" "n < 2 ^ 32"
  shows "unat ((of_nat i :: u32) mod of_nat n) = i mod n"
  using assms by (simp add: unat_mod unat_of_nat)

lemma options_step:
  assumes "options_list s \<noteq> []" "length (options_list s) < 2 ^ 32" "i < 2 ^ 32"
  shows "options_generator H s (of_nat (options_counter s i)) = (options_spec H s i, of_nat (options_counter s (Suc i)))"
proof -
  define c where "c = (of_nat (options_counter s i) :: u32)"
  have c: "unat c = options_counter s i"
    using assms(3) unat_lt2p [of "total_requests s"]
    by (simp add: c_def unat_of_nat options_counter_def min_def)
  show ?thesis
  proof (cases "total_requests s \<noteq> 0 \<and> unat (total_requests s) \<le> i")
    case True
    then have "unat c = unat (total_requests s)" "options_counter s (Suc i) = options_counter s i"
      using c by (simp_all add: options_counter_def)
    then show ?thesis using True
      by (simp add: options_generator_def options_spec_def word_le_nat_alt flip: c_def)
  next
    case False
    then have ci: "options_counter s i = i" "options_counter s (Suc i) = Suc i"
      by (auto simp: options_counter_def)
    have "\<not> (total_requests s \<le> c \<and> total_requests s \<noteq> 0)"
      using False c ci by (auto simp: word_le_nat_alt)
    moreover have "unat (c mod of_nat (length (options_list s))) = i mod length (options_list s)"
      using assms ci by (simp add: c_def unat_of_nat_mod)
    ultimately show ?thesis using False assms(1) ci c_def
      by (simp add: options_generator_def options_spec_def Let_def add.commute)
  qed
qed

text \<open>
  An options list source replays its list in a cycle: the \<open>i\<close>-th call gives the request built
  from option \<open>i\<close> modulo the length of the list, up to the configured number of requests, after
  which it gives nothing; zero means no limit.
\<close>

theorem options_list_cycles:
  assumes "options_list s \<noteq> []" "length (options_list s) < 2 ^ 32" "n \<le> 2 ^ 32"
  shows "options_run H s n (fst (OptionsListRequestSource_get s)) = map (options_spec H s) [0..<n]"
proof -
  have "m + n \<le> 2 ^ 32 \<Longrightarrow>
      options_run H s n (of_nat (options_counter s m)) = map (options_spec H s) [m..<m + n]" for m
  proof (induction n arbitrary: m)
    case (Suc n)
    have "[m..<m + Suc n] = m # [Suc m..<Suc m + n]" by (simp add: upt_conv_Cons del: upt_Suc)
    then show ?case
      using options_step [OF assms(1,2), of m H] Suc.IH [of "Suc m"] Suc.prems by (simp del: upt_Suc)
  qed simp
  note run = this [of 0]
  have "options_counter s 0 = 0" by (simp add: options_counter_def)
  with run show ?thesis
    using assms(3) by (simp add: OptionsListRequestSource_get_def)
qed

theorem options_list_cycles_witness:
  "options_run assoc_headers
     (new_OptionsListRequestSource 3 []
        [\<lparr>request_method = 3, request_headers = [], request_body_size = 0, json_body = ''{}''\<rparr>,
         \<lparr>request_method = 1, request_headers = [(''X'', ''y'')], request_body_size = 0, json_body = []\<rparr>])
     4 0
   = [Some \<lparr>request_header = [('':method'', ''POST''), (''content-length'', ''2''), (''content-type'', ''application/json'')],
            request_body = ''{}''\<rparr>,
      Some \<lparr>request_header = [('':method'', ''GET''), (''x'', ''y'')], request_body = []\<rparr>,
      Some \<lparr>request_header = [('':method'', ''POST''), (''content-length'', ''2''), (''content-type'', ''application/json'')],
            request_body = ''{}''\<rparr>,
      None]"
proof -
  let ?s = "new_OptionsListRequestSource 3 ([] :: (string \<times> string) list)
        [\<lparr>request_method = 3, request_headers = [], request_body_size = 0, json_body = ''{}''\<rparr>,
         \<lparr>request_method = 1, request_headers = [(''X'', ''y'')], request_body_size = 0, json_body = []\<rparr>]"
  have two: "show_nat 2 = ''2''" by (simp add: show_nat.simps str_simps)
  have x: "str_lower ''X'' = ''x''" by code_simp
  have "options_run assoc_headers ?s 4 (fst (OptionsListRequestSource_get ?s)) = map (options_spec assoc_headers ?s) [0..<4]"
    by (rule options_list_cycles) (simp_all add: new_OptionsListRequestSource_def)
  then show ?thesis
    by (simp add: OptionsListRequestSource_get_def options_spec_def new_OptionsListRequestSource_def
        option_to_request_def assoc_headers_def Let_def two x upt_conv_Cons)
qed

text \<open>
  With an empty options list the configured number of requests is ignored: the source gives the
  default request for ever.
\<close>

theorem options_list_empty_never_ends:
  assumes "options_list s = []" "0 < total_requests s"
  shows "options_run H s n (fst (OptionsListRequestSource_get s)) =
    replicate n (Some \<lparr>request_header = hm_copyFrom H (hm_create H) (list_header s), request_body = []\<rparr>)"
proof -
  have "options_run H s n 0 =
      replicate n (Some \<lparr>request_header = hm_copyFrom H (hm_create H) (list_header s), request_body = []\<rparr>)"
    using assms by (induction n) (auto simp: options_generator_def)
  then show ?thesis by (simp add: OptionsListRequestSource_get_def)
qed

theorem options_list_empty_never_ends_witness:
  "options_run assoc_headers (new_OptionsListRequestSource 1 [(''a'', ''b'')] []) 3 0 =
     replicate 3 (Some \<lparr>request_header = [(''a'', ''b'')], request_body = []\<rparr>)"
  using options_list_empty_never_ends [of "new_OptionsListRequestSource 1 [(''a'', ''b'')] []" assoc_headers 3]
  by (simp add: OptionsListRequestSource_get_def new_OptionsListRequestSource_def assoc_headers_def)

text \<open>Repeated calls of the static generator.\<close>

fun static_run :: "nat \<Rightarrow> 'h StaticRequestSource \<Rightarrow> 'h request option list" where
  "static_run 0 s = []"
| "static_run (Suc n) s = (case StaticRequestSource_get s of (r, s') \<Rightarrow> r # static_run n s')"

lemma static_run_yields:
  "static_run (n + m) \<lparr>static_header = h, yields_left = w\<rparr> =
     replicate n (Some \<lparr>request_header = h, request_body = []\<rparr>)
     @ static_run m \<lparr>static_header = h, yields_left = w - of_nat n\<rparr>" if "n \<le> unat w"
  using that
proof (induction n arbitrary: w)
  case (Suc n)
  then have "w \<noteq> 0" by (auto simp: unat_eq_0)
  moreover from this have "unat (w - 1) = unat w - 1" by (simp add: unat_minus_one)
  ultimately show ?case using Suc.IH [of "w - 1"] Suc.prems
    by (simp add: StaticRequestSource_get_def Let_def algebra_simps)
qed simp

text \<open>
  A static source gives its request the configured number of times and then nothing, but only
  once: the decrement past zero wraps around and the next call gives the request again.
\<close>

theorem static_source_wraps:
  "static_run (unat w + 2) \<lparr>static_header = h, yields_left = w\<rparr> =
     replicate (unat w) (Some \<lparr>request_header = h, request_body = []\<rparr>)
     @ [None, Some \<lparr>request_header = h, request_body = []\<rparr>]"
proof -
  have two: "static_run 2 s = static_run (Suc (Suc 0)) s" for s :: "'a StaticRequestSource"
    by (simp only: numeral_2_eq_2)
  show ?thesis
    unfolding static_run_yields [of "unat w" w 2 h, OF order_refl] two
    by (simp add: StaticRequestSource_get_def)
qed

text \<open>
  The flow of the remote source. The server sends no more messages than were asked for; requests are
  taken at any time and the stream may close. \<open>grpc_reach\<close> collects what was received and delivered.
\<close>

inductive grpc_reach ::
    "'h header_map \<Rightarrow> 'h grpc_client \<Rightarrow> RequestStreamResponse list \<Rightarrow> 'h request list \<Rightarrow> 'h grpc_client \<Rightarrow> bool"
  for H c0 where
  started: "grpc_reach H c0 [] [] c0"
| received: "grpc_reach H c0 rs ds c \<Longrightarrow> stream c \<Longrightarrow> in_flight_headers c \<noteq> 0 \<Longrightarrow>
     grpc_reach H c0 (rs @ [m]) ds (onReceiveMessage m c)"
| dequeued: "grpc_reach H c0 rs ds c \<Longrightarrow> maybeDequeue H c = (r, c') \<Longrightarrow>
     grpc_reach H c0 rs (ds @ (case r of None \<Rightarrow> [] | Some q \<Rightarrow> [q])) c'"
| closed: "grpc_reach H c0 rs ds c \<Longrightarrow> grpc_reach H c0 rs ds (snd (onRemoteClose c))"

definition grpc_ok :: "'h header_map \<Rightarrow> 'h \<Rightarrow> u32 \<Rightarrow> RequestStreamResponse list \<Rightarrow> 'h request list \<Rightarrow> 'h grpc_client \<Rightarrow> bool" where
  "grpc_ok H base n rs ds c \<longleftrightarrow>
     base_header c = base \<and> header_buffer_length c = n
     \<and> length (messages c) + unat (in_flight_headers c) < 2 * unat n
     \<and> (stream c \<longrightarrow> in_flight_headers c \<noteq> 0 \<or> messages c \<noteq> [])
     \<and> length ds + length (messages c) = length rs
     \<and> messages c = drop (length ds) rs
     \<and> ds = map (messageToRequest H base) (take (length ds) rs)"

lemma grpc_ok_receive:
  assumes "grpc_ok H base n rs ds c" "in_flight_headers c \<noteq> 0"
  shows "grpc_ok H base n (rs @ [m]) ds (onReceiveMessage m c)"
proof -
  have "unat (in_flight_headers c - 1) = unat (in_flight_headers c) - 1" "0 < unat (in_flight_headers c)"
    using assms(2) by (simp_all add: unat_minus_one unat_gt_0)
  then show ?thesis using assms
    by (auto simp: grpc_ok_def onReceiveMessage_def emplaceMessage_def)
qed

lemma grpc_ok_dequeue:
  assumes inv: "grpc_ok H base n rs ds c" and deq: "maybeDequeue H c = (r, c')"
  shows "grpc_ok H base n rs (ds @ (case r of None \<Rightarrow> [] | Some q \<Rightarrow> [q])) c'"
proof (cases "messages c")
  case Nil
  then show ?thesis using assms by (simp add: maybeDequeue_def)
next
  case (Cons m ms)
  define d where "d = c\<lparr>messages := ms\<rparr>"
  have r: "r = Some (messageToRequest H base m)"
    and c': "c' = (if in_flight_headers d = 0 \<and> length ms < unat (header_buffer_length d) then trySendRequest d else d)"
    using deq Cons inv by (auto simp: maybeDequeue_def grpc_ok_def d_def Let_def)
  have "length ds < length rs" and dr: "drop (length ds) rs = m # ms"
    using inv Cons by (auto simp: grpc_ok_def)
  then have nth: "rs ! length ds = m" and dr': "drop (Suc (length ds)) rs = ms"
    by (metis Cons_nth_drop_Suc list.inject)+
  have ds: "ds @ [messageToRequest H base m] = map (messageToRequest H base) (take (Suc (length ds)) rs)"
    using inv \<open>length ds < length rs\<close> nth by (simp add: grpc_ok_def take_Suc_conv_app_nth) 
  have sum: "length ms + unat (in_flight_headers d) < 2 * unat n"
    using inv Cons by (simp add: grpc_ok_def d_def)
  have c'_messages: "messages c' = ms" "base_header c' = base" "header_buffer_length c' = n"
    using inv by (auto simp: c' trySendRequest_def d_def grpc_ok_def)
  have "length ms + unat (in_flight_headers c') < 2 * unat n"
    using sum inv by (auto simp: c' trySendRequest_def d_def grpc_ok_def)
  moreover have "stream c' \<longrightarrow> in_flight_headers c' \<noteq> 0 \<or> ms \<noteq> []"
    using sum inv by (auto simp: c' trySendRequest_def d_def grpc_ok_def)
  ultimately show ?thesis
    using inv Cons r ds dr' c'_messages by (auto simp: grpc_ok_def)
qed

lemma grpc_reach_ok:
  assumes "grpc_reach H c0 rs ds c" "c0 = grpc_client_start established (new_grpc_client base n)" "0 < n"
  shows "grpc_ok H base n rs ds c"
  using assms
proof (induction rule: grpc_reach.induct)
  case started
  then show ?case
    by (auto simp: grpc_ok_def grpc_client_start_def new_grpc_client_def trySendRequest_def unat_gt_0 word_neq_0_conv)
next
  case closed
  then show ?case by (auto simp: grpc_ok_def onRemoteClose_def)
qed (auto intro: grpc_ok_receive grpc_ok_dequeue)

text \<open>
  C11. The remote source delivers the requests of the messages it received in order, without loss or
  repetition; at any time fewer than twice the configured number of headers are buffered or in
  flight; and while the stream is open there is always a message buffered or in flight, so the
  source never stalls.
\<close>

theorem remote_source_flow:
  assumes "grpc_reach H (grpc_client_start established (new_grpc_client base n)) rs ds c" "0 < n"
  shows "ds = map (messageToRequest H base) (take (length ds) rs) \<and> messages c = drop (length ds) rs
    \<and> length (messages c) + unat (in_flight_headers c) < 2 * unat n
    \<and> (stream c \<longrightarrow> in_flight_headers c \<noteq> 0 \<or> messages c \<noteq> [])"
  using grpc_reach_ok [OF assms(1) refl assms(2)] by (auto simp: grpc_ok_def)

theorem remote_source_flow_witness:
  "\<exists>c. grpc_reach assoc_headers (grpc_client_start True (new_grpc_client [(''a'', ''b'')] 1)) [None]
         [messageToRequest assoc_headers [(''a'', ''b'')] None] c
     \<and> messages c = [] \<and> in_flight_headers c \<noteq> 0"
proof -
  let ?c0 = "grpc_client_start True (new_grpc_client [(''a'', ''b'')] 1)"
  let ?c1 = "onReceiveMessage None ?c0"
  obtain r c where deq: "maybeDequeue assoc_headers ?c1 = (r, c)" by (cases "maybeDequeue assoc_headers ?c1")
  then have r: "r = Some (messageToRequest assoc_headers [(''a'', ''b'')] None)" and "stream c" "messages c = []"
    by (auto simp: maybeDequeue_def onReceiveMessage_def emplaceMessage_def grpc_client_start_def
        trySendRequest_def new_grpc_client_def)
  have "grpc_reach assoc_headers ?c0 ([] @ [None]) [] ?c1"
    by (rule grpc_reach.received [OF grpc_reach.started])
      (simp_all add: grpc_client_start_def trySendRequest_def new_grpc_client_def)
  from grpc_reach.dequeued [OF this deq]
  have "grpc_reach assoc_headers ?c0 [None] [messageToRequest assoc_headers [(''a'', ''b'')] None] c"
    by (simp add: r)
  moreover from remote_source_flow [OF this] have "in_flight_headers c \<noteq> 0"
    using \<open>stream c\<close> \<open>messages c = []\<close> by simp
  ultimately show ?thesis using \<open>messages c = []\<close> by blast
qed

lemma setup_loop_returns:
  assumes "STREAM_SETUP_TIMEOUT < time_after E k - start_time E"
  shows "i \<le> k \<Longrightarrow> \<exists>c'. setup_loop E i c = Some c'"
proof (induction "k - i" arbitrary: i c)
  case 0
  then have "i = k" by simp
  then show ?case using assms by (subst setup_loop.simps) (simp add: Let_def)
next
  case (Suc d)
  then show ?case using Suc.hyps(1) [of "Suc i"] by (subst setup_loop.simps) (simp add: Let_def)
qed

text \<open>
  C13. Initialising the remote source always returns, provided only that the clock advances past the
  timeout of one minute: a silent server cannot block the worker for ever.
\<close>

theorem remote_setup_returns:
  assumes "\<exists>k. STREAM_SETUP_TIMEOUT < time_after E k - start_time E"
  shows "\<exists>r. connectToRequestStreamGrpcService E s = Some r"
proof -
  obtain k where "STREAM_SETUP_TIMEOUT < time_after E k - start_time E" using assms by blast
  from setup_loop_returns [OF this, of 0] show ?thesis
    by (auto simp: connectToRequestStreamGrpcService_def split: option.split)
qed

theorem remote_setup_returns_witness:
  "\<exists>r. connectToRequestStreamGrpcService
     \<lparr>active_clusters = [''c''], client_factory = None, stream_established = True, start_time = 0,
      dispatcher_run = (\<lambda>i c. c), time_after = (\<lambda>i. int i * 1000000000)\<rparr>
     \<lparr>service_cluster_name = ''c'', grpc_client = None, remote_base_header = (), remote_header_buffer_length = 5\<rparr>
     = Some r"
  by (rule remote_setup_returns) (rule exI [of _ 61], simp add: STREAM_SETUP_TIMEOUT_def)

lemma kCharset_length [simp]: "length kCharset = 62"
  by code_simp

lemma prompt_loop_join:
  "0 \<le> i \<Longrightarrow> prompt_loop draw n i r =
     r @ str_join '' '' (map (\<lambda>j. [kCharset ! draw j]) [nat i..<nat n])"
proof (induction draw n i r rule: prompt_loop.induct)
  case (1 draw n i r)
  show ?case
  proof (cases "i < n")
    case True
    have up: "[nat i..<nat n] = nat i # [nat (i + 1)..<nat n]"
      using True 1(2) by (simp add: upt_conv_Cons nat_add_distrib)
    have last: "i < n - 1 \<longleftrightarrow> [nat (i + 1)..<nat n] \<noteq> []" using 1(2) by auto
    show ?thesis
      using 1(1) [OF True] 1(2) True
      by (subst prompt_loop.simps) (simp add: up last str_join_Cons)
  qed (use 1(2) in \<open>simp add: prompt_loop.simps\<close>)
qed

text \<open>
  A completion request carries the number of one-character tokens that was configured, separated
  by single spaces, and announces its body's length.
\<close>

theorem completion_request_tokens:
  assumes "header_map_laws H" "LowerCaseString H Path_name = Path_name"
    and "0 < req_token_count s" "\<forall>i. draw i < length kCharset"
  shows "hm_get H (request_header (LlmRequestSource_get H draw s)) ContentLength_name
        = [show_nat (length (request_body (LlmRequestSource_get H draw s)))]
    \<and> (\<exists>pre post. request_body (LlmRequestSource_get H draw s)
        = pre @ GenerateRandomPrompt draw (req_token_count s) @ post)
    \<and> str_split (CHR '' '') (GenerateRandomPrompt draw (req_token_count s))
        = map (\<lambda>i. [kCharset ! draw i]) [0..<nat (req_token_count s)]"
proof (intro conjI)
  show "hm_get H (request_header (LlmRequestSource_get H draw s)) ContentLength_name
        = [show_nat (length (request_body (LlmRequestSource_get H draw s)))]"
    by (simp add: LlmRequestSource_get_def Let_def header_setCopy [OF assms(1)] header_setInline [OF assms(1)] assms(2))
  show "\<exists>pre post. request_body (LlmRequestSource_get H draw s)
        = pre @ GenerateRandomPrompt draw (req_token_count s) @ post"
    unfolding LlmRequestSource_get_def completion_body_def Let_def request.simps
    by (metis append.assoc)
  have "CHR '' '' \<notin> set kCharset" by (simp add: kCharset_def)
  then have "kCharset ! draw i \<noteq> CHR '' ''" for i using assms(4) by (metis nth_mem)
  then show "str_split (CHR '' '') (GenerateRandomPrompt draw (req_token_count s))
        = map (\<lambda>i. [kCharset ! draw i]) [0..<nat (req_token_count s)]"
    unfolding GenerateRandomPrompt_def prompt_loop_join [OF order_refl] append_Nil nat_0
    by (intro str_split_join) (use assms(3) in \<open>auto dest: sym\<close>)
qed

theorem completion_request_tokens_witness:
  "str_split (CHR '' '') (GenerateRandomPrompt (\<lambda>i. 10 + i) 3) = [''A'', ''B'', ''C'']"
proof -
  have l: "LowerCaseString assoc_headers Path_name = Path_name"
    by (simp add: assoc_headers_def str_lower_def lower_char_def)
  have "str_split (CHR '' '') (GenerateRandomPrompt (\<lambda>i. (10 + i) mod 62) 3)
      = map (\<lambda>i. [kCharset ! ((10 + i) mod 62)]) [0..<3]"
    using completion_request_tokens [OF assoc_headers_laws l, of "\<lparr>model_name = ''m'', req_token_count = 3,
      resp_max_tokens = 1, llm_header = []\<rparr>" "\<lambda>i. (10 + i) mod 62"]
    by simp
  moreover have "GenerateRandomPrompt (\<lambda>i. (10 + i) mod 62) 3 = GenerateRandomPrompt (\<lambda>i. 10 + i) 3"
    by (simp add: GenerateRandomPrompt_def prompt_loop_join upt_conv_Cons)
  ultimately show ?thesis by (simp add: kCharset_def upt_conv_Cons)
qed

end
