(* ===== verification/BenchmarkClient.thy ===== *)
theory BenchmarkClient
  imports RequestSource Output
begin

text \<open>
  The benchmark client (\<^verbatim>\<open>source/client/benchmark_client_impl.{h,cc}\<close>) and the decoder it creates for
  each request (\<^verbatim>\<open>source/client/stream_decoder.{h,cc}\<close>).

  Envoy's connection pool and codecs are the environment: they deliver events to the decoders. A
  decoder is identified by the number of the request it was created for; \<open>decoders\<close> holds the ones
  that have not been handed to the dispatcher for deletion, and an event for any other one is a use
  of freed memory. The calls a decoder makes on its encoder deliver no event to it. \<open>callbacks\<close> records how the completion callbacks of the requests were called.
  Statistics are the lists of the values added to them. Tracing (a decoder with an active span) is
  left out.
\<close>

section \<open>What Envoy reports\<close>

datatype PoolFailureReason =
  PoolOverflow | PoolLocalConnectionFailure | PoolRemoteConnectionFailure | PoolTimeout

datatype StreamResetReason =
    LocalConnectionFailure | RemoteConnectionFailure | ConnectionTimeout | ConnectionTermination
  | LocalReset | LocalRefusedStreamReset | Http1PrematureUpstreamHalfClose | Overflow | ConnectError
  | RemoteReset | RemoteRefusedStreamReset | RemoteResetNoError | ProtocolError | OverloadManager

datatype CoreResponseFlag =
    FlagUpstreamConnectionFailure | FlagUpstreamConnectionTermination | FlagLocalReset
  | FlagUpstreamOverflow | FlagUpstreamRemoteReset | FlagUpstreamProtocolError | FlagOverloadManager

fun streamResetReasonToResponseFlag :: "StreamResetReason \<Rightarrow> CoreResponseFlag" where
  "streamResetReasonToResponseFlag LocalConnectionFailure = FlagUpstreamConnectionFailure"
| "streamResetReasonToResponseFlag RemoteConnectionFailure = FlagUpstreamConnectionFailure"
| "streamResetReasonToResponseFlag ConnectionTimeout = FlagUpstreamConnectionFailure"
| "streamResetReasonToResponseFlag ConnectionTermination = FlagUpstreamConnectionTermination"
| "streamResetReasonToResponseFlag LocalReset = FlagLocalReset"
| "streamResetReasonToResponseFlag LocalRefusedStreamReset = FlagLocalReset"
| "streamResetReasonToResponseFlag Http1PrematureUpstreamHalfClose = FlagLocalReset"
| "streamResetReasonToResponseFlag Overflow = FlagUpstreamOverflow"
| "streamResetReasonToResponseFlag ConnectError = FlagUpstreamRemoteReset"
| "streamResetReasonToResponseFlag RemoteReset = FlagUpstreamRemoteReset"
| "streamResetReasonToResponseFlag RemoteRefusedStreamReset = FlagUpstreamRemoteReset"
| "streamResetReasonToResponseFlag RemoteResetNoError = FlagUpstreamRemoteReset"
| "streamResetReasonToResponseFlag ProtocolError = FlagUpstreamProtocolError"
| "streamResetReasonToResponseFlag OverloadManager = FlagOverloadManager"

text \<open>
  An event carries the readings of the clock that its handler makes: the last two components of the
  events that can complete a request, and the time at which a ready stream has been written.
\<close>

datatype 'h stream_event =
    PoolReady int
  | PoolFailed PoolFailureReason
  | ResponseHeaders 'h bool int int
  | ResponseData string bool int int
  | ResponseTrailers int int
  | StreamReset StreamResetReason int int

text \<open>
  Envoy's header maps, the request generator (a function on its state) and the user defined output
  plugins (functions on theirs).
\<close>

record ('h, 'g, 'p) client_env =
  env_headers :: "'h header_map"
  byteSize :: "'h \<Rightarrow> u64"
  getResponseStatus :: "'h \<Rightarrow> u64"
  request_generator :: "'g \<Rightarrow> 'h request option \<times> 'g"
  plugin_handleHeaders :: "'p \<Rightarrow> 'h \<Rightarrow> status \<times> 'p"
  plugin_handleData :: "'p \<Rightarrow> string \<Rightarrow> status \<times> 'p"
  plugin_getPerWorkerOutput :: "'p \<Rightarrow> opaque status_or"
  status_ToString :: "status \<Rightarrow> string"

section \<open>State\<close>

text \<open>The request body written to a stream: a prefix of the shared upload content, or its own text.\<close>

datatype written_body = NoBody | StaticUpload u32 | OwnBody string

record 'h StreamDecoder =
  sd_request :: "'h request"
  sd_connect_start :: int
  sd_request_start :: int
  sd_complete :: bool
  sd_measure_latencies :: bool
  sd_request_body_size :: u32
  sd_latency_response_header_name :: string
  sd_response_headers :: "'h option"
  sd_response_code :: "u32 option"
  sd_bytes_sent :: u64
  sd_bytes_received :: u64
  sd_response_flag :: "CoreResponseFlag option"
  sd_written :: "(bool \<times> written_body) option"

record BenchmarkClientCounters =
  stream_resets :: u64
  http_1xx :: u64
  http_2xx :: u64
  http_3xx :: u64
  http_4xx :: u64
  http_5xx :: u64
  http_xxx :: u64
  pool_overflow :: u64
  pool_connection_failure :: u64
  user_defined_plugin_handle_headers_failure :: u64
  user_defined_plugin_handle_data_failure :: u64

record BenchmarkClientStatistic =
  connect_statistic :: "u64 list"
  response_statistic :: "u64 list"
  response_header_size_statistic :: "u64 list"
  response_body_size_statistic :: "u64 list"
  latency_1xx_statistic :: "u64 list"
  latency_2xx_statistic :: "u64 list"
  latency_3xx_statistic :: "u64 list"
  latency_4xx_statistic :: "u64 list"
  latency_5xx_statistic :: "u64 list"
  latency_xxx_statistic :: "u64 list"
  origin_latency_statistic :: "u64 list"

text \<open>A completion callback is called with the decoder's \<open>complete_\<close> and the success of the stream, or
  with two \<open>false\<close> for a pool failure.\<close>

datatype completion = StreamEnded bool bool | PoolFailureCallback

fun callback_arguments :: "completion \<Rightarrow> bool \<times> bool" where
  "callback_arguments (StreamEnded completed success) = (completed, success)"
| "callback_arguments PoolFailureCallback = (False, False)"

record ('h, 'g, 'p) BenchmarkClient =
  bc_protocol :: protocol
  bc_timeout :: int
  connection_limit :: u32
  max_pending_requests :: u32
  max_active_requests :: u32
  max_requests_per_connection :: u32
  requests_completed :: u64
  requests_initiated :: u64
  measure_latencies :: bool
  bc_counters :: BenchmarkClientCounters
  bc_statistic :: BenchmarkClientStatistic
  generator_state :: 'g
  provide_resource_backpressure :: bool
  latency_response_header_name :: string
  user_defined_output_plugins :: "(string \<times> 'p) list"
  decoders :: "nat \<Rightarrow> 'h StreamDecoder option"
  streams_created :: nat
  callbacks :: "(nat \<times> completion) list"

definition zero_counters :: BenchmarkClientCounters where
  "zero_counters = \<lparr>stream_resets = 0, http_1xx = 0, http_2xx = 0, http_3xx = 0, http_4xx = 0, http_5xx = 0,
     http_xxx = 0, pool_overflow = 0, pool_connection_failure = 0,
     user_defined_plugin_handle_headers_failure = 0, user_defined_plugin_handle_data_failure = 0\<rparr>"

definition empty_statistic :: BenchmarkClientStatistic where
  "empty_statistic = \<lparr>connect_statistic = [], response_statistic = [], response_header_size_statistic = [],
     response_body_size_statistic = [], latency_1xx_statistic = [], latency_2xx_statistic = [],
     latency_3xx_statistic = [], latency_4xx_statistic = [], latency_5xx_statistic = [],
     latency_xxx_statistic = [], origin_latency_statistic = []\<rparr>"

definition new_BenchmarkClient ::
    "protocol \<Rightarrow> 'g \<Rightarrow> bool \<Rightarrow> string \<Rightarrow> (string \<times> 'p) list \<Rightarrow> ('h, 'g, 'p) BenchmarkClient" where
  "new_BenchmarkClient proto g backpressure header_name plugins =
     \<lparr>bc_protocol = proto, bc_timeout = 30, connection_limit = 1, max_pending_requests = 1,
      max_active_requests = - 1, max_requests_per_connection = - 1, requests_completed = 0,
      requests_initiated = 0, measure_latencies = False, bc_counters = zero_counters,
      bc_statistic = empty_statistic, generator_state = g, provide_resource_backpressure = backpressure,
      latency_response_header_name = header_name, user_defined_output_plugins = plugins,
      decoders = (\<lambda>_. None), streams_created = 0, callbacks = []\<rparr>"

text \<open>\<^verbatim>\<open>statistics()\<close>: the statistics by the ids that the constructor sets, a map sorted by id.\<close>

definition BenchmarkClient_statistics :: "('h, 'g, 'p) BenchmarkClient \<Rightarrow> (string \<times> u64 list) list" where
  "BenchmarkClient_statistics c =
     (let s = bc_statistic c
      in fold (\<lambda>(k, v) m. map_set (''benchmark_http_client.'' @ k) v m)
           [(''queue_to_connect'', connect_statistic s), (''request_to_response'', response_statistic s),
            (''response_header_size'', response_header_size_statistic s),
            (''response_body_size'', response_body_size_statistic s),
            (''latency_1xx'', latency_1xx_statistic s), (''latency_2xx'', latency_2xx_statistic s),
            (''latency_3xx'', latency_3xx_statistic s), (''latency_4xx'', latency_4xx_statistic s),
            (''latency_5xx'', latency_5xx_statistic s), (''latency_xxx'', latency_xxx_statistic s),
            (''origin_latency_statistic'', origin_latency_statistic s)] [])"

section \<open>Callbacks from the decoders\<close>

definition count_status :: "u64 \<Rightarrow> BenchmarkClientCounters \<Rightarrow> BenchmarkClientCounters" where
  "count_status code_word k =
     (let st = sint code_word
      in if 99 < st \<and> st \<le> 199 then k\<lparr>http_1xx := http_1xx k + 1\<rparr>
         else if 199 < st \<and> st \<le> 299 then k\<lparr>http_2xx := http_2xx k + 1\<rparr>
         else if 299 < st \<and> st \<le> 399 then k\<lparr>http_3xx := http_3xx k + 1\<rparr>
         else if 399 < st \<and> st \<le> 499 then k\<lparr>http_4xx := http_4xx k + 1\<rparr>
         else if 499 < st \<and> st \<le> 599 then k\<lparr>http_5xx := http_5xx k + 1\<rparr>
         else k\<lparr>http_xxx := http_xxx k + 1\<rparr>)"

text \<open>Calling every plugin; the number of calls that returned an error.\<close>

fun call_plugins :: "('p \<Rightarrow> status \<times> 'p) \<Rightarrow> (string \<times> 'p) list \<Rightarrow> u64 \<times> (string \<times> 'p) list" where
  "call_plugins f [] = (0, [])"
| "call_plugins f ((name, p) # ps) =
     (case f p of (st, p') \<Rightarrow>
        (case call_plugins f ps of (errs, ps') \<Rightarrow>
           (if ok st then errs else errs + 1, (name, p') # ps')))"

definition BenchmarkClient_onComplete ::
    "('h, 'g, 'p) client_env \<Rightarrow> bool \<Rightarrow> 'h \<Rightarrow> ('h, 'g, 'p) BenchmarkClient \<Rightarrow> ('h, 'g, 'p) BenchmarkClient" where
  "BenchmarkClient_onComplete E success headers c =
     (let k = bc_counters c;
          k = (if \<not> success then k\<lparr>stream_resets := stream_resets k + 1\<rparr>
               else count_status (getResponseStatus E headers) k);
          (errs, ps) = call_plugins (\<lambda>p. plugin_handleHeaders E p headers) (user_defined_output_plugins c);
          k = k\<lparr>user_defined_plugin_handle_headers_failure := user_defined_plugin_handle_headers_failure k + errs\<rparr>
      in c\<lparr>requests_completed := requests_completed c + 1, bc_counters := k, user_defined_output_plugins := ps\<rparr>)"

definition handleResponseData ::
    "('h, 'g, 'p) client_env \<Rightarrow> string \<Rightarrow> ('h, 'g, 'p) BenchmarkClient \<Rightarrow> ('h, 'g, 'p) BenchmarkClient" where
  "handleResponseData E dat c =
     (let (errs, ps) = call_plugins (\<lambda>p. plugin_handleData E p dat) (user_defined_output_plugins c);
          k = bc_counters c
      in c\<lparr>bc_counters := k\<lparr>user_defined_plugin_handle_data_failure := user_defined_plugin_handle_data_failure k + errs\<rparr>,
           user_defined_output_plugins := ps\<rparr>)"

fun count_pool_failure :: "PoolFailureReason \<Rightarrow> BenchmarkClientCounters \<Rightarrow> BenchmarkClientCounters" where
  "count_pool_failure PoolOverflow k = k\<lparr>pool_overflow := pool_overflow k + 1\<rparr>"
| "count_pool_failure PoolLocalConnectionFailure k = k\<lparr>pool_connection_failure := pool_connection_failure k + 1\<rparr>"
| "count_pool_failure PoolRemoteConnectionFailure k = k\<lparr>pool_connection_failure := pool_connection_failure k + 1\<rparr>"
| "count_pool_failure PoolTimeout k = k"

definition BenchmarkClient_onPoolFailure ::
    "PoolFailureReason \<Rightarrow> ('h, 'g, 'p) BenchmarkClient \<Rightarrow> ('h, 'g, 'p) BenchmarkClient" where
  "BenchmarkClient_onPoolFailure reason c = c\<lparr>bc_counters := count_pool_failure reason (bc_counters c)\<rparr>"

definition exportLatency :: "u32 \<Rightarrow> u64 \<Rightarrow> BenchmarkClientStatistic \<Rightarrow> BenchmarkClientStatistic" where
  "exportLatency response_code latency_ns s =
     (if 99 < response_code \<and> response_code \<le> 199
        then s\<lparr>latency_1xx_statistic := latency_1xx_statistic s @ [latency_ns]\<rparr>
      else if 199 < response_code \<and> response_code \<le> 299
        then s\<lparr>latency_2xx_statistic := latency_2xx_statistic s @ [latency_ns]\<rparr>
      else if 299 < response_code \<and> response_code \<le> 399
        then s\<lparr>latency_3xx_statistic := latency_3xx_statistic s @ [latency_ns]\<rparr>
      else if 399 < response_code \<and> response_code \<le> 499
        then s\<lparr>latency_4xx_statistic := latency_4xx_statistic s @ [latency_ns]\<rparr>
      else if 499 < response_code \<and> response_code \<le> 599
        then s\<lparr>latency_5xx_statistic := latency_5xx_statistic s @ [latency_ns]\<rparr>
      else s\<lparr>latency_xxx_statistic := latency_xxx_statistic s @ [latency_ns]\<rparr>)"

definition BenchmarkClient_getUserDefinedOutputResults ::
    "('h, 'g, 'p) client_env \<Rightarrow> ('h, 'g, 'p) BenchmarkClient \<Rightarrow> UserDefinedOutput list" where
  "BenchmarkClient_getUserDefinedOutputResults E c =
     map (\<lambda>(name, p). \<lparr>plugin_name = name,
            plugin_output = (case plugin_getPerWorkerOutput E p of
                Inl st \<Rightarrow> ErrorMessage (status_ToString E st)
              | Inr any \<Rightarrow> TypedOutput any)\<rparr>)
       (user_defined_output_plugins c)"

section \<open>The stream decoder\<close>

definition new_StreamDecoder ::
    "int \<Rightarrow> 'h request \<Rightarrow> bool \<Rightarrow> u32 \<Rightarrow> string \<Rightarrow> 'h StreamDecoder" where
  "new_StreamDecoder now req measured body_size header_name =
     \<lparr>sd_request = req, sd_connect_start = now, sd_request_start = 0, sd_complete = False,
      sd_measure_latencies = measured, sd_request_body_size = body_size,
      sd_latency_response_header_name = header_name, sd_response_headers = None, sd_response_code = None,
      sd_bytes_sent = 0, sd_bytes_received = 0, sd_response_flag = None, sd_written = None\<rparr>"

definition staticUploadContent_size :: nat where
  "staticUploadContent_size = 4194304"

definition set_decoder :: "nat \<Rightarrow> 'h StreamDecoder \<Rightarrow> ('h, 'g, 'p) BenchmarkClient \<Rightarrow> ('h, 'g, 'p) BenchmarkClient" where
  "set_decoder i d c = c\<lparr>decoders := (decoders c)(i := Some d)\<rparr>"

text \<open>The caller's callback is called, then the decoder is handed over for deletion.\<close>

definition finish_decoder :: "nat \<Rightarrow> completion \<Rightarrow> ('h, 'g, 'p) BenchmarkClient \<Rightarrow> ('h, 'g, 'p) BenchmarkClient" where
  "finish_decoder i k c = c\<lparr>callbacks := callbacks c @ [(i, k)], decoders := (decoders c)(i := None)\<rparr>"

definition record_latency ::
    "int \<Rightarrow> int \<Rightarrow> 'h StreamDecoder \<Rightarrow> BenchmarkClientStatistic \<Rightarrow> BenchmarkClientStatistic" where
  "record_latency now now' d s =
     (let s = s\<lparr>response_statistic := response_statistic s @ [word_of_int (now - sd_request_start d)]\<rparr>
      in case sd_response_code d of
           Some response_code \<Rightarrow> exportLatency response_code (word_of_int (now' - sd_request_start d)) s
         | None \<Rightarrow> s)"

definition StreamDecoder_onComplete ::
    "('h, 'g, 'p) client_env \<Rightarrow> int \<Rightarrow> int \<Rightarrow> bool \<Rightarrow> nat \<Rightarrow> 'h StreamDecoder
      \<Rightarrow> ('h, 'g, 'p) BenchmarkClient \<Rightarrow> ('h, 'g, 'p) BenchmarkClient" where
  "StreamDecoder_onComplete E now now' success i d c =
     (let s = bc_statistic c;
          s = (if success \<and> sd_measure_latencies d then record_latency now now' d s else s);
          s = s\<lparr>response_body_size_statistic := response_body_size_statistic s @ [sd_bytes_sent d]\<rparr>;
          c = c\<lparr>bc_statistic := s\<rparr>;
          headers = (case sd_response_headers d of Some h \<Rightarrow> h | None \<Rightarrow> hm_create (env_headers E));
          c = BenchmarkClient_onComplete E success headers c
      in finish_decoder i (StreamEnded (sd_complete d) success) c)"

text \<open>The latency that the origin reports in a response header.\<close>

definition origin_delta :: "('h, 'g, 'p) client_env \<Rightarrow> string \<Rightarrow> 'h \<Rightarrow> u64 list" where
  "origin_delta E name headers =
     (if name = [] then []
      else (let timing = hm_get (env_headers E) headers (LowerCaseString (env_headers E) name)
            in if timing = [] then []
               else (case simple_atoi 64 (if length timing = 1 then hd timing else ''multiple values'') of
                       Some v \<Rightarrow> if 0 \<le> v then [word_of_int v] else []
                     | None \<Rightarrow> [])))"

definition decodeHeaders ::
    "('h, 'g, 'p) client_env \<Rightarrow> 'h \<Rightarrow> bool \<Rightarrow> int \<Rightarrow> int \<Rightarrow> nat \<Rightarrow> 'h StreamDecoder
      \<Rightarrow> ('h, 'g, 'p) BenchmarkClient \<Rightarrow> ('h, 'g, 'p) BenchmarkClient" where
  "decodeHeaders E headers end_stream now now' i d c =
     (let d = d\<lparr>sd_complete := end_stream, sd_response_headers := Some headers,
                sd_response_code := Some (ucast (getResponseStatus E headers))\<rparr>;
          s = bc_statistic c;
          s = s\<lparr>response_header_size_statistic := response_header_size_statistic s @ [byteSize E headers],
                origin_latency_statistic := origin_latency_statistic s
                  @ origin_delta E (sd_latency_response_header_name d) headers\<rparr>;
          c = set_decoder i d (c\<lparr>bc_statistic := s\<rparr>)
      in if sd_complete d then StreamDecoder_onComplete E now now' True i d c else c)"

definition decodeData ::
    "('h, 'g, 'p) client_env \<Rightarrow> string \<Rightarrow> bool \<Rightarrow> int \<Rightarrow> int \<Rightarrow> nat \<Rightarrow> 'h StreamDecoder
      \<Rightarrow> ('h, 'g, 'p) BenchmarkClient \<Rightarrow> ('h, 'g, 'p) BenchmarkClient" where
  "decodeData E dat end_stream now now' i d c =
     (let d = d\<lparr>sd_complete := end_stream, sd_bytes_sent := sd_bytes_sent d + of_nat (length dat)\<rparr>;
          c = set_decoder i d c;
          c = (if sd_complete d then StreamDecoder_onComplete E now now' True i d c else c)
      in handleResponseData E dat c)"

definition decodeTrailers ::
    "('h, 'g, 'p) client_env \<Rightarrow> int \<Rightarrow> int \<Rightarrow> nat \<Rightarrow> 'h StreamDecoder
      \<Rightarrow> ('h, 'g, 'p) BenchmarkClient \<Rightarrow> ('h, 'g, 'p) BenchmarkClient" where
  "decodeTrailers E now now' i d c =
     (let d = d\<lparr>sd_complete := True\<rparr>
      in StreamDecoder_onComplete E now now' True i d (set_decoder i d c))"

definition onResetStream ::
    "('h, 'g, 'p) client_env \<Rightarrow> StreamResetReason \<Rightarrow> int \<Rightarrow> int \<Rightarrow> nat \<Rightarrow> 'h StreamDecoder
      \<Rightarrow> ('h, 'g, 'p) BenchmarkClient \<Rightarrow> ('h, 'g, 'p) BenchmarkClient" where
  "onResetStream E reason now now' i d c =
     (let d = d\<lparr>sd_response_flag := Some (streamResetReasonToResponseFlag reason)\<rparr>
      in StreamDecoder_onComplete E now now' False i d (set_decoder i d c))"

definition StreamDecoder_onPoolFailure ::
    "PoolFailureReason \<Rightarrow> nat \<Rightarrow> ('h, 'g, 'p) BenchmarkClient \<Rightarrow> ('h, 'g, 'p) BenchmarkClient" where
  "StreamDecoder_onPoolFailure reason i c =
     finish_decoder i PoolFailureCallback (BenchmarkClient_onPoolFailure reason c)"

text \<open>
  Writing the request: the body is the request's own, or as many bytes of the shared upload content
  as the content length asks for, which is read past its end when that is longer.
\<close>

definition onPoolReady ::
    "int \<Rightarrow> nat \<Rightarrow> 'h StreamDecoder \<Rightarrow> ('h, 'g, 'p) BenchmarkClient
      \<Rightarrow> failure + ('h, 'g, 'p) BenchmarkClient" where
  "onPoolReady now i d c =
     (let size = sd_request_body_size d; body = request_body (sd_request d);
          end_stream = (size = 0 \<and> body = []);
          start = (\<lambda>d. let d = d\<lparr>sd_request_start := now\<rparr>; s = bc_statistic c
                       in set_decoder i d
                            (if sd_measure_latencies d
                             then c\<lparr>bc_statistic := s\<lparr>connect_statistic := connect_statistic s
                                       @ [word_of_int (now - sd_connect_start d)]\<rparr>\<rparr>
                             else c))
      in if end_stream then Inr (start (d\<lparr>sd_written := Some (True, NoBody)\<rparr>))
         else if body \<noteq> []
         then Inr (start (d\<lparr>sd_written := Some (False, OwnBody body),
                            sd_bytes_received := sd_bytes_received d + of_nat (length body)\<rparr>))
         else if unat size \<le> staticUploadContent_size
         then Inr (start (d\<lparr>sd_written := Some (False, StaticUpload size),
                            sd_bytes_received := sd_bytes_received d + ucast size\<rparr>))
         else Inl (UndefinedBehaviour ''read past the end of staticUploadContent()''))"

fun handle_event ::
    "('h, 'g, 'p) client_env \<Rightarrow> nat \<Rightarrow> 'h StreamDecoder \<Rightarrow> 'h stream_event
      \<Rightarrow> ('h, 'g, 'p) BenchmarkClient \<Rightarrow> failure + ('h, 'g, 'p) BenchmarkClient" where
  "handle_event E i d (PoolReady now) c = onPoolReady now i d c"
| "handle_event E i d (PoolFailed reason) c = Inr (StreamDecoder_onPoolFailure reason i c)"
| "handle_event E i d (ResponseHeaders h e now now') c = Inr (decodeHeaders E h e now now' i d c)"
| "handle_event E i d (ResponseData dat e now now') c = Inr (decodeData E dat e now now' i d c)"
| "handle_event E i d (ResponseTrailers now now') c = Inr (decodeTrailers E now now' i d c)"
| "handle_event E i d (StreamReset reason now now') c = Inr (onResetStream E reason now now' i d c)"

definition deliver ::
    "('h, 'g, 'p) client_env \<Rightarrow> nat \<Rightarrow> 'h stream_event
      \<Rightarrow> ('h, 'g, 'p) BenchmarkClient \<Rightarrow> failure + ('h, 'g, 'p) BenchmarkClient" where
  "deliver E i ev c =
     (case decoders c i of
        None \<Rightarrow> Inl (UndefinedBehaviour ''event for a deleted decoder'')
      | Some d \<Rightarrow> handle_event E i d ev c)"

section \<open>Starting requests\<close>

text \<open>\<open>max_pending_requests_\<close> is widened before the addition.\<close>

definition max_in_flight :: "('h, 'g, 'p) BenchmarkClient \<Rightarrow> u64" where
  "max_in_flight c =
     ucast (max_pending_requests c)
     + (if bc_protocol c = Http2 \<or> bc_protocol c = Http3 then ucast (max_active_requests c)
        else ucast (connection_limit c))"

definition request_content_length :: "'h header_map \<Rightarrow> 'h request \<Rightarrow> u64" where
  "request_content_length H req =
     (case hm_get H (request_header req) ContentLength_name of
        [] \<Rightarrow> 0
      | v # _ \<Rightarrow> (case simple_atou (2 ^ 64 - 1) v of Some n \<Rightarrow> of_nat n | None \<Rightarrow> 0))"

text \<open>
  One attempt: \<open>pool_available\<close> says whether the cluster manager gave a connection pool, \<open>now\<close> is the
  time at which the decoder is created, and \<open>inside\<close> are the events that the pool delivers to the new
  decoder before \<^verbatim>\<open>newStream\<close> returns (it may have a connection ready, or fail at once).
\<close>

definition tryStartRequest ::
    "('h, 'g, 'p) client_env \<Rightarrow> bool \<Rightarrow> int \<Rightarrow> 'h stream_event list
      \<Rightarrow> ('h, 'g, 'p) BenchmarkClient \<Rightarrow> failure + bool \<times> ('h, 'g, 'p) BenchmarkClient" where
  "tryStartRequest E pool_available now inside c =
     (if \<not> pool_available then Inr (False, c)
      else if provide_resource_backpressure c \<and> max_in_flight c \<le> requests_initiated c - requests_completed c
      then Inr (False, c)
      else (case request_generator E (generator_state c) of (req, g) \<Rightarrow>
        (let c = c\<lparr>generator_state := g\<rparr>
         in case req of
              None \<Rightarrow> Inr (False, c)
            | Some req \<Rightarrow>
                (let i = streams_created c;
                     d = new_StreamDecoder now req (measure_latencies c)
                           (ucast (request_content_length (env_headers E) req)) (latency_response_header_name c);
                     c = set_decoder i d (c\<lparr>streams_created := Suc i\<rparr>);
                     c = c\<lparr>requests_initiated := requests_initiated c + 1\<rparr>
                 in map_sum id (Pair True) (run_steps (map (deliver E i) inside) c)))))"

text \<open>The other operations that change the client.\<close>

definition setShouldMeasureLatencies :: "bool \<Rightarrow> ('h, 'g, 'p) BenchmarkClient \<Rightarrow> ('h, 'g, 'p) BenchmarkClient" where
  "setShouldMeasureLatencies b c = c\<lparr>measure_latencies := b\<rparr>"

text \<open>
  \<^verbatim>\<open>terminate()\<close>: with active connections latencies are no longer measured, and the dispatcher runs
  until the pool is idle or the drain timer, armed with the timeout, fires: \<open>drained\<close> are the events it
  delivers meanwhile.
\<close>

definition BenchmarkClient_terminate ::
    "('h, 'g, 'p) client_env \<Rightarrow> bool \<Rightarrow> (nat \<times> 'h stream_event) list
      \<Rightarrow> ('h, 'g, 'p) BenchmarkClient \<Rightarrow> failure + ('h, 'g, 'p) BenchmarkClient" where
  "BenchmarkClient_terminate E has_active_connections drained c =
     (if has_active_connections
      then run_steps (map (\<lambda>(i, ev). deliver E i ev) drained) (setShouldMeasureLatencies False c)
      else Inr c)"

section \<open>Runs of the client\<close>

inductive client_step ::
    "('h, 'g, 'p) client_env \<Rightarrow> ('h, 'g, 'p) BenchmarkClient \<Rightarrow> ('h, 'g, 'p) BenchmarkClient \<Rightarrow> bool" for E where
  start: "tryStartRequest E pool now inside c = Inr (started, c') \<Longrightarrow> client_step E c c'"
| event: "deliver E i ev c = Inr c' \<Longrightarrow> client_step E c c'"
| measuring: "client_step E c (setShouldMeasureLatencies b c)"

inductive client_reach ::
    "('h, 'g, 'p) client_env \<Rightarrow> ('h, 'g, 'p) BenchmarkClient \<Rightarrow> ('h, 'g, 'p) BenchmarkClient \<Rightarrow> bool" for E c0 where
  initial: "client_reach E c0 c0"
| stepped: "client_reach E c0 c \<Longrightarrow> client_step E c c' \<Longrightarrow> client_reach E c0 c'"

section \<open>How an event changes the books\<close>

definition ended :: "('h, 'g, 'p) BenchmarkClient \<Rightarrow> nat" where
  "ended c = length (filter (\<lambda>(_, k). k \<noteq> PoolFailureCallback) (callbacks c))"

definition leaked :: "('h, 'g, 'p) BenchmarkClient \<Rightarrow> nat" where
  "leaked c = length (filter (\<lambda>(_, k). k = PoolFailureCallback) (callbacks c))"

definition in_flight :: "('h, 'g, 'p) BenchmarkClient \<Rightarrow> nat" where
  "in_flight c = card (dom (decoders c))"

definition responses_counted :: "BenchmarkClientCounters \<Rightarrow> u64" where
  "responses_counted k = stream_resets k + http_1xx k + http_2xx k + http_3xx k + http_4xx k + http_5xx k + http_xxx k"

definition latencies_by_class :: "BenchmarkClientStatistic \<Rightarrow> nat" where
  "latencies_by_class s = length (latency_1xx_statistic s) + length (latency_2xx_statistic s)
     + length (latency_3xx_statistic s) + length (latency_4xx_statistic s)
     + length (latency_5xx_statistic s) + length (latency_xxx_statistic s)"

text \<open>What the accounting rests on, apart from the decoders and the callbacks.\<close>

definition books :: "('h, 'g, 'p) BenchmarkClient \<Rightarrow> nat \<times> u64 \<times> u64 \<times> u64 \<times> nat \<times> nat \<times> nat" where
  "books c = (streams_created c, requests_initiated c, requests_completed c, responses_counted (bc_counters c),
     length (response_body_size_statistic (bc_statistic c)), length (response_statistic (bc_statistic c)),
     latencies_by_class (bc_statistic c))"

definition settings :: "('h, 'g, 'p) BenchmarkClient \<Rightarrow> bool \<times> u64" where
  "settings c = (provide_resource_backpressure c, max_in_flight c)"

definition decoder_transition ::
    "nat \<Rightarrow> ('h, 'g, 'p) BenchmarkClient \<Rightarrow> ('h, 'g, 'p) BenchmarkClient \<Rightarrow> bool" where
  "decoder_transition i c c' \<longleftrightarrow> settings c' = settings c \<and>
     ((\<exists>d. decoders c' = (decoders c)(i := Some d)) \<and> callbacks c' = callbacks c \<and> books c' = books c
      \<or> decoders c' = (decoders c)(i := None) \<and> callbacks c' = callbacks c @ [(i, PoolFailureCallback)]
        \<and> books c' = books c
      \<or> decoders c' = (decoders c)(i := None) \<and> (\<exists>b b'. callbacks c' = callbacks c @ [(i, StreamEnded b b')])
        \<and> (\<exists>r l. l \<le> r \<and> r \<le> 1 \<and>
             books c' = (streams_created c, requests_initiated c, requests_completed c + 1,
               responses_counted (bc_counters c) + 1,
               length (response_body_size_statistic (bc_statistic c)) + 1,
               length (response_statistic (bc_statistic c)) + r, latencies_by_class (bc_statistic c) + l)))"

lemma count_status_counted [simp]: "responses_counted (count_status w k) = responses_counted k + 1"
  by (simp add: count_status_def responses_counted_def Let_def)

lemma pool_failure_counted [simp]: "responses_counted (count_pool_failure r k) = responses_counted k"
  by (cases r) (simp_all add: responses_counted_def)

lemma exportLatency_lengths [simp]:
  "latencies_by_class (exportLatency code_word v s) = Suc (latencies_by_class s)"
  "response_statistic (exportLatency code_word v s) = response_statistic s"
  "response_body_size_statistic (exportLatency code_word v s) = response_body_size_statistic s"
  by (simp_all add: exportLatency_def latencies_by_class_def)

lemma record_latency_lengths:
  "length (response_statistic (record_latency now now' d s)) = Suc (length (response_statistic s))"
  "response_body_size_statistic (record_latency now now' d s) = response_body_size_statistic s"
  "\<exists>l \<le> 1. latencies_by_class (record_latency now now' d s) = latencies_by_class s + l"
proof -
  have response: "latencies_by_class (s\<lparr>response_statistic := v\<rparr>) = latencies_by_class s" for s v
    by (simp add: latencies_by_class_def)
  show "length (response_statistic (record_latency now now' d s)) = Suc (length (response_statistic s))"
    "response_body_size_statistic (record_latency now now' d s) = response_body_size_statistic s"
    "\<exists>l \<le> 1. latencies_by_class (record_latency now now' d s) = latencies_by_class s + l"
    by (auto simp: record_latency_def Let_def response split: option.splits)
qed

lemma handleResponseData_frame [simp]:
  "decoders (handleResponseData E dat c) = decoders c"
  "callbacks (handleResponseData E dat c) = callbacks c"
  "books (handleResponseData E dat c) = books c"
  "settings (handleResponseData E dat c) = settings c"
  by (simp_all add: handleResponseData_def books_def responses_counted_def settings_def max_in_flight_def
      Let_def split: prod.splits)

lemma onPoolFailure_frame [simp]:
  "decoders (BenchmarkClient_onPoolFailure r c) = decoders c"
  "callbacks (BenchmarkClient_onPoolFailure r c) = callbacks c"
  "books (BenchmarkClient_onPoolFailure r c) = books c"
  "settings (BenchmarkClient_onPoolFailure r c) = settings c"
  by (simp_all add: BenchmarkClient_onPoolFailure_def books_def settings_def max_in_flight_def)

lemma client_onComplete_frame [simp]:
  "decoders (BenchmarkClient_onComplete E success h c) = decoders c"
  "callbacks (BenchmarkClient_onComplete E success h c) = callbacks c"
  "settings (BenchmarkClient_onComplete E success h c) = settings c"
  "bc_statistic (BenchmarkClient_onComplete E success h c) = bc_statistic c"
  "streams_created (BenchmarkClient_onComplete E success h c) = streams_created c"
  "requests_initiated (BenchmarkClient_onComplete E success h c) = requests_initiated c"
  "requests_completed (BenchmarkClient_onComplete E success h c) = requests_completed c + 1"
  by (simp_all add: BenchmarkClient_onComplete_def settings_def max_in_flight_def Let_def split: prod.splits)

lemma client_onComplete_counted [simp]:
  "responses_counted (bc_counters (BenchmarkClient_onComplete E success h c)) = responses_counted (bc_counters c) + 1"
proof -
  have plugin: "responses_counted (k\<lparr>user_defined_plugin_handle_headers_failure := n\<rparr>) = responses_counted k" for k n
    by (simp add: responses_counted_def)
  have "responses_counted (k\<lparr>stream_resets := stream_resets k + 1\<rparr>) = responses_counted k + 1" for k
    by (simp add: responses_counted_def)
  then show ?thesis by (simp add: BenchmarkClient_onComplete_def Let_def plugin split: prod.splits)
qed

lemma other_statistic_books:
  "books (c\<lparr>bc_statistic := (bc_statistic c)\<lparr>connect_statistic := v\<rparr>\<rparr>) = books c"
  "books (c\<lparr>bc_statistic := (bc_statistic c)\<lparr>response_header_size_statistic := v, origin_latency_statistic := w\<rparr>\<rparr>) = books c"
  "settings (c\<lparr>bc_statistic := st\<rparr>) = settings c"
  by (simp_all add: books_def latencies_by_class_def settings_def max_in_flight_def)

lemma finish_decoder_frame [simp]:
  "callbacks (finish_decoder i k c) = callbacks c @ [(i, k)]" "books (finish_decoder i k c) = books c"
  "settings (finish_decoder i k c) = settings c" "decoders (finish_decoder i k c) = (decoders c)(i := None)"
  by (simp_all add: finish_decoder_def books_def settings_def max_in_flight_def)

lemma onComplete_transition:
  assumes "callbacks c' = callbacks c" "books c' = books c" "settings c' = settings c"
    "\<exists>d. decoders c' = (decoders c)(i := d)"
  shows "decoder_transition i c (StreamDecoder_onComplete E now now' success i d c')"
proof -
  let ?s = "if success \<and> sd_measure_latencies d then record_latency now now' d (bc_statistic c') else bc_statistic c'"
  obtain r l where s: "l \<le> r" "r \<le> 1"
      "length (response_statistic ?s) = length (response_statistic (bc_statistic c')) + r"
      "response_body_size_statistic ?s = response_body_size_statistic (bc_statistic c')"
      "latencies_by_class ?s = latencies_by_class (bc_statistic c') + l"
    using record_latency_lengths [of now now' d "bc_statistic c'"] by (cases "success \<and> sd_measure_latencies d") auto
  have body: "latencies_by_class (u\<lparr>response_body_size_statistic := v\<rparr>) = latencies_by_class u" for u v
    by (simp add: latencies_by_class_def)
  define h where "h = (case sd_response_headers d of Some h \<Rightarrow> h | None \<Rightarrow> hm_create (env_headers E))"
  define c1 where "c1 = c'\<lparr>bc_statistic := ?s\<lparr>response_body_size_statistic
      := response_body_size_statistic ?s @ [sd_bytes_sent d]\<rparr>\<rparr>"
  have res: "StreamDecoder_onComplete E now now' success i d c'
      = finish_decoder i (StreamEnded (sd_complete d) success) (BenchmarkClient_onComplete E success h c1)"
    unfolding StreamDecoder_onComplete_def Let_def c1_def h_def by simp
  have c1: "callbacks c1 = callbacks c" "decoders c1 = decoders c'" "settings c1 = settings c"
      "streams_created c1 = streams_created c" "requests_initiated c1 = requests_initiated c"
      "requests_completed c1 = requests_completed c" "bc_counters c1 = bc_counters c'"
    using assms by (simp_all add: c1_def books_def other_statistic_books)
  have "books (BenchmarkClient_onComplete E success h c1)
      = (streams_created c, requests_initiated c, requests_completed c + 1, responses_counted (bc_counters c) + 1,
         length (response_body_size_statistic (bc_statistic c)) + 1,
         length (response_statistic (bc_statistic c)) + r, latencies_by_class (bc_statistic c) + l)"
    using assms(2) s c1 by (simp add: books_def c1_def body)
  then show ?thesis
    using assms(4) c1 s(1,2) unfolding res decoder_transition_def by auto
qed

lemma set_decoder_frame [simp]:
  "callbacks (set_decoder i d c) = callbacks c" "books (set_decoder i d c) = books c"
  "settings (set_decoder i d c) = settings c" "decoders (set_decoder i d c) = (decoders c)(i := Some d)"
  by (simp_all add: set_decoder_def books_def settings_def max_in_flight_def)

lemma handleResponseData_transition:
  "decoder_transition i c c' \<Longrightarrow> decoder_transition i c (handleResponseData E dat c')"
  by (simp add: decoder_transition_def)

lemma handle_event_transition:
  assumes "handle_event E i d ev c = Inr c'"
  shows "decoder_transition i c c'"
proof (cases ev)
  case (PoolReady now)
  let ?c = "\<lambda>d v. set_decoder i d (c\<lparr>bc_statistic := (bc_statistic c)\<lparr>connect_statistic := v\<rparr>\<rparr>)"
  have "decoder_transition i c (set_decoder i d' c)" "decoder_transition i c (?c d' v)" for d' v
    by (auto simp: decoder_transition_def other_statistic_books)
  then show ?thesis
    using assms PoolReady by (auto simp: onPoolReady_def Let_def split: if_splits)
next
  case (PoolFailed reason)
  then show ?thesis
    using assms by (auto simp: StreamDecoder_onPoolFailure_def decoder_transition_def)
next
  case (ResponseHeaders h e now now')
  let ?c = "\<lambda>d v w. set_decoder i d (c\<lparr>bc_statistic := (bc_statistic c)
      \<lparr>response_header_size_statistic := v, origin_latency_statistic := w\<rparr>\<rparr>)"
  have "decoder_transition i c (?c d' v w)" for d' v w
    by (auto simp: decoder_transition_def other_statistic_books)
  moreover have "decoder_transition i c (StreamDecoder_onComplete E now now' True i d' (?c d' v w))" for d' v w
    by (rule onComplete_transition) (auto simp: other_statistic_books)
  ultimately show ?thesis using assms ResponseHeaders by (auto simp: decodeHeaders_def Let_def)
next
  case (ResponseData dat e now now')
  have "decoder_transition i c (set_decoder i d' c)" for d' by (auto simp: decoder_transition_def)
  moreover have "decoder_transition i c (StreamDecoder_onComplete E now now' True i d' (set_decoder i d' c))" for d'
    by (rule onComplete_transition) auto
  ultimately show ?thesis
    using assms ResponseData by (auto simp: decodeData_def Let_def intro!: handleResponseData_transition)
next
  case (ResponseTrailers now now')
  then show ?thesis using assms by (auto simp: decodeTrailers_def Let_def intro!: onComplete_transition)
next
  case (StreamReset reason now now')
  then show ?thesis using assms by (auto simp: onResetStream_def Let_def intro!: onComplete_transition)
qed

section \<open>Accounting\<close>

definition fresh_client :: "('h, 'g, 'p) BenchmarkClient \<Rightarrow> bool" where
  "fresh_client c \<longleftrightarrow> (\<forall>i. decoders c i = None) \<and> callbacks c = [] \<and> books c = (0, 0, 0, 0, 0, 0, 0)"

text \<open>
  Every request created has its decoder alive or has been called back, once; the counters of the client
  count exactly the created and the ended ones.
\<close>

definition client_accounts :: "('h, 'g, 'p) BenchmarkClient \<Rightarrow> bool" where
  "client_accounts c \<longleftrightarrow>
     distinct (map fst (callbacks c))
     \<and> dom (decoders c) \<inter> fst ` set (callbacks c) = {}
     \<and> dom (decoders c) \<union> fst ` set (callbacks c) = {..<streams_created c}
     \<and> requests_initiated c = of_nat (streams_created c)
     \<and> requests_completed c = of_nat (ended c)
     \<and> responses_counted (bc_counters c) = of_nat (ended c)
     \<and> length (response_body_size_statistic (bc_statistic c)) = ended c
     \<and> length (response_statistic (bc_statistic c)) \<le> ended c
     \<and> latencies_by_class (bc_statistic c) \<le> length (response_statistic (bc_statistic c))"

lemma fresh_accounts: "fresh_client c \<Longrightarrow> client_accounts c"
  by (auto simp: fresh_client_def client_accounts_def books_def ended_def dom_def)

lemma ended_leaked_snoc [simp]:
  assumes "callbacks c' = callbacks c @ [(i, k)]"
  shows "ended c' = ended c + (if k = PoolFailureCallback then 0 else 1)"
    "leaked c' = leaked c + (if k = PoolFailureCallback then 1 else 0)"
  using assms by (simp_all add: ended_def leaked_def)

lemma transition_accounts:
  assumes "decoder_transition i c c'" "client_accounts c" "i \<in> dom (decoders c)"
  shows "client_accounts c'"
  using assms(1) unfolding decoder_transition_def
proof (elim conjE disjE exE)
  fix d
  assume t: "decoders c' = (decoders c)(i := Some d)" "callbacks c' = callbacks c" "books c' = books c"
  have "ended c' = ended c" using t(2) by (simp add: ended_def)
  moreover have "dom (decoders c') = dom (decoders c)" using t(1) assms(3) by auto
  ultimately show ?thesis
    using assms(2) t(2,3) unfolding client_accounts_def books_def prod.inject by metis
next
  assume t: "decoders c' = (decoders c)(i := None)" "callbacks c' = callbacks c @ [(i, PoolFailureCallback)]"
    "books c' = books c"
  have "ended c' = ended c" using ended_leaked_snoc(1) [OF t(2)] by simp
  moreover have "dom (decoders c') = dom (decoders c) - {i}" using t(1) by auto
  ultimately show ?thesis
    using assms(2,3) t(2,3) unfolding client_accounts_def books_def prod.inject by auto
next
  fix b b' r l
  assume t: "decoders c' = (decoders c)(i := None)" "callbacks c' = callbacks c @ [(i, StreamEnded b b')]"
    "l \<le> (r :: nat)" "r \<le> 1"
    "books c' = (streams_created c, requests_initiated c, requests_completed c + 1,
       responses_counted (bc_counters c) + 1, length (response_body_size_statistic (bc_statistic c)) + 1,
       length (response_statistic (bc_statistic c)) + r, latencies_by_class (bc_statistic c) + l)"
  have "ended c' = Suc (ended c)" using ended_leaked_snoc(1) [OF t(2)] by simp
  moreover have "dom (decoders c') = dom (decoders c) - {i}" using t(1) by auto
  ultimately show ?thesis
    using assms(2,3) t(2-5) unfolding client_accounts_def books_def prod.inject by auto
qed

lemma deliver_transition:
  assumes "deliver E i ev c = Inr c'"
  shows "i \<in> dom (decoders c)" "decoder_transition i c c'"
  using assms handle_event_transition [of E i _ ev c c'] by (auto simp: deliver_def split: option.splits)

end
