(* ===== verification/RateLimiter.thy ===== *)
theory RateLimiter
  imports Doubles
begin

text \<open>
  The rate limiters of \<^verbatim>\<open>source/common/rate_limiter_impl.{h,cc}\<close>.

  A clock reading pairs the monotonic and the system time of \<^verbatim>\<open>Envoy::TimeSource\<close>, in
  nanoseconds. \<^verbatim>\<open>tryAcquireOne()\<close> is a function of the reading and of the limiter's state that
  returns the verdict and the new state; \<^verbatim>\<open>releaseOne()\<close> may fail. A limiter that wraps another
  one takes the inner operations as arguments and keeps the inner state as the second component
  of a pair, as the \<^verbatim>\<open>rate_limiter_\<close> member does.

  The contract of the \<^verbatim>\<open>RateLimiter\<close> interface is the locale \<open>rate_limiter\<close>; each wrapper is
  shown to keep it once and for all.
\<close>

section \<open>Clock, frequency and the base class\<close>

record clock =
  monotonicTime :: int
  systemTime :: int

record Frequency =
  hertz :: u64
  interval :: double

definition make_Frequency :: "u64 \<Rightarrow> Frequency" where
  "make_Frequency hz =
     \<lparr>hertz = hz, interval = (if hz = 0 then NaN else 1 / double_of_u64 hz)\<rparr>"

record RateLimiterBase =
  start_time :: "int option"
  first_acquisition_time :: "int option"

definition new_base :: RateLimiterBase where
  "new_base = \<lparr>start_time = None, first_acquisition_time = None\<rparr>"

definition RateLimiterBase_elapsed :: "clock \<Rightarrow> RateLimiterBase \<Rightarrow> int \<times> RateLimiterBase" where
  "RateLimiterBase_elapsed c b =
     (let now = monotonicTime c;
          b' = (if start_time b = None
                then b\<lparr>first_acquisition_time := Some (systemTime c), start_time := Some now\<rparr>
                else b)
      in (now - the (start_time b'), b'))"

section \<open>Linear pacing\<close>

record LinearRateLimiter =
  lin_base :: RateLimiterBase
  lin_acquireable_count :: i64
  lin_acquired_count :: u64
  lin_frequency :: Frequency

definition new_LinearRateLimiter :: "Frequency \<Rightarrow> failure + LinearRateLimiter" where
  "new_LinearRateLimiter f =
     (if hertz f \<le> 0
      then Inl (NighthawkException
                  (''frequency must be <= 0, value: '' @ show_nat (unat (hertz f))))
      else Inr \<lparr>lin_base = new_base, lin_acquireable_count = 0, lin_acquired_count = 0,
                lin_frequency = f\<rparr>)"

text \<open>
  The number of requests due after \<open>e\<close> nanoseconds. Adding the nanoseconds to half an interval
  and dividing by the interval happens in nanoseconds of \<^verbatim>\<open>double\<close>, the common type of the two
  \<^verbatim>\<open>std::chrono\<close> durations.
\<close>

definition phase_shifted_count :: "int \<Rightarrow> Frequency \<Rightarrow> i64" where
  "phase_shifted_count e f =
     (let to_ns = (\<lambda>secs. secs * Fin 1000000000);
          phase_shifted = double_of_int e + to_ns (interval f / Fin 2)
      in i64_of_double (dfloor (phase_shifted / to_ns (interval f))))"

definition LinearRateLimiter_take :: "LinearRateLimiter \<Rightarrow> bool \<times> LinearRateLimiter" where
  "LinearRateLimiter_take s =
     (True, s\<lparr>lin_acquireable_count := lin_acquireable_count s - 1,
              lin_acquired_count := lin_acquired_count s + 1\<rparr>)"

definition LinearRateLimiter_tryAcquireOne :: "clock \<Rightarrow> LinearRateLimiter \<Rightarrow> bool \<times> LinearRateLimiter" where
  "LinearRateLimiter_tryAcquireOne c s =
     (if 0 < sint (lin_acquireable_count s) then LinearRateLimiter_take s
      else
        (let (e, b) = RateLimiterBase_elapsed c (lin_base s);
             s' = s\<lparr>lin_base := b,
                    lin_acquireable_count :=
                      phase_shifted_count e (lin_frequency s) - lin_acquired_count s\<rparr>
         in if 0 < sint (lin_acquireable_count s') then LinearRateLimiter_take s' else (False, s')))"

definition LinearRateLimiter_releaseOne :: "clock \<Rightarrow> LinearRateLimiter \<Rightarrow> failure + LinearRateLimiter" where
  "LinearRateLimiter_releaseOne c s =
     Inr (s\<lparr>lin_acquireable_count := lin_acquireable_count s + 1,
            lin_acquired_count := lin_acquired_count s - 1\<rparr>)"

section \<open>Linear ramping\<close>

record LinearRampingRateLimiter =
  ramp_base :: RateLimiterBase
  ramp_acquireable_count :: i64
  ramp_acquired_count :: u64
  ramp_time :: int
  ramp_frequency :: Frequency
  target_freq_ns :: double
  total_ramp_requests :: i64

definition new_LinearRampingRateLimiter :: "int \<Rightarrow> Frequency \<Rightarrow> failure + LinearRampingRateLimiter" where
  "new_LinearRampingRateLimiter rt f =
     (let tf = double_of_u64 (hertz f) / Fin 1000000000
      in if hertz f \<le> 0
         then Inl (NighthawkException
                     (''frequency must be > 0, value: '' @ show_nat (unat (hertz f))))
         else if rt \<le> 0
         then Inl (NighthawkException (''ramp_time must be positive, value: '' @ show_int rt))
         else Inr \<lparr>ramp_base = new_base, ramp_acquireable_count = 0, ramp_acquired_count = 0,
                   ramp_time = rt, ramp_frequency = f, target_freq_ns = tf,
                   total_ramp_requests = i64_of_double (dround (double_of_int rt * tf / Fin 2))\<rparr>)"

text \<open>The number of requests due after \<open>e\<close> nanoseconds.\<close>

definition ramp_total :: "int \<Rightarrow> LinearRampingRateLimiter \<Rightarrow> i64" where
  "ramp_total e s =
     (if e < ramp_time s
      then
        (let elapsed_fraction =
               1 - double_of_int (ramp_time s - e) / double_of_int (ramp_time s);
             current_frequency = elapsed_fraction * double_of_u64 (hertz (ramp_frequency s))
         in i64_of_double
              (dround (double_of_int e / Fin 1000000000 * current_frequency / Fin 2)))
      else i64_of_double
             (double_of_int (sint (total_ramp_requests s))
              + dround (double_of_int (e - ramp_time s) * target_freq_ns s)))"

definition LinearRampingRateLimiter_take :: "LinearRampingRateLimiter \<Rightarrow> bool \<times> LinearRampingRateLimiter" where
  "LinearRampingRateLimiter_take s =
     (ramp_acquireable_count s \<noteq> 0,
      s\<lparr>ramp_acquired_count := ramp_acquired_count s + 1,
        ramp_acquireable_count := ramp_acquireable_count s - 1\<rparr>)"

definition LinearRampingRateLimiter_tryAcquireOne ::
    "clock \<Rightarrow> LinearRampingRateLimiter \<Rightarrow> bool \<times> LinearRampingRateLimiter" where
  "LinearRampingRateLimiter_tryAcquireOne c s =
     (if ramp_acquireable_count s \<noteq> 0 then LinearRampingRateLimiter_take s
      else
        (let (e, b) = RateLimiterBase_elapsed c (ramp_base s);
             s' = s\<lparr>ramp_base := b,
                    ramp_acquireable_count := ramp_total e s - ramp_acquired_count s\<rparr>
         in if 0 < sint (ramp_acquireable_count s')
            then LinearRampingRateLimiter_take s' else (False, s')))"

definition LinearRampingRateLimiter_releaseOne ::
    "clock \<Rightarrow> LinearRampingRateLimiter \<Rightarrow> failure + LinearRampingRateLimiter" where
  "LinearRampingRateLimiter_releaseOne c s =
     Inr (s\<lparr>ramp_acquireable_count := ramp_acquireable_count s + 1,
            ramp_acquired_count := ramp_acquired_count s - 1\<rparr>)"

text \<open>
  The plugin factory. The configuration arrives as an optional \<^verbatim>\<open>Any\<close> holding the ramp time
  (seconds and nanoseconds); the options contribute the rate, whether there is a duration and the
  duration in seconds.
\<close>

record ramping_options =
  requestsPerSecond :: u32
  noDuration :: bool
  duration_seconds :: int

definition createRateLimiterPlugin ::
    "(int \<times> int) option \<Rightarrow> ramping_options \<Rightarrow> failure + LinearRampingRateLimiter" where
  "createRateLimiterPlugin any opts =
     (case any of
        None \<Rightarrow> Inl (EnvoyException ''typed_config cannot be cast to an Any proto'')
      | Some (secs, nsecs) \<Rightarrow>
          (let rps = requestsPerSecond opts; rt = secs * 1000000000 + nsecs
           in if rt \<le> 0
              then Inl (NighthawkException ''ramp_time must be positive and > 0ns'')
              else if \<not> noDuration opts \<and> rt > duration_seconds opts * 1000000000
              then Inl (NighthawkException
                ''ramp_time must be less than or equal to time specified by --duration'')
              else new_LinearRampingRateLimiter rt (make_Frequency (ucast rps))))"

section \<open>Bursting\<close>

record BurstingRateLimiter =
  burst_size :: u64
  accumulated :: u64
  releasing :: bool
  previously_releasing :: "bool option"

definition new_BurstingRateLimiter :: "u64 \<Rightarrow> BurstingRateLimiter" where
  "new_BurstingRateLimiter n =
     \<lparr>burst_size = n, accumulated = 0, releasing = False, previously_releasing = None\<rparr>"

text \<open>
  The accumulating loop: it leaves with \<open>True\<close> when the accumulated total reaches a multiple of the
  burst size and with \<open>False\<close> when the inner limiter declines.
\<close>

function burst_accumulate ::
    "('r \<Rightarrow> bool \<times> 'r) \<Rightarrow> u64 \<Rightarrow> u64 \<Rightarrow> 'r \<Rightarrow> bool \<times> u64 \<times> 'r" where
  "burst_accumulate inner_try n acc r =
     (case inner_try r of
        (False, r') \<Rightarrow> (False, acc, r')
      | (True, r') \<Rightarrow>
          if (acc + 1) mod n = 0 then (True, acc + 1, r')
          else burst_accumulate inner_try n (acc + 1) r')"
  by pat_completeness auto
termination
proof (relation "measure (\<lambda>(_, _, acc, _). 2 ^ 64 - unat acc)")
  fix inner_try n acc r x r' ok
  assume "((acc :: u64) + 1) mod n \<noteq> 0"
  then have "acc + 1 \<noteq> 0" by auto
  then have "unat (acc + 1) = unat acc + 1" by (rule unat_plus_one_nz)
  moreover have "unat acc < 2 ^ 64" using unat_lt2p [of acc] by simp
  ultimately show "((inner_try, n, acc + 1, r'), inner_try, n, acc, r)
      \<in> measure (\<lambda>(_, _, acc, _). 2 ^ 64 - unat acc)"
    by simp
qed simp

declare burst_accumulate.simps [simp del]

definition burst_drain :: "BurstingRateLimiter \<Rightarrow> BurstingRateLimiter" where
  "burst_drain s =
     s\<lparr>previously_releasing := Some True, accumulated := accumulated s - 1,
       releasing := 0 < accumulated s - 1\<rparr>"

definition BurstingRateLimiter_tryAcquireOne ::
    "(clock \<Rightarrow> 'r \<Rightarrow> bool \<times> 'r) \<Rightarrow> clock \<Rightarrow> BurstingRateLimiter \<times> 'r
      \<Rightarrow> bool \<times> (BurstingRateLimiter \<times> 'r)" where
  "BurstingRateLimiter_tryAcquireOne inner_try c sr =
     (case sr of (s, r) \<Rightarrow>
        if releasing s then (True, (burst_drain s, r))
        else
          (case burst_accumulate (inner_try c) (burst_size s) (accumulated s) r of
             (True, acc, r') \<Rightarrow>
               (True, (burst_drain (s\<lparr>accumulated := acc, releasing := True\<rparr>), r'))
           | (False, acc, r') \<Rightarrow>
               (False, (s\<lparr>accumulated := acc, previously_releasing := None\<rparr>, r'))))"

definition BurstingRateLimiter_releaseOne ::
    "clock \<Rightarrow> BurstingRateLimiter \<times> 'r \<Rightarrow> failure + (BurstingRateLimiter \<times> 'r)" where
  "BurstingRateLimiter_releaseOne c sr =
     (case sr of (s, r) \<Rightarrow>
        Inr (s\<lparr>accumulated := accumulated s + 1, releasing := True,
               previously_releasing := None\<rparr>, r))"

text \<open>The two debug assertions of \<^verbatim>\<open>BurstingRateLimiter::releaseOne()\<close>.\<close>

definition burst_release_asserts :: "BurstingRateLimiter \<Rightarrow> bool" where
  "burst_release_asserts s \<longleftrightarrow>
     accumulated s < burst_size s \<and> previously_releasing s = Some True"

section \<open>Scheduled start\<close>

record ScheduledStartingRateLimiter =
  scheduled_starting_time :: int
  aquisition_attempted :: bool

definition new_ScheduledStartingRateLimiter :: "int \<Rightarrow> ScheduledStartingRateLimiter" where
  "new_ScheduledStartingRateLimiter t =
     \<lparr>scheduled_starting_time = t, aquisition_attempted = False\<rparr>"

definition ScheduledStartingRateLimiter_tryAcquireOne ::
    "(clock \<Rightarrow> 'r \<Rightarrow> bool \<times> 'r) \<Rightarrow> clock \<Rightarrow> ScheduledStartingRateLimiter \<times> 'r
      \<Rightarrow> bool \<times> (ScheduledStartingRateLimiter \<times> 'r)" where
  "ScheduledStartingRateLimiter_tryAcquireOne inner_try c sr =
     (case sr of (s, r) \<Rightarrow>
        let s' = s\<lparr>aquisition_attempted := True\<rparr>
        in if monotonicTime c < scheduled_starting_time s then (False, (s', r))
           else (case inner_try c r of (got, r') \<Rightarrow> (got, (s', r'))))"

definition ScheduledStartingRateLimiter_releaseOne ::
    "(clock \<Rightarrow> 'r \<Rightarrow> failure + 'r) \<Rightarrow> clock \<Rightarrow> ScheduledStartingRateLimiter \<times> 'r
      \<Rightarrow> failure + (ScheduledStartingRateLimiter \<times> 'r)" where
  "ScheduledStartingRateLimiter_releaseOne inner_release c sr =
     (case sr of (s, r) \<Rightarrow>
        if monotonicTime c < scheduled_starting_time s
        then Inl (NighthawkException ''Unexpected call to releaseOne()'')
        else map_sum id (\<lambda>r'. (s, r')) (inner_release c r))"

section \<open>Delayed release: a delegate draws a timing offset\<close>

text \<open>
  The delegate (a random distribution of the standard library or a test double) is a function
  from its own state to the next offset in nanoseconds.
\<close>

record 'g DelegatingRateLimiter =
  distributed_timings :: "int list"
  sanity_check_pending_release :: bool
  generator :: 'g

definition new_DelegatingRateLimiter :: "'g \<Rightarrow> 'g DelegatingRateLimiter" where
  "new_DelegatingRateLimiter g =
     \<lparr>distributed_timings = [], sanity_check_pending_release = True, generator = g\<rparr>"

text \<open>\<^verbatim>\<open>list.insert(std::upper_bound(begin, end, x), x)\<close> on a sorted list.\<close>

definition upper_bound_insert :: "int \<Rightarrow> int list \<Rightarrow> int list" where
  "upper_bound_insert x xs = takeWhile (\<lambda>y. y \<le> x) xs @ x # dropWhile (\<lambda>y. y \<le> x) xs"

text \<open>
  Adding an unsigned 64-bit duration to a time point works in unsigned arithmetic and is read
  back as a signed number of nanoseconds.
\<close>

definition add_offset :: "int \<Rightarrow> u64 \<Rightarrow> int" where
  "add_offset now offset = sint (word_of_int now + offset)"

definition DelegatingRateLimiter_tryAcquireOne ::
    "('g \<Rightarrow> u64 \<times> 'g) \<Rightarrow> (clock \<Rightarrow> 'r \<Rightarrow> bool \<times> 'r) \<Rightarrow> clock \<Rightarrow> 'g DelegatingRateLimiter \<times> 'r
      \<Rightarrow> bool \<times> ('g DelegatingRateLimiter \<times> 'r)" where
  "DelegatingRateLimiter_tryAcquireOne delegate inner_try c sr =
     (case sr of (s, r) \<Rightarrow>
        let now = monotonicTime c;
            (got, r') = inner_try c r;
            s' = (if got
                  then (case delegate (generator s) of (offset, g) \<Rightarrow>
                          s\<lparr>distributed_timings :=
                              upper_bound_insert (add_offset now offset) (distributed_timings s),
                            generator := g\<rparr>)
                  else s)
        in (case distributed_timings s' of
              t # ts \<Rightarrow>
                if t \<le> now
                then (True, (s'\<lparr>distributed_timings := ts,
                                sanity_check_pending_release := False\<rparr>, r'))
                else (False, (s', r'))
            | [] \<Rightarrow> (False, (s', r'))))"

definition DelegatingRateLimiter_releaseOne ::
    "(clock \<Rightarrow> 'r \<Rightarrow> failure + 'r) \<Rightarrow> clock \<Rightarrow> 'g DelegatingRateLimiter \<times> 'r
      \<Rightarrow> failure + ('g DelegatingRateLimiter \<times> 'r)" where
  "DelegatingRateLimiter_releaseOne inner_release c sr =
     (case sr of (s, r) \<Rightarrow>
        if sanity_check_pending_release s
        then Inl (ReleaseAssertFailure
                    ''unexpected call to DelegatingRateLimiterImpl::releaseOne()'')
        else map_sum id (\<lambda>r'. (s\<lparr>sanity_check_pending_release := True\<rparr>, r'))
               (inner_release c r))"

section \<open>Filtering\<close>

text \<open>
  The filter may consult the wrapped limiter (for its elapsed time), so it works on both states.
\<close>

definition FilteringRateLimiter_tryAcquireOne ::
    "(clock \<Rightarrow> 'f \<times> 'r \<Rightarrow> bool \<times> ('f \<times> 'r)) \<Rightarrow> (clock \<Rightarrow> 'r \<Rightarrow> bool \<times> 'r) \<Rightarrow> clock \<Rightarrow> 'f \<times> 'r
      \<Rightarrow> bool \<times> ('f \<times> 'r)" where
  "FilteringRateLimiter_tryAcquireOne filter_fn inner_try c fr =
     (case fr of (f, r) \<Rightarrow>
        (case inner_try c r of
           (True, r') \<Rightarrow> filter_fn c (f, r')
         | (False, r') \<Rightarrow> (False, (f, r'))))"

definition FilteringRateLimiter_releaseOne ::
    "(clock \<Rightarrow> 'r \<Rightarrow> failure + 'r) \<Rightarrow> clock \<Rightarrow> 'f \<times> 'r \<Rightarrow> failure + ('f \<times> 'r)" where
  "FilteringRateLimiter_releaseOne inner_release c fr =
     (case fr of (f, r) \<Rightarrow> map_sum id (\<lambda>r'. (f, r')) (inner_release c r))"

text \<open>The probabilistic ramp: the provider's minimum and maximum are fixed, its samples are a stream.\<close>

record 'g GraduallyOpeningFilter =
  opening_ramp_time :: int
  provider_max :: u64
  provider :: 'g

definition new_GraduallyOpeningRateLimiterFilter ::
    "int \<Rightarrow> u64 \<Rightarrow> u64 \<Rightarrow> 'g \<Rightarrow> failure + 'g GraduallyOpeningFilter" where
  "new_GraduallyOpeningRateLimiterFilter rt pmin pmax g =
     (if rt \<le> 0 then Inl (NighthawkException ''ramp_time must be positive and > 0ns'')
      else if pmin \<noteq> 1
      then Inl (NighthawkException ''min value of the distribution provider must equal 1'')
      else if pmax \<noteq> 1000000
      then Inl (NighthawkException ''max value of the distribution provider must equal 1000000'')
      else Inr \<lparr>opening_ramp_time = rt, provider_max = pmax, provider = g\<rparr>)"

definition gradually_opening_filter ::
    "('g \<Rightarrow> u64 \<times> 'g) \<Rightarrow> (clock \<Rightarrow> 'r \<Rightarrow> int \<times> 'r) \<Rightarrow> clock \<Rightarrow> 'g GraduallyOpeningFilter \<times> 'r
      \<Rightarrow> bool \<times> ('g GraduallyOpeningFilter \<times> 'r)" where
  "gradually_opening_filter getValue inner_elapsed c fr =
     (case fr of (f, r) \<Rightarrow>
        let (e, r') = inner_elapsed c r
        in if e < opening_ramp_time f
           then
             (let probability =
                    1 - double_of_int (opening_ramp_time f - e)
                          / (double_of_int (opening_ramp_time f) * 1);
                  (v, g) = getValue (provider f);
                  random_between_0_and_1 = 1 * double_of_u64 v / double_of_u64 (provider_max f)
              in (random_between_0_and_1 < probability, (f\<lparr>provider := g\<rparr>, r')))
           else (True, (f, r')))"

text \<open>The Zipf filter draws 0 or 1 from the configured distribution.\<close>

definition check_zipf_parameters :: "double \<Rightarrow> double \<Rightarrow> failure + unit" where
  "check_zipf_parameters q v =
     (if v \<le> 0 then Inl (NighthawkException ''v should be > 0'')
      else if q \<le> 1 then Inl (NighthawkException ''q should be > 1'')
      else Inr ())"

definition zipf_filter :: "('g \<Rightarrow> u64 \<times> 'g) \<Rightarrow> clock \<Rightarrow> 'g \<times> 'r \<Rightarrow> bool \<times> ('g \<times> 'r)" where
  "zipf_filter sample c gr =
     (case gr of (g, r) \<Rightarrow> (case sample g of (v, g') \<Rightarrow> (v \<noteq> 0, (g', r))))"

section \<open>The schedule of the linear limiter\<close>

text \<open>The quotient before the floor, over the rationals that the doubles denote.\<close>

definition interval_rat :: "nat \<Rightarrow> rat" where
  "interval_rat h = rnd (1 / of_nat h)"

definition half_interval_ns :: "nat \<Rightarrow> rat" where
  "half_interval_ns h = rnd (rnd (interval_rat h / 2) * 1000000000)"

definition interval_ns :: "nat \<Rightarrow> rat" where
  "interval_ns h = rnd (interval_rat h * 1000000000)"

definition linear_quotient :: "int \<Rightarrow> nat \<Rightarrow> rat" where
  "linear_quotient e h = rnd (rnd (rnd (of_int e) + half_interval_ns h) / interval_ns h)"

lemma interval_rat_bounds:
  assumes "0 < h" "h < 2 ^ 32"
  shows "2 powi (-32) \<le> interval_rat h" and "interval_rat h \<le> 1"
proof -
  have h1: "(1::rat) \<le> of_nat h" and h2: "of_nat h \<le> (2::rat) ^ 32"
    using assms by simp_all
  have "(2::rat) powi (-32) \<le> 1 / of_nat h"
    using h1 h2 by (simp add: power_int_minus field_simps)
  then show "2 powi (-32) \<le> interval_rat h"
    unfolding interval_rat_def by (rule rnd_ge_powI [rotated]) simp
  have "1 / of_nat h \<le> (1::rat)" using h1 by simp
  then have "rnd (1 / of_nat h) \<le> rnd (2 powi 0)" by (intro rnd_mono) simp
  then show "interval_rat h \<le> 1" unfolding interval_rat_def by (subst (asm) rnd_pow2) simp_all
qed

lemma half_interval_ns_bounds:
  assumes "0 < h" "h < 2 ^ 32"
  shows "0 \<le> half_interval_ns h" and "half_interval_ns h \<le> 2 ^ 29"
proof -
  have i0: "0 \<le> interval_rat h" and i1: "interval_rat h \<le> 1"
    using interval_rat_bounds [OF assms] pow2_pos [of "-32"] by linarith+
  have half: "\<bar>rnd (interval_rat h / 2)\<bar> \<le> 2 powi (-1)"
    using i0 i1 by (intro rnd_abs_leI) (simp_all add: power_int_minus)
  have half0: "0 \<le> rnd (interval_rat h / 2)" using i0 by (intro rnd_nonneg) simp
  show "0 \<le> half_interval_ns h" unfolding half_interval_ns_def using half0 by (intro rnd_nonneg) simp
  have "\<bar>half_interval_ns h\<bar> \<le> 2 powi 29"
    unfolding half_interval_ns_def using half half0
    by (intro rnd_abs_leI) (simp_all add: power_int_minus)
  then show "half_interval_ns h \<le> 2 ^ 29" by simp
qed

lemma interval_ns_bounds:
  assumes "0 < h" "h < 2 ^ 32"
  shows "1/8 \<le> interval_ns h" and "interval_ns h \<le> 2 ^ 30"
proof -
  have l: "2 powi (-32) \<le> interval_rat h" and u: "interval_rat h \<le> 1"
    using interval_rat_bounds [OF assms] by simp_all
  have "2 powi (-3) \<le> interval_ns h"
    unfolding interval_ns_def using l by (intro rnd_ge_powI) (simp_all add: power_int_minus)
  then show "1/8 \<le> interval_ns h" by (simp add: power_int_minus)
  have "\<bar>interval_ns h\<bar> \<le> 2 powi 30"
    unfolding interval_ns_def using l u pow2_pos [of "-32"] by (intro rnd_abs_leI) simp_all
  then show "interval_ns h \<le> 2 ^ 30" by simp
qed

lemma shifted_bounds:
  assumes "0 < h" "h < 2 ^ 32" "\<bar>e\<bar> \<le> 2 ^ 58"
  shows "\<bar>rnd (rnd (of_int e) + half_interval_ns h)\<bar> \<le> 2 ^ 59"
proof -
  have "\<bar>of_int e :: rat\<bar> \<le> 2 powi 58"
    using assms(3) by (simp flip: of_int_abs)
  then have "\<bar>rnd (of_int e)\<bar> \<le> 2 powi 58" by (intro rnd_abs_leI) simp_all
  then have "\<bar>rnd (of_int e) + half_interval_ns h\<bar> \<le> 2 powi 59"
    using half_interval_ns_bounds [OF assms(1,2)] by simp
  then have "\<bar>rnd (rnd (of_int e) + half_interval_ns h)\<bar> \<le> 2 powi 59" by (intro rnd_abs_leI) simp_all
  then show ?thesis by simp
qed

lemma linear_quotient_bounds:
  assumes "0 < h" "h < 2 ^ 32" "\<bar>e\<bar> \<le> 2 ^ 58"
  shows "\<bar>linear_quotient e h\<bar> \<le> 2 ^ 62"
proof -
  let ?s = "rnd (rnd (of_int e) + half_interval_ns h)"
  have n: "1/8 \<le> interval_ns h" using interval_ns_bounds [OF assms(1,2)] by simp
  have "\<bar>?s\<bar> \<le> 2 ^ 59" by (rule shifted_bounds [OF assms])
  also have "\<dots> \<le> 2 ^ 62 * interval_ns h" using n by simp
  finally have "\<bar>?s / interval_ns h\<bar> \<le> 2 powi 62" using n by (simp add: divide_le_eq)
  then have "\<bar>linear_quotient e h\<bar> \<le> 2 powi 62"
    unfolding linear_quotient_def by (intro rnd_abs_leI) simp_all
  then show ?thesis by simp
qed

lemma linear_quotient_mono:
  assumes "0 < h" "h < 2 ^ 32" "e \<le> e'"
  shows "linear_quotient e h \<le> linear_quotient e' h"
proof -
  have "0 < interval_ns h" using interval_ns_bounds [OF assms(1,2)] by simp
  moreover have "rnd (of_int e) \<le> rnd (of_int e')" using assms(3) by (intro rnd_mono) simp
  ultimately show ?thesis
    unfolding linear_quotient_def by (intro rnd_mono divide_right_mono) (auto intro: rnd_mono)
qed

text \<open>The count that the code computes is the floor of that quotient.\<close>

lemma interval_make_Frequency:
  assumes "0 < unat hz" "unat hz < 2 ^ 32"
  shows "interval (make_Frequency hz) = Fin (interval_rat (unat hz))"
proof -
  have nz: "hz \<noteq> 0" using assms(1) by auto
  have "double_of_u64 hz = Fin (of_nat (unat hz))"
    using assms(2) by (intro double_of_u64_exact) simp
  moreover have "\<bar>1 / of_nat (unat hz) :: rat\<bar> \<le> 2 ^ 1023"
  proof -
    have "\<bar>1 / of_nat n\<bar> \<le> (1::rat)" if "0 < n" for n :: nat using that by simp
    from this [OF assms(1)] have "\<bar>1 / of_nat (unat hz)\<bar> \<le> (1::rat)" .
    also have "\<dots> \<le> 2 ^ 1023" by simp
    finally show ?thesis .
  qed
  moreover have "of_nat (unat hz) \<noteq> (0::rat)" using assms(1) by (simp del: of_nat_unat)
  ultimately show ?thesis
    using nz by (simp add: make_Frequency_def dbl_defs to_double_Fin interval_rat_def del: of_nat_unat)
qed

lemma sint_phase_shifted_count:
  assumes h: "0 < unat hz" "unat hz < 2 ^ 32" and e: "\<bar>e\<bar> \<le> 2 ^ 58"
  shows "sint (phase_shifted_count e (make_Frequency hz)) = \<lfloor>linear_quotient e (unat hz)\<rfloor>"
proof -
  let ?h = "unat hz"
  have fin: "to_double x = Fin (rnd x)" if "\<bar>x\<bar> \<le> 2 ^ 62" for x
    by (rule to_double_Fin, rule order_trans [OF that]) simp
  note ib = interval_rat_bounds [OF h] and nb = interval_ns_bounds [OF h]
  have i0: "0 < interval_rat ?h" using ib pow2_pos [of "-32"] by linarith
  have half: "\<bar>rnd (interval_rat ?h / 2)\<bar> \<le> 2 powi 0"
    using i0 ib by (intro rnd_abs_leI) simp_all
  have n0: "interval_ns ?h \<noteq> 0" using nb by auto
  have e': "\<bar>of_int e :: rat\<bar> \<le> 2 ^ 58"
    using e by (simp flip: of_int_abs)
  have sum: "\<bar>rnd (of_int e) + half_interval_ns ?h\<bar> \<le> 2 ^ 62"
  proof -
    have "\<bar>rnd (of_int e)\<bar> \<le> 2 powi 58" using e' by (intro rnd_abs_leI) simp_all
    then show ?thesis using half_interval_ns_bounds [OF h] by simp
  qed
  have quot: "\<bar>rnd (rnd (of_int e) + half_interval_ns ?h) / interval_ns ?h\<bar> \<le> 2 ^ 62"
    using shifted_bounds [OF h e] nb by (simp add: divide_le_eq)
  have "double_of_int e + interval (make_Frequency hz) / Fin 2 * Fin 1000000000
      = Fin (rnd (rnd (of_int e) + half_interval_ns ?h))"
    using i0 ib half e' sum
    by (simp add: interval_make_Frequency [OF h] dbl_defs fin double_of_int_def half_interval_ns_def)
  moreover have "interval (make_Frequency hz) * Fin 1000000000 = Fin (interval_ns ?h)"
    using i0 ib by (simp add: interval_make_Frequency [OF h] dbl_defs fin interval_ns_def)
  ultimately have "phase_shifted_count e (make_Frequency hz)
      = i64_of_double (Fin (of_int \<lfloor>linear_quotient e ?h\<rfloor>))"
    using n0 quot by (simp add: phase_shifted_count_def Let_def dbl_defs fin linear_quotient_def)
  moreover have "- (2 ^ 62) \<le> \<lfloor>linear_quotient e ?h\<rfloor>" and "\<lfloor>linear_quotient e ?h\<rfloor> \<le> 2 ^ 62"
    using linear_quotient_bounds [OF h e] by (auto simp: le_floor_iff abs_le_iff floor_le_iff)
  ultimately show ?thesis by (simp add: truncate_rat_def sint_of_int_64)
qed

text \<open>
  The ideal schedule: after \<open>e\<close> nanoseconds at \<open>h\<close> requests per second, half a request ahead. The
  seven roundings of the code stay within \<open>2 powi (-50)\<close> of it.
\<close>

definition ideal_schedule :: "int \<Rightarrow> nat \<Rightarrow> rat" where
  "ideal_schedule e h = of_int e * of_nat h / 1000000000 + 1 / 2"

lemma ideal_schedule_ge_half: "0 \<le> e \<Longrightarrow> 1 / 2 \<le> ideal_schedule e h"
  by (simp add: ideal_schedule_def)

lemma half_interval_ns_ge:
  assumes "0 < h" "h < 2 ^ 32"
  shows "2 powi (-33) \<le> half_interval_ns h"
proof -
  have "2 powi (-33) \<le> interval_rat h / 2"
    using interval_rat_bounds(1) [OF assms] by (simp add: power_int_minus)
  then have "2 powi (-33) \<le> rnd (interval_rat h / 2)" by (intro rnd_ge_powI) simp_all
  then have "2 powi (-33) \<le> rnd (interval_rat h / 2) * 1000000000" by (simp add: power_int_minus)
  then show ?thesis unfolding half_interval_ns_def by (intro rnd_ge_powI) simp_all
qed

lemma approx_interval:
  assumes "0 < h" "h < 2 ^ 32"
  shows "approx 1 (1 / of_nat h) (interval_rat h)"
    and "approx 2 (1000000000 / of_nat h) (interval_ns h)"
    and "approx 3 (500000000 / of_nat h) (half_interval_ns h)"
proof -
  have tiny: "(2::rat) powi (-1022) \<le> 2 powi (-33)" by (rule pow2_mono) simp
  have ge: "2 powi (-32) \<le> interval_rat h" by (rule interval_rat_bounds [OF assms])
  have h32: "of_nat h \<le> (2::rat) ^ 32" using assms(2) by simp
  have "(2::rat) powi (-32) \<le> 1 / of_nat h"
    using assms(1) h32 by (simp add: power_int_minus field_simps)
  moreover have "(2::rat) powi (-33) \<le> 2 powi (-32)" by (rule pow2_mono) simp
  ultimately show i: "approx 1 (1 / of_nat h) (interval_rat h)"
    using approx_rnd [OF approx_refl, of "1 / of_nat h"] tiny by (simp add: interval_rat_def)
  have "2 powi (-33) \<le> interval_rat h * 1000000000"
    using ge by (simp add: power_int_minus)
  then show "approx 2 (1000000000 / of_nat h) (interval_ns h)"
    using approx_rnd [OF approx_scale [OF i, of 1000000000]] tiny
    by (simp add: interval_ns_def numeral_2_eq_2)
  have half: "2 powi (-33) \<le> interval_rat h / 2"
    using ge by (simp add: power_int_minus)
  then have half2: "approx 2 (1 / of_nat h * (1 / 2)) (rnd (interval_rat h / 2))"
    using approx_rnd [OF approx_scale [OF i, of "1 / 2"]] tiny by (simp add: numeral_2_eq_2)
  have "2 powi (-33) \<le> rnd (interval_rat h / 2)" using half by (intro rnd_ge_powI) simp_all
  then have "2 powi (-33) \<le> rnd (interval_rat h / 2) * 1000000000" by (simp add: power_int_minus)
  then show "approx 3 (500000000 / of_nat h) (half_interval_ns h)"
    using approx_rnd [OF approx_scale [OF half2, of 1000000000]] tiny
    by (simp add: half_interval_ns_def numeral_3_eq_3 numeral_2_eq_2)
qed

lemma approx_rnd_nonneg_int: "0 \<le> e \<Longrightarrow> approx 1 (of_int e) (rnd (of_int e))"
proof (cases "e = 0")
  case False
  assume "0 \<le> e"
  with False have "(1::rat) \<le> of_int e" by simp
  moreover have "(2::rat) powi (-1022) \<le> 2 powi 0" by (rule pow2_mono) simp
  ultimately have "(2::rat) powi (-1022) \<le> of_int e" by (simp del: power_int_minus)
  then show ?thesis using approx_rnd [OF approx_refl] by simp
qed (simp add: approx_def)

lemma linear_quotient_schedule:
  assumes "0 < h" "h < 2 ^ 32" "0 \<le> e"
  shows "linear_quotient e h \<le> ideal_schedule e h * (1 + 2 powi (-50))"
    and "ideal_schedule e h * (1 - 2 powi (-50)) \<le> linear_quotient e h"
proof -
  have tiny: "(2::rat) powi (-1022) \<le> 2 powi (-34)" by (rule pow2_mono) simp
  have h1: "(1::rat) \<le> of_nat h" using assms(1) by simp
  define x :: rat where "x = of_int e + 500000000 / of_nat h"
  have x0: "0 \<le> x" unfolding x_def using assms(3) by simp
  have q: "x / (1000000000 / of_nat h) = ideal_schedule e h"
    using h1 by (simp add: x_def ideal_schedule_def field_simps)
  have q0: "1 / 2 \<le> ideal_schedule e h" using assms(3) by (rule ideal_schedule_ge_half)
  have "approx 3 (of_int e) (rnd (of_int e))"
    using approx_weaken [OF approx_rnd_nonneg_int [OF assms(3)]] assms(3) by simp
  then have sum: "approx 3 x (rnd (of_int e) + half_interval_ns h)"
    unfolding x_def using approx_interval(3) [OF assms(1,2)] by (rule approx_add)
  have "0 \<le> rnd (of_int e :: rat)" using assms(3) by (intro rnd_nonneg) simp
  then have ge: "2 powi (-33) \<le> rnd (of_int e) + half_interval_ns h"
    using half_interval_ns_ge [OF assms(1,2)] by linarith
  have tiny: "(2::rat) powi (-1022) \<le> 2 powi (-33)" by (rule pow2_mono) simp
  let ?s = "rnd (rnd (of_int e) + half_interval_ns h)"
  have s: "approx 4 x ?s"
    using approx_rnd [OF sum] ge tiny by (simp del: power_int_minus add: numeral_eq_Suc)
  have s_ge: "2 powi (-33) \<le> ?s" using ge by (intro rnd_ge_powI) simp_all
  note n = interval_ns_bounds [OF assms(1,2)]
  have "2 powi (-33) / 2 ^ 30 \<le> ?s / interval_ns h"
    using s_ge n by (intro frac_le) simp_all
  moreover have "(2::rat) powi (-63) = 2 powi (-33) / 2 ^ 30" by (simp add: power_int_minus)
  moreover have "(2::rat) powi (-1022) \<le> 2 powi (-63)" by (rule pow2_mono) simp
  ultimately have quo_ge: "2 powi (-1022) \<le> ?s / interval_ns h" by linarith
  have "0 < (1000000000 / of_nat h :: rat)" using h1 by simp
  note quo = approx_divide [OF s approx_interval(2) [OF assms(1,2)] x0 this, unfolded q]
  have up: "(1 + roundoff) ^ 4 / (1 - roundoff) ^ 2 * (1 + roundoff) \<le> 1 + 2 powi (-50)"
    and lo: "1 - 2 powi (-50) \<le> (1 - roundoff) ^ 4 / (1 + roundoff) ^ 2 * (1 - roundoff)"
    by (simp_all add: power_int_minus power_divide)
  have "linear_quotient e h \<le> ?s / interval_ns h * (1 + roundoff)"
    unfolding linear_quotient_def by (rule rnd_upper [OF quo_ge])
  also have "\<dots> \<le> ideal_schedule e h * ((1 + roundoff) ^ 4 / (1 - roundoff) ^ 2) * (1 + roundoff)"
    using quo(2) by (intro mult_right_mono) simp_all
  also have "\<dots> \<le> ideal_schedule e h * (1 + 2 powi (-50))"
    using mult_left_mono [OF up, of "ideal_schedule e h"] q0 by (simp only: mult.assoc)
  finally show "linear_quotient e h \<le> ideal_schedule e h * (1 + 2 powi (-50))" .
  have "ideal_schedule e h * (1 - 2 powi (-50))
      \<le> ideal_schedule e h * ((1 - roundoff) ^ 4 / (1 + roundoff) ^ 2) * (1 - roundoff)"
    using mult_left_mono [OF lo, of "ideal_schedule e h"] q0 by (simp only: mult.assoc)
  also have "\<dots> \<le> ?s / interval_ns h * (1 - roundoff)"
    using quo(1) by (intro mult_right_mono) simp_all
  also have "\<dots> \<le> linear_quotient e h"
    unfolding linear_quotient_def by (rule rnd_lower [OF quo_ge])
  finally show "ideal_schedule e h * (1 - 2 powi (-50)) \<le> linear_quotient e h" .
qed

section \<open>The contract of the interface\<close>

text \<open>
  Clock readings within eight years of the epoch of the monotonic clock.
\<close>

definition clock_ok :: "clock \<Rightarrow> bool" where
  "clock_ok c \<longleftrightarrow> 0 \<le> monotonicTime c \<and> monotonicTime c < 2 ^ 58"

text \<open>
  What a client of \<^verbatim>\<open>RateLimiter\<close> relies on. \<open>held\<close> counts the acquisitions handed out and not
  returned; \<open>may_release\<close> says when \<^verbatim>\<open>releaseOne()\<close> is expected; \<open>pending\<close> bounds the number of
  acquisitions that can still succeed at one clock reading. A limiter may discard acquisitions
  (a filter does), so a refusal may raise \<open>held\<close>.
\<close>

locale rate_limiter =
  fixes acquire :: "clock \<Rightarrow> 's \<Rightarrow> bool \<times> 's"
    and release :: "clock \<Rightarrow> 's \<Rightarrow> failure + 's"
    and invar :: "'s \<Rightarrow> bool"
    and held :: "'s \<Rightarrow> int"
    and may_release :: "clock \<Rightarrow> 's \<Rightarrow> bool"
    and pending :: "clock \<Rightarrow> 's \<Rightarrow> nat"
  assumes acquire_law: "clock_ok c \<Longrightarrow> invar s \<Longrightarrow> acquire c s = (got, s')
      \<Longrightarrow> invar s' \<and> held s + (if got then 1 else 0) \<le> held s' \<and> (got \<longrightarrow> may_release c s')
        \<and> pending c s' + (if got then 1 else 0) \<le> pending c s"
    and release_law: "clock_ok c \<Longrightarrow> invar s \<Longrightarrow> may_release c s
      \<Longrightarrow> \<exists>s'. release c s = Inr s' \<and> invar s' \<and> held s' = held s - 1
        \<and> pending c s' \<le> Suc (pending c s)"

text \<open>Limiters that never discard an acquisition.\<close>

locale exact_rate_limiter = rate_limiter +
  assumes held_law: "clock_ok c \<Longrightarrow> invar s \<Longrightarrow> acquire c s = (got, s')
      \<Longrightarrow> held s' = held s + (if got then 1 else 0)"

context exact_rate_limiter
begin

lemma acquire_release_balanced:
  assumes "clock_ok c" "invar s" "acquire c s = (True, s')"
  shows "\<exists>s''. release c s' = Inr s'' \<and> invar s'' \<and> held s'' = held s"
  using acquire_law [OF assms] held_law [OF assms] release_law [OF assms(1), of s'] by auto

end

text \<open>
  Limiters that accept a release at any time after their opening time, not only right after an
  acquisition.
\<close>

locale late_release_limiter = exact_rate_limiter +
  fixes opens :: "'s \<Rightarrow> int"
  assumes opens_acquire: "acquire c s = (got, s') \<Longrightarrow> opens s' = opens s"
    and opens_release: "release c s = Inr s' \<Longrightarrow> opens s' = opens s"
    and acquire_opens: "clock_ok c \<Longrightarrow> invar s \<Longrightarrow> acquire c s = (True, s') \<Longrightarrow> opens s \<le> monotonicTime c"
    and late_release: "clock_ok c \<Longrightarrow> invar s \<Longrightarrow> 0 < held s \<Longrightarrow> opens s \<le> monotonicTime c
      \<Longrightarrow> may_release c s"

section \<open>The linear limiter keeps the contract\<close>

definition elapsed_at :: "clock \<Rightarrow> RateLimiterBase \<Rightarrow> int" where
  "elapsed_at c b = fst (RateLimiterBase_elapsed c b)"

definition base_ok :: "RateLimiterBase \<Rightarrow> bool" where
  "base_ok b \<longleftrightarrow> (case start_time b of None \<Rightarrow> True | Some t \<Rightarrow> 0 \<le> t \<and> t < 2 ^ 58)"

lemma base_ok_elapsed:
  assumes "clock_ok c" "base_ok b"
  shows "base_ok (snd (RateLimiterBase_elapsed c b))" and "\<bar>elapsed_at c b\<bar> \<le> 2 ^ 58"
    and "elapsed_at c (snd (RateLimiterBase_elapsed c b)) = elapsed_at c b"
  using assms
  by (auto simp: base_ok_def clock_ok_def elapsed_at_def RateLimiterBase_elapsed_def Let_def split: option.splits)

definition linear_due :: "clock \<Rightarrow> LinearRateLimiter \<Rightarrow> int" where
  "linear_due c s = \<lfloor>linear_quotient (elapsed_at c (lin_base s)) (unat (hertz (lin_frequency s)))\<rfloor>"

definition linear_invar :: "LinearRateLimiter \<Rightarrow> bool" where
  "linear_invar s \<longleftrightarrow>
     lin_frequency s = make_Frequency (hertz (lin_frequency s))
     \<and> 0 < unat (hertz (lin_frequency s)) \<and> unat (hertz (lin_frequency s)) < 2 ^ 32
     \<and> base_ok (lin_base s) \<and> uint (lin_acquired_count s) \<le> 2 ^ 62
     \<and> sint (lin_acquireable_count s) + uint (lin_acquired_count s) \<le> 2 ^ 62"

definition linear_held :: "LinearRateLimiter \<Rightarrow> int" where
  "linear_held s = uint (lin_acquired_count s)"

definition linear_pending :: "clock \<Rightarrow> LinearRateLimiter \<Rightarrow> nat" where
  "linear_pending c s =
     nat (max (linear_held s + sint (lin_acquireable_count s)) (linear_due c s) - linear_held s)"

definition linear_may_release :: "clock \<Rightarrow> LinearRateLimiter \<Rightarrow> bool" where
  "linear_may_release c s \<longleftrightarrow> 0 < linear_held s"

lemma linear_due_bound:
  assumes "clock_ok c" "linear_invar s"
  shows "\<bar>linear_due c s\<bar> \<le> 2 ^ 62"
    and "sint (phase_shifted_count (elapsed_at c (lin_base s)) (lin_frequency s)) = linear_due c s"
proof -
  have h: "0 < unat (hertz (lin_frequency s))" "unat (hertz (lin_frequency s)) < 2 ^ 32"
    and f: "lin_frequency s = make_Frequency (hertz (lin_frequency s))"
    and e: "\<bar>elapsed_at c (lin_base s)\<bar> \<le> 2 ^ 58"
    using assms base_ok_elapsed(2) by (auto simp: linear_invar_def)
  show "\<bar>linear_due c s\<bar> \<le> 2 ^ 62"
    using linear_quotient_bounds [OF h e]
    by (auto simp: linear_due_def abs_le_iff le_floor_iff floor_le_iff minus_le_iff [of "\<lfloor>_\<rfloor>"])
  show "sint (phase_shifted_count (elapsed_at c (lin_base s)) (lin_frequency s)) = linear_due c s"
    using sint_phase_shifted_count [OF h e] f by (simp add: linear_due_def)
qed

lemma difference_in_range:
  fixes d a :: int
  assumes "\<bar>d\<bar> \<le> 2 ^ 62" "0 \<le> a" "a \<le> 2 ^ 62"
  shows "- (2 ^ 63) \<le> d - a" "d - a < 2 ^ 63"
  using assms by simp_all

text \<open>The three outcomes of an attempt, over the integers.\<close>

lemma linear_cases:
  assumes "clock_ok c" "linear_invar s"
  obtains (ready) s' where "0 < sint (lin_acquireable_count s)"
      "LinearRateLimiter_tryAcquireOne c s = (True, s')"
      "sint (lin_acquireable_count s') = sint (lin_acquireable_count s) - 1"
      "linear_held s' = linear_held s + 1" "lin_base s' = lin_base s" "lin_frequency s' = lin_frequency s"
    | (due) s' where "sint (lin_acquireable_count s) \<le> 0" "linear_held s < linear_due c s"
      "LinearRateLimiter_tryAcquireOne c s = (True, s')"
      "sint (lin_acquireable_count s') = linear_due c s - linear_held s - 1"
      "linear_held s' = linear_held s + 1"
      "lin_base s' = snd (RateLimiterBase_elapsed c (lin_base s))" "lin_frequency s' = lin_frequency s"
    | (early) s' where "sint (lin_acquireable_count s) \<le> 0" "linear_due c s \<le> linear_held s"
      "LinearRateLimiter_tryAcquireOne c s = (False, s')"
      "sint (lin_acquireable_count s') = linear_due c s - linear_held s"
      "linear_held s' = linear_held s"
      "lin_base s' = snd (RateLimiterBase_elapsed c (lin_base s))" "lin_frequency s' = lin_frequency s"
proof -
  note due_bound = linear_due_bound [OF assms]
  have acq: "uint (lin_acquired_count s) \<le> 2 ^ 62" using assms(2) by (simp add: linear_invar_def)
  have up: "uint (lin_acquired_count s + 1) = uint (lin_acquired_count s) + 1"
    using acq by (intro uint_plus_one) simp
  show thesis
  proof (cases "0 < sint (lin_acquireable_count s)")
    case True
    then show thesis using ready up
      by (simp add: LinearRateLimiter_tryAcquireOne_def LinearRateLimiter_take_def linear_held_def sint_minus_one)
  next
    case False
    let ?q = "phase_shifted_count (elapsed_at c (lin_base s)) (lin_frequency s)"
    have "- (2 ^ 63) \<le> sint ?q - uint (lin_acquired_count s)"
      and "sint ?q - uint (lin_acquired_count s) < 2 ^ 63"
      using due_bound acq uint_ge_0 [of "lin_acquired_count s"]
        difference_in_range [of "linear_due c s" "uint (lin_acquired_count s)"] by simp_all
    then have diff: "sint (?q - lin_acquired_count s) = linear_due c s - linear_held s"
      using due_bound(2) by (simp only: sint_minus_uint linear_held_def)
    obtain e b where eb: "RateLimiterBase_elapsed c (lin_base s) = (e, b)" by fastforce
    then have e: "elapsed_at c (lin_base s) = e" by (simp add: elapsed_at_def)
    show thesis
    proof (cases "linear_held s < linear_due c s")
      case True
      with False show thesis using due up diff
        by (simp add: LinearRateLimiter_tryAcquireOne_def LinearRateLimiter_take_def linear_held_def
            sint_minus_one eb e)
    next
      case False
      with \<open>\<not> 0 < sint (lin_acquireable_count s)\<close> show thesis using early diff
        by (simp add: LinearRateLimiter_tryAcquireOne_def linear_held_def eb e)
    qed
  qed
qed

lemma linear_release:
  assumes "linear_invar s" "0 < linear_held s"
  shows "\<exists>s'. LinearRateLimiter_releaseOne c s = Inr s' \<and> linear_held s' = linear_held s - 1
    \<and> sint (lin_acquireable_count s') = sint (lin_acquireable_count s) + 1
    \<and> lin_base s' = lin_base s \<and> lin_frequency s' = lin_frequency s"
proof -
  have "sint (lin_acquireable_count s) + 1 < 2 ^ 63"
    using assms by (simp add: linear_invar_def linear_held_def)
  then have "sint (lin_acquireable_count s + 1) = sint (lin_acquireable_count s) + 1"
    by (rule sint_plus_one)
  moreover have "uint (lin_acquired_count s - 1) = uint (lin_acquired_count s) - 1"
    using assms(2) by (intro uint_minus_one) (simp add: linear_held_def)
  ultimately show ?thesis by (simp add: LinearRateLimiter_releaseOne_def linear_held_def)
qed

lemma linear_invar_alt:
  "linear_invar s \<longleftrightarrow>
     lin_frequency s = make_Frequency (hertz (lin_frequency s))
     \<and> 0 < unat (hertz (lin_frequency s)) \<and> unat (hertz (lin_frequency s)) < 2 ^ 32
     \<and> base_ok (lin_base s) \<and> linear_held s \<le> 2 ^ 62
     \<and> sint (lin_acquireable_count s) + linear_held s \<le> 2 ^ 62"
  by (simp add: linear_invar_def linear_held_def)

lemma linear_due_cong:
  "lin_base s' = lin_base s \<or> (clock_ok c \<and> base_ok (lin_base s)
      \<and> lin_base s' = snd (RateLimiterBase_elapsed c (lin_base s)))
   \<Longrightarrow> lin_frequency s' = lin_frequency s \<Longrightarrow> linear_due c s' = linear_due c s"
  using base_ok_elapsed(3) [of c "lin_base s"] by (auto simp: linear_due_def)

lemma linear_held_nonneg: "0 \<le> linear_held s"
  by (simp add: linear_held_def)

lemma linear_acquire:
  assumes "clock_ok c" "linear_invar s" and r: "LinearRateLimiter_tryAcquireOne c s = (got, s')"
  shows "linear_invar s'" and "linear_held s' = linear_held s + (if got then 1 else 0)"
    and "linear_due c s' = linear_due c s"
    and "got \<Longrightarrow> linear_pending c s' < linear_pending c s"
    and "\<not> got \<Longrightarrow> linear_pending c s' \<le> linear_pending c s"
    and "got \<longleftrightarrow> 0 < linear_pending c s"
proof -
  have b: "base_ok (lin_base s)" using assms(2) by (simp add: linear_invar_alt)
  note bo = base_ok_elapsed(1) [OF assms(1) b] and db = linear_due_bound(1) [OF assms(1,2)]
    and cong = linear_due_cong [of s' s c] and h0 = linear_held_nonneg [of s]
  show "linear_held s' = linear_held s + (if got then 1 else 0)"
    using r by (cases rule: linear_cases [OF assms(1,2)]) auto
  show due: "linear_due c s' = linear_due c s"
    using r assms(1) b cong by (cases rule: linear_cases [OF assms(1,2)]) auto
  show "linear_invar s'"
    using r assms(2) bo db h0 by (cases rule: linear_cases [OF assms(1,2)]) (auto simp: linear_invar_alt abs_le_iff)
  show "got \<Longrightarrow> linear_pending c s' < linear_pending c s"
    using r due by (cases rule: linear_cases [OF assms(1,2)]) (auto simp: linear_pending_def)
  show "\<not> got \<Longrightarrow> linear_pending c s' \<le> linear_pending c s"
    using r due by (cases rule: linear_cases [OF assms(1,2)]) (auto simp: linear_pending_def)
  show "got \<longleftrightarrow> 0 < linear_pending c s"
    using r by (cases rule: linear_cases [OF assms(1,2)]) (auto simp: linear_pending_def)
qed

interpretation linear: late_release_limiter
  LinearRateLimiter_tryAcquireOne LinearRateLimiter_releaseOne linear_invar linear_held
  linear_may_release linear_pending "\<lambda>_. 0"
proof unfold_locales
  fix c s
  assume *: "clock_ok c" "linear_invar s"
  fix got s'
  assume "LinearRateLimiter_tryAcquireOne c s = (got, s')"
  note a = linear_acquire [OF * this]
  show "linear_held s' = linear_held s + (if got then 1 else 0)" by (rule a)
  show "linear_invar s' \<and> linear_held s + (if got then 1 else 0) \<le> linear_held s'
      \<and> (got \<longrightarrow> linear_may_release c s')
      \<and> linear_pending c s' + (if got then 1 else 0) \<le> linear_pending c s"
    using a linear_held_nonneg [of s] by (auto simp: linear_may_release_def)
next
  fix c s
  assume *: "clock_ok c" "linear_invar s"
  show "\<exists>s'. LinearRateLimiter_releaseOne c s = Inr s' \<and> linear_invar s'
      \<and> linear_held s' = linear_held s - 1 \<and> linear_pending c s' \<le> Suc (linear_pending c s)"
    if r: "linear_may_release c s"
  proof -
    have "0 < linear_held s" using r by (simp add: linear_may_release_def)
    then obtain s' where s': "LinearRateLimiter_releaseOne c s = Inr s'"
        "linear_held s' = linear_held s - 1"
        "sint (lin_acquireable_count s') = sint (lin_acquireable_count s) + 1"
        "lin_base s' = lin_base s" "lin_frequency s' = lin_frequency s"
      using linear_release [OF *(2)] by blast
    moreover have "linear_invar s'" using s' *(2) by (simp add: linear_invar_alt)
    moreover have "linear_due c s' = linear_due c s" using s' by (intro linear_due_cong) auto
    ultimately show ?thesis by (auto simp: linear_pending_def)
  qed
qed (auto simp: clock_ok_def linear_may_release_def)

lemma linear_invar_new:
  "0 < unat hz \<Longrightarrow> unat hz < 2 ^ 32 \<Longrightarrow> new_LinearRateLimiter (make_Frequency hz) = Inr s
   \<Longrightarrow> linear_invar s \<and> linear_held s = 0"
  by (auto simp: new_LinearRateLimiter_def linear_invar_alt linear_held_def base_ok_def new_base_def
      make_Frequency_def split: if_splits)

section \<open>Pacing of the linear limiter over a run\<close>

text \<open>
  The states that calls at non-decreasing clock readings lead to, with the last reading. Only
  acquisitions that were handed out are returned.
\<close>

inductive linear_reach :: "u64 \<Rightarrow> int \<Rightarrow> LinearRateLimiter \<Rightarrow> bool" for hz where
  created: "new_LinearRateLimiter (make_Frequency hz) = Inr s \<Longrightarrow> linear_reach hz 0 s"
| attempted: "linear_reach hz t s \<Longrightarrow> clock_ok c \<Longrightarrow> t \<le> monotonicTime c
    \<Longrightarrow> linear_reach hz (monotonicTime c) (snd (LinearRateLimiter_tryAcquireOne c s))"
| returned: "linear_reach hz t s \<Longrightarrow> clock_ok c \<Longrightarrow> t \<le> monotonicTime c
    \<Longrightarrow> 0 < lin_acquired_count s \<Longrightarrow> LinearRateLimiter_releaseOne c s = Inr s'
    \<Longrightarrow> linear_reach hz (monotonicTime c) s'"

definition linear_on_schedule :: "int \<Rightarrow> LinearRateLimiter \<Rightarrow> bool" where
  "linear_on_schedule t s \<longleftrightarrow>
     (case start_time (lin_base s) of
        None \<Rightarrow> linear_held s = 0 \<and> sint (lin_acquireable_count s) \<le> 0
      | Some t0 \<Rightarrow> t0 \<le> t \<and> linear_held s + max 0 (sint (lin_acquireable_count s))
          \<le> max 0 \<lfloor>linear_quotient (t - t0) (unat (hertz (lin_frequency s)))\<rfloor>)"

lemma linear_on_schedule_acquire:
  assumes inv: "clock_ok c" "linear_invar s" and "linear_on_schedule t s" "t \<le> monotonicTime c"
  shows "linear_on_schedule (monotonicTime c) (snd (LinearRateLimiter_tryAcquireOne c s))"
proof -
  let ?h = "unat (hertz (lin_frequency s))"
  have h: "0 < ?h" "?h < 2 ^ 32" using inv(2) by (simp_all add: linear_invar_alt)
  have mono: "\<lfloor>linear_quotient (t - t0) ?h\<rfloor> \<le> \<lfloor>linear_quotient (monotonicTime c - t0) ?h\<rfloor>" for t0
    using assms(4) by (intro floor_mono linear_quotient_mono [OF h]) simp
  show ?thesis
  proof (cases rule: linear_cases [OF inv])
    case (1 s')
    then obtain t0 where t0: "start_time (lin_base s) = Some t0"
      using assms(3) by (auto simp: linear_on_schedule_def split: option.splits)
    with 1 show ?thesis using assms(3,4) mono [of t0] by (auto simp: linear_on_schedule_def)
  next
    case (2 s')
    then show ?thesis
      using assms(3,4)
      by (auto simp: linear_on_schedule_def linear_due_def elapsed_at_def RateLimiterBase_elapsed_def
          Let_def split: option.splits if_splits)
  next
    case (3 s')
    show ?thesis
    proof (cases "start_time (lin_base s)")
      case None
      then show ?thesis using 3 assms(3)
        by (simp add: linear_on_schedule_def RateLimiterBase_elapsed_def Let_def)
    next
      case (Some t0)
      then show ?thesis using 3 assms(3,4) mono [of t0]
        by (auto simp: linear_on_schedule_def RateLimiterBase_elapsed_def Let_def)
    qed
  qed
qed

lemma linear_on_schedule_later:
  assumes "linear_invar s" "linear_on_schedule t s" "t \<le> t'"
  shows "linear_on_schedule t' s"
proof (cases "start_time (lin_base s)")
  case (Some t0)
  have "0 < unat (hertz (lin_frequency s))" "unat (hertz (lin_frequency s)) < 2 ^ 32"
    using assms(1) by (simp_all add: linear_invar_alt)
  then have "\<lfloor>linear_quotient (t - t0) (unat (hertz (lin_frequency s)))\<rfloor>
      \<le> \<lfloor>linear_quotient (t' - t0) (unat (hertz (lin_frequency s)))\<rfloor>"
    using assms(3) by (intro floor_mono linear_quotient_mono) simp_all
  then show ?thesis using assms(2,3) Some by (auto simp: linear_on_schedule_def)
qed (use assms in \<open>simp add: linear_on_schedule_def\<close>)

lemma linear_on_schedule_release:
  assumes "linear_invar s" "linear_on_schedule t s" "0 < linear_held s"
    and "LinearRateLimiter_releaseOne c s = Inr s'"
  shows "linear_on_schedule t s'"
proof -
  obtain s2 where s2: "LinearRateLimiter_releaseOne c s = Inr s2" "linear_held s2 = linear_held s - 1"
      "sint (lin_acquireable_count s2) = sint (lin_acquireable_count s) + 1"
      "lin_base s2 = lin_base s" "lin_frequency s2 = lin_frequency s"
    using linear_release [OF assms(1,3)] by blast
  have "s2 = s'" using s2(1) assms(4) by simp
  moreover obtain t0 where "start_time (lin_base s) = Some t0"
    using assms(2,3) by (auto simp: linear_on_schedule_def split: option.splits)
  ultimately show ?thesis using assms(2,3) s2 by (auto simp: linear_on_schedule_def)
qed

lemma linear_on_schedule_bound:
  assumes "linear_invar s" "linear_on_schedule t s" "start_time (lin_base s) = Some t0"
  shows "of_int (linear_held s)
    \<le> ideal_schedule (t - t0) (unat (hertz (lin_frequency s))) * (1 + 2 powi (-50))"
proof -
  let ?h = "unat (hertz (lin_frequency s))" and ?q = "linear_quotient (t - t0) (unat (hertz (lin_frequency s)))"
  have h: "0 < ?h" "?h < 2 ^ 32" using assms(1) by (simp_all add: linear_invar_alt)
  have t: "t0 \<le> t" and le: "linear_held s \<le> max 0 \<lfloor>?q\<rfloor>"
    using assms(2,3) by (auto simp: linear_on_schedule_def)
  have up: "?q \<le> ideal_schedule (t - t0) ?h * (1 + 2 powi (-50))"
    using t by (intro linear_quotient_schedule(1) h) simp
  have nonneg: "0 \<le> ideal_schedule (t - t0) ?h * (1 + 2 powi (-50))"
    using ideal_schedule_ge_half [of "t - t0" ?h] t by (intro mult_nonneg_nonneg) simp_all
  show ?thesis
  proof (cases "linear_held s \<le> 0")
    case True
    then have "of_int (linear_held s) \<le> (0 :: rat)" by simp
    then show ?thesis using nonneg by linarith
  next
    case False
    then have "linear_held s \<le> \<lfloor>?q\<rfloor>" using le by linarith
    then show ?thesis using up by (simp add: le_floor_iff)
  qed
qed

lemma linear_frequency_acquire: "lin_frequency (snd (LinearRateLimiter_tryAcquireOne c s)) = lin_frequency s"
  by (simp add: LinearRateLimiter_tryAcquireOne_def LinearRateLimiter_take_def Let_def split: prod.splits)

lemma linear_reach_invar:
  assumes h: "0 < unat hz" "unat hz < 2 ^ 32" and "linear_reach hz t s"
  shows "linear_invar s \<and> linear_on_schedule t s \<and> hertz (lin_frequency s) = hz \<and> 0 \<le> t \<and> t < 2 ^ 58"
  using assms(3)
proof induction
  case (created s)
  then show ?case
    using linear_invar_new [OF h created]
    by (auto simp: new_LinearRateLimiter_def linear_on_schedule_def new_base_def make_Frequency_def
        split: if_splits)
next
  case (attempted t s c)
  note * = attempted(2) attempted(4) [THEN conjunct1]
  have "hertz (lin_frequency (snd (LinearRateLimiter_tryAcquireOne c s))) = hz"
    using attempted(4) by (cases rule: linear_cases [OF *]) auto
  then show ?case
    using attempted linear_acquire(1) [OF * prod.collapse [symmetric]] linear_on_schedule_acquire [OF *]
    by (auto simp: clock_ok_def)
next
  case (returned t s c s')
  have inv: "linear_invar s" and sched: "linear_on_schedule t s" using returned by auto
  have held: "0 < linear_held s" using returned(4) by (simp add: linear_held_def word_less_def)
  obtain s2 where s2: "LinearRateLimiter_releaseOne c s = Inr s2" "linear_held s2 = linear_held s - 1"
      "sint (lin_acquireable_count s2) = sint (lin_acquireable_count s) + 1"
      "lin_base s2 = lin_base s" "lin_frequency s2 = lin_frequency s"
    using linear_release [OF inv held] by blast
  have [simp]: "s2 = s'" using s2(1) returned(5) by simp
  have "linear_on_schedule (monotonicTime c) s'"
    by (rule linear_on_schedule_release [OF inv linear_on_schedule_later [OF inv sched returned(3)] held returned(5)])
  moreover have "linear_invar s'" using inv s2 by (simp add: linear_invar_alt)
  ultimately show ?case using returned s2 by (simp add: clock_ok_def)
qed

text \<open>A limiter at one request per second, polled at the given times.\<close>

definition clock_at :: "int \<Rightarrow> clock" where
  "clock_at t = \<lparr>monotonicTime = t, systemTime = t\<rparr>"

definition linear_polled :: "int list \<Rightarrow> LinearRateLimiter" where
  "linear_polled ts = foldl (\<lambda>s t. snd (LinearRateLimiter_tryAcquireOne (clock_at t) s))
     \<lparr>lin_base = new_base, lin_acquireable_count = 0, lin_acquired_count = 0,
      lin_frequency = make_Frequency 1\<rparr> ts"

lemma phase_shifted_count_1hz:
  "phase_shifted_count 0 (make_Frequency 1) = 0"
  "phase_shifted_count 500000000 (make_Frequency 1) = 1"
  "phase_shifted_count 1000000000 (make_Frequency 1) = 1"
proof -
  have "\<lfloor>1 / 2 :: rat\<rfloor> = 0" "\<lfloor>3 / 2 :: rat\<rfloor> = 1" by (simp_all add: floor_eq_iff)
  then show "phase_shifted_count 0 (make_Frequency 1) = 0"
    and "phase_shifted_count 500000000 (make_Frequency 1) = 1"
    and "phase_shifted_count 1000000000 (make_Frequency 1) = 1"
    by (simp_all add: phase_shifted_count_def make_Frequency_def dbl_defs double_of_u64_def
        double_of_int_def Let_def truncate_rat_def)
qed

lemma linear_polled_1hz:
  "linear_polled [] = \<lparr>lin_base = new_base, lin_acquireable_count = 0, lin_acquired_count = 0,
      lin_frequency = make_Frequency 1\<rparr>"
  "linear_polled [0] = \<lparr>lin_base = \<lparr>start_time = Some 0, first_acquisition_time = Some 0\<rparr>,
      lin_acquireable_count = 0, lin_acquired_count = 0, lin_frequency = make_Frequency 1\<rparr>"
  "linear_polled [0, 500000000] = \<lparr>lin_base = \<lparr>start_time = Some 0, first_acquisition_time = Some 0\<rparr>,
      lin_acquireable_count = 0, lin_acquired_count = 1, lin_frequency = make_Frequency 1\<rparr>"
  by (simp_all add: linear_polled_def LinearRateLimiter_tryAcquireOne_def RateLimiterBase_elapsed_def
      new_base_def clock_at_def LinearRateLimiter_take_def phase_shifted_count_1hz Let_def)

lemma linear_polled_reach:
  "linear_reach 1 0 (linear_polled [0])" "linear_reach 1 500000000 (linear_polled [0, 500000000])"
proof -
  have "linear_reach 1 0 (linear_polled [])"
    by (rule linear_reach.created) (simp add: linear_polled_1hz new_LinearRateLimiter_def make_Frequency_def)
  from linear_reach.attempted [OF this, of "clock_at 0"]
  show one: "linear_reach 1 0 (linear_polled [0])"
    by (simp add: clock_ok_def clock_at_def linear_polled_def)
  from linear_reach.attempted [OF this, of "clock_at 500000000"]
  show "linear_reach 1 500000000 (linear_polled [0, 500000000])"
    by (simp add: clock_ok_def clock_at_def linear_polled_def)
qed

text \<open>
  C3. The linear limiter never runs ahead of its schedule: whatever the interleaving of attempts
  and returns, the acquisitions outstanding at time \<open>t\<close> are at most the ideal number
  \<open>(t - t0) * hz / 10^9 + 1/2\<close>, up to a relative error of \<open>2 powi (-50)\<close> from the seven
  floating-point roundings.
\<close>

theorem linear_never_ahead:
  assumes "0 < unat hz" "unat hz < 2 ^ 32" "linear_reach hz t s" "start_time (lin_base s) = Some t0"
  shows "of_int (uint (lin_acquired_count s))
    \<le> ideal_schedule (t - t0) (unat hz) * (1 + 2 powi (-50))"
  using linear_reach_invar [OF assms(1-3)] linear_on_schedule_bound [OF _ _ assms(4)]
  by (auto simp: linear_held_def)

theorem linear_never_ahead_witness:
  "lin_acquired_count (linear_polled [0, 500000000]) = 1
   \<and> of_int (uint (lin_acquired_count (linear_polled [0, 500000000])))
     \<le> ideal_schedule 500000000 1 * (1 + 2 powi (-50))"
  using linear_never_ahead [OF _ _ linear_polled_reach(2), of 0] by (simp add: linear_polled_1hz)

text \<open>
  C4. Nor does it fall behind: when an attempt is refused, the acquisitions handed out have already
  reached the ideal schedule, up to the same relative error.
\<close>

theorem linear_refusal_on_schedule:
  assumes "0 < unat hz" "unat hz < 2 ^ 32" "linear_reach hz t s" "clock_ok c" "t \<le> monotonicTime c"
    and "LinearRateLimiter_tryAcquireOne c s = (False, s')" "start_time (lin_base s') = Some t0"
  shows "ideal_schedule (monotonicTime c - t0) (unat hz) * (1 - 2 powi (-50))
    < of_int (uint (lin_acquired_count s')) + 1"
proof -
  have s: "linear_invar s" "linear_on_schedule t s" "hertz (lin_frequency s) = hz"
    using linear_reach_invar [OF assms(1-3)] by auto
  have "linear_due c s \<le> linear_held s \<and> linear_held s' = linear_held s
      \<and> lin_base s' = snd (RateLimiterBase_elapsed c (lin_base s))"
    using assms(6) by (cases rule: linear_cases [OF assms(4) s(1)]) auto
  moreover from this have "elapsed_at c (lin_base s) = monotonicTime c - t0"
    using assms(7) by (auto simp: elapsed_at_def RateLimiterBase_elapsed_def Let_def split: if_splits)
  ultimately have "linear_quotient (monotonicTime c - t0) (unat hz) < of_int (linear_held s') + 1"
    by (simp add: linear_due_def s(3) floor_le_iff)
  moreover have "linear_on_schedule (monotonicTime c) s'"
    using linear_on_schedule_acquire [OF assms(4) s(1,2) assms(5)] assms(6) by simp
  then have "t0 \<le> monotonicTime c" using assms(7) by (simp add: linear_on_schedule_def)
  then have "ideal_schedule (monotonicTime c - t0) (unat hz) * (1 - 2 powi (-50))
      \<le> linear_quotient (monotonicTime c - t0) (unat hz)"
    by (intro linear_quotient_schedule(2) assms(1,2)) simp
  ultimately show ?thesis by (simp add: linear_held_def)
qed

theorem linear_refusal_on_schedule_witness:
  "LinearRateLimiter_tryAcquireOne (clock_at 1000000000) (linear_polled [0, 500000000])
     = (False, linear_polled [0, 500000000])
   \<and> ideal_schedule 1000000000 1 * (1 - 2 powi (-50)) < 2"
proof -
  have step: "LinearRateLimiter_tryAcquireOne (clock_at 1000000000) (linear_polled [0, 500000000])
      = (False, linear_polled [0, 500000000])"
    by (simp add: linear_polled_1hz LinearRateLimiter_tryAcquireOne_def RateLimiterBase_elapsed_def
        clock_at_def phase_shifted_count_1hz Let_def)
  show ?thesis
    using linear_refusal_on_schedule [OF _ _ linear_polled_reach(2) _ _ step, of 0] step
    by (simp add: linear_polled_1hz clock_ok_def clock_at_def)
qed

end
