(* ===== verification/TerminationPredicate.thy ===== *)
theory TerminationPredicate
  imports RateLimiter
begin

text \<open>
  The termination predicates of \<^verbatim>\<open>source/common/termination_predicate_impl.{h,cc}\<close> and the chain
  that \<^verbatim>\<open>TerminationPredicateFactoryImpl\<close> (\<^verbatim>\<open>source/client/factories_impl.cc\<close>) builds from the
  options. A chain is the list of its predicates from the root to the innermost linked child;
  counters are read by name.
\<close>

datatype termination_status = PROCEED | TERMINATE | FAIL

datatype predicate =
    DurationPredicate (start: int) (duration_us: int)
  | StatsCounterPredicate (counter: string) (counter_limit: u64) (trip_status: termination_status)

type_synonym counters = "string \<Rightarrow> u64"

fun evaluate :: "clock \<Rightarrow> counters \<Rightarrow> predicate \<Rightarrow> termination_status" where
  "evaluate c cs (DurationPredicate t d) =
     (if monotonicTime c - t > d * 1000 then TERMINATE else PROCEED)"
| "evaluate c cs (StatsCounterPredicate n limit st) = (if cs n > limit then st else PROCEED)"

fun evaluateChain :: "clock \<Rightarrow> counters \<Rightarrow> predicate list \<Rightarrow> termination_status" where
  "evaluateChain c cs [] = PROCEED"
| "evaluateChain c cs (p # linked_child) =
     (let status = (if linked_child \<noteq> [] then evaluateChain c cs linked_child else PROCEED)
      in if status = PROCEED then evaluate c cs p else status)"

fun link :: "predicate list \<Rightarrow> predicate list \<Rightarrow> failure + predicate list" where
  "link [p] child = Inr (p # child)"
| "link _ _ = Inl (ReleaseAssertFailure ''Linked child already set'')"

fun appendToChain :: "predicate list \<Rightarrow> predicate list \<Rightarrow> failure + predicate list" where
  "appendToChain (p # q # linked_child) child = map_sum id (Cons p) (appendToChain (q # linked_child) child)"
| "appendToChain ps child = link ps child"

text \<open>
  The factory links one predicate after the other to the current one, which it holds by reference: a
  position in the chain. The predicate maps are ordered by name.
\<close>

definition link_at :: "predicate list \<Rightarrow> nat \<Rightarrow> predicate \<Rightarrow> failure + predicate list \<times> nat" where
  "link_at chain current child =
     map_sum id (\<lambda>linked. (take current chain @ linked, current + 1)) (link (drop current chain) [child])"

definition linkConfiguredPredicates ::
    "predicate list \<Rightarrow> nat \<Rightarrow> (string \<times> u64) list \<Rightarrow> termination_status \<Rightarrow> failure + predicate list \<times> nat" where
  "linkConfiguredPredicates chain last_predicate predicates st =
     (if st = PROCEED then Inl (ReleaseAssertFailure ''PROCEED was unexpected'')
      else foldl (\<lambda>acc (n, limit). case acc of Inl f \<Rightarrow> Inl f
                    | Inr (ps, current) \<Rightarrow> link_at ps current (StatsCounterPredicate n limit st))
             (Inr (chain, last_predicate)) predicates)"

record termination_options =
  no_duration :: bool
  duration_secs :: int
  failurePredicates :: "(string \<times> u64) list"
  terminationPredicates :: "(string \<times> u64) list"

definition TerminationPredicateFactory_create :: "termination_options \<Rightarrow> int \<Rightarrow> failure + predicate list" where
  "TerminationPredicateFactory_create opts starting_time =
     (let root = [StatsCounterPredicate ''graceful_stop_requested'' 0 TERMINATE];
          chain = (if no_duration opts then Inr (root, 0)
                   else link_at root 0 (DurationPredicate starting_time (duration_secs opts * 1000000)))
      in case chain of Inl f \<Rightarrow> Inl f
         | Inr (ps, current) \<Rightarrow>
             (case linkConfiguredPredicates ps current (failurePredicates opts) FAIL of Inl f \<Rightarrow> Inl f
              | Inr (ps, current) \<Rightarrow>
                  map_sum id fst (linkConfiguredPredicates ps current (terminationPredicates opts) TERMINATE)))"

section \<open>What a chain decides\<close>

lemma evaluateChain_append:
  "evaluateChain c cs (ps @ qs) =
     (if evaluateChain c cs qs = PROCEED then evaluateChain c cs ps else evaluateChain c cs qs)"
  by (induction ps) (auto simp: Let_def)

lemma appendToChain_append: "ps \<noteq> [] \<Longrightarrow> appendToChain ps child = Inr (ps @ child)"
  by (induction ps child rule: appendToChain.induct) auto

lemma link_at_end: "length ps = Suc current \<Longrightarrow> link_at ps current child = Inr (ps @ [child], Suc current)"
  by (cases ps rule: rev_cases) (simp_all add: link_at_def)

lemma linkConfiguredPredicates_append:
  assumes "length ps = Suc current" "st \<noteq> PROCEED"
  shows "linkConfiguredPredicates ps current prs st
    = Inr (ps @ map (\<lambda>(n, limit). StatsCounterPredicate n limit st) prs, current + length prs)"
proof -
  have "foldl (\<lambda>acc (n, limit). case acc of Inl f \<Rightarrow> Inl f
            | Inr (ps, current) \<Rightarrow> link_at ps current (StatsCounterPredicate n limit st)) (Inr (ps, current)) prs
      = Inr (ps @ map (\<lambda>(n, limit). StatsCounterPredicate n limit st) prs, current + length prs)"
    using assms(1) by (induction prs arbitrary: ps current) (auto simp: link_at_end)
  then show ?thesis using assms(2) by (simp add: linkConfiguredPredicates_def)
qed

text \<open>The factory's chain: the root, the duration, the failure predicates, the termination predicates.\<close>

lemma TerminationPredicateFactory_create_chain:
  "TerminationPredicateFactory_create opts t0 = Inr
     ((StatsCounterPredicate ''graceful_stop_requested'' 0 TERMINATE
        # (if no_duration opts then [] else [DurationPredicate t0 (duration_secs opts * 1000000)]))
      @ map (\<lambda>(n, limit). StatsCounterPredicate n limit FAIL) (failurePredicates opts)
      @ map (\<lambda>(n, limit). StatsCounterPredicate n limit TERMINATE) (terminationPredicates opts))"
  by (simp add: TerminationPredicateFactory_create_def Let_def link_at_end linkConfiguredPredicates_append)

definition tripped :: "counters \<Rightarrow> (string \<times> u64) list \<Rightarrow> bool" where
  "tripped cs prs \<longleftrightarrow> (\<exists>(n, limit) \<in> set prs. cs n > limit)"

lemma evaluateChain_counters:
  "st \<noteq> PROCEED \<Longrightarrow> evaluateChain c cs (map (\<lambda>(n, limit). StatsCounterPredicate n limit st) prs)
     = (if tripped cs prs then st else PROCEED)"
proof (induction prs)
  case (Cons p prs)
  then show ?case by (cases prs; cases p) (auto simp: tripped_def Let_def)
qed (simp add: tripped_def)

text \<open>
  C8. The chain built from the options always exists and decides by priority: a tripped termination
  counter ends the run successfully even when a failure counter has tripped too, then failure
  counters fail it, then the configured duration and last a requested graceful stop end it.
\<close>

theorem termination_priority:
  "\<exists>chain. TerminationPredicateFactory_create opts t0 = Inr chain
     \<and> evaluateChain c cs chain =
         (if tripped cs (terminationPredicates opts) then TERMINATE
          else if tripped cs (failurePredicates opts) then FAIL
          else if \<not> no_duration opts \<and> monotonicTime c - t0 > duration_secs opts * 1000000000 then TERMINATE
          else if cs ''graceful_stop_requested'' > 0 then TERMINATE
          else PROCEED)"
proof -
  define root where "root = StatsCounterPredicate ''graceful_stop_requested'' 0 TERMINATE"
  define dur where "dur = (if no_duration opts then []
      else [DurationPredicate t0 (duration_secs opts * 1000000)])"
  define chain where "chain = ((root # dur)
      @ map (\<lambda>(n, limit). StatsCounterPredicate n limit FAIL) (failurePredicates opts))
      @ map (\<lambda>(n, limit). StatsCounterPredicate n limit TERMINATE) (terminationPredicates opts)"
  have "TerminationPredicateFactory_create opts t0 = Inr chain"
    by (simp add: TerminationPredicateFactory_create_chain chain_def root_def dur_def)
  moreover have "evaluateChain c cs (root # dur) =
      (if \<not> no_duration opts \<and> monotonicTime c - t0 > duration_secs opts * 1000000000 then TERMINATE
       else if cs ''graceful_stop_requested'' > 0 then TERMINATE else PROCEED)"
    by (auto simp: root_def dur_def Let_def)
  then have "evaluateChain c cs chain =
      (if tripped cs (terminationPredicates opts) then TERMINATE
       else if tripped cs (failurePredicates opts) then FAIL
       else if \<not> no_duration opts \<and> monotonicTime c - t0 > duration_secs opts * 1000000000 then TERMINATE
       else if cs ''graceful_stop_requested'' > 0 then TERMINATE else PROCEED)"
    unfolding chain_def evaluateChain_append by (simp add: evaluateChain_counters del: evaluateChain.simps)
  ultimately show ?thesis by blast
qed

end
