(* ===== verification/LimiterStack.thy ===== *)
theory LimiterStack
  imports RateLimiter
begin

text \<open>
  The limiters that wrap another one keep the contract \<open>rate_limiter\<close> of the limiter they wrap:
  bursting, scheduled start, delayed release and filtering. The stacks that
  \<^verbatim>\<open>SequencerFactoryImpl::create\<close> builds are obtained by interpretation on the linear limiter.
\<close>

section \<open>Bursting\<close>

context rate_limiter
begin

lemma burst_accumulate_contract:
  assumes "burst_accumulate (acquire c) n acc r = (got, acc', r')"
    and "clock_ok c" "invar r" "uint acc < uint n"
  shows "invar r' \<and> uint acc \<le> uint acc' \<and> held r + (uint acc' - uint acc) \<le> held r'
    \<and> int (pending c r') + (uint acc' - uint acc) \<le> int (pending c r)
    \<and> (if got then acc' = n \<and> uint acc < uint acc' else uint acc' < uint n)"
  using assms
proof (induction "acquire c" n acc r rule: burst_accumulate.induct)
  case (1 n acc r)
  obtain ok r1 where r1: "acquire c r = (ok, r1)" by fastforce
  note law = acquire_law [OF 1(3,4) r1]
  have up: "uint (acc + 1) = uint acc + 1"
    using 1(5) uint_bounded [of n] by (intro uint_plus_one) simp
  show ?case
  proof (cases ok)
    case False
    then have "got = False" "acc' = acc" "r' = r1"
      using 1(2) r1 by (auto simp: burst_accumulate.simps [of "acquire c" n acc r])
    then show ?thesis
      using law False 1(5) by simp
  next
    case True
    show ?thesis
    proof (cases "(acc + 1) mod n = 0")
      case full: True
      have "uint (acc + 1) \<noteq> 0" using up uint_ge_0 [of acc] by linarith
      then have "acc + 1 \<noteq> 0" by (metis unsigned_0)
      moreover have "uint (acc + 1) \<le> uint n" using up 1(5) by linarith
      ultimately have n: "acc + 1 = n" by (intro word_mod_full [OF full])
      have "got" "acc' = acc + 1" "r' = r1"
        using 1(2) r1 True full by (simp_all add: burst_accumulate.simps [of "acquire c" n acc r])
      then show ?thesis using law up n True by simp
    next
      case part: False
      have "uint (acc + 1) \<le> uint n" using up 1(5) by linarith
      then have "uint (acc + 1) < uint n" by (rule word_mod_part [OF part])
      moreover have "burst_accumulate (acquire c) n (acc + 1) r1 = (got, acc', r')"
        using 1(2) r1 True part by (simp add: burst_accumulate.simps [of "acquire c" n acc r])
      ultimately show ?thesis
        using 1(1) [OF r1 [symmetric] _ part] True 1(3) law up by (auto split: if_splits)
    qed
  qed
qed

end

text \<open>
  The state invariant also makes the two debug assertions of \<^verbatim>\<open>releaseOne()\<close> the condition under
  which the contract allows a release.
\<close>

definition burst_invar :: "('r \<Rightarrow> bool) \<Rightarrow> BurstingRateLimiter \<times> 'r \<Rightarrow> bool" where
  "burst_invar inner = (\<lambda>(s, r). inner r \<and> accumulated s \<le> burst_size s \<and> 0 < burst_size s
     \<and> (if releasing s then 0 < accumulated s else accumulated s < burst_size s))"

definition burst_held :: "('r \<Rightarrow> int) \<Rightarrow> BurstingRateLimiter \<times> 'r \<Rightarrow> int" where
  "burst_held inner = (\<lambda>(s, r). inner r - uint (accumulated s))"

definition burst_may_release :: "clock \<Rightarrow> BurstingRateLimiter \<times> 'r \<Rightarrow> bool" where
  "burst_may_release c = (\<lambda>(s, r). burst_release_asserts s)"

definition burst_pending :: "(clock \<Rightarrow> 'r \<Rightarrow> nat) \<Rightarrow> clock \<Rightarrow> BurstingRateLimiter \<times> 'r \<Rightarrow> nat" where
  "burst_pending inner c = (\<lambda>(s, r). inner c r + unat (accumulated s))"

lemmas burst_defs = burst_invar_def burst_held_def burst_may_release_def burst_pending_def
  burst_release_asserts_def burst_drain_def

text \<open>The word comparisons and counters of the state, read over the integers.\<close>

definition burst_count :: "BurstingRateLimiter \<Rightarrow> int" where
  "burst_count s = uint (accumulated s)"

definition burst_limit :: "BurstingRateLimiter \<Rightarrow> int" where
  "burst_limit s = uint (burst_size s)"

lemma burst_count_nonneg: "0 \<le> burst_count s"
  by (simp add: burst_count_def)

lemmas word_to_int = word_le_def word_less_def

lemma burst_views [simp]:
  "burst_invar iv (s, r) \<longleftrightarrow> iv r \<and> burst_count s \<le> burst_limit s \<and> 0 < burst_limit s
     \<and> (if releasing s then 0 < burst_count s else burst_count s < burst_limit s)"
  "burst_held hld (s, r) = hld r - burst_count s"
  "burst_may_release c (s, r) \<longleftrightarrow> burst_count s < burst_limit s \<and> previously_releasing s = Some True"
  "int (burst_pending pnd c (s, r)) = int (pnd c r) + burst_count s"
  by (simp_all add: burst_invar_def burst_held_def burst_may_release_def burst_pending_def word_to_int
      burst_release_asserts_def burst_count_def burst_limit_def)

lemma burst_drain_facts:
  assumes "0 < burst_count s"
  shows "burst_count (burst_drain s) = burst_count s - 1"
    and "releasing (burst_drain s) \<longleftrightarrow> 1 < burst_count s"
    and "burst_limit (burst_drain s) = burst_limit s"
    and "previously_releasing (burst_drain s) = Some True"
  using uint_minus_one [OF assms [unfolded burst_count_def]] assms
  by (simp_all add: burst_drain_def word_to_int burst_count_def burst_limit_def)

locale bursting_limiter = rate_limiter

context bursting_limiter
begin

lemma burst_acquire:
  assumes c: "clock_ok c" and inv: "burst_invar invar sr"
    and run: "BurstingRateLimiter_tryAcquireOne acquire c sr = (got, sr')"
  shows "burst_invar invar sr'
    \<and> burst_held held sr + (if got then 1 else 0) \<le> burst_held held sr'
    \<and> (got \<longrightarrow> burst_may_release c sr')
    \<and> int (burst_pending pending c sr') + (if got then 1 else 0) \<le> int (burst_pending pending c sr)"
proof -
  obtain s r where sr: "sr = (s, r)" by fastforce
  have inv': "invar r" "burst_count s \<le> burst_limit s" "0 < burst_limit s"
    "if releasing s then 0 < burst_count s else burst_count s < burst_limit s"
    using inv by (simp_all add: sr)
  show ?thesis
  proof (cases "releasing s")
    case True
    then have sr': "got" "sr' = (burst_drain s, r)"
      using run by (auto simp: sr BurstingRateLimiter_tryAcquireOne_def)
    have "0 < burst_count s" using inv'(4) True by simp
    then show ?thesis using inv' sr'(1) by (simp add: sr sr'(2) burst_drain_facts)
  next
    case False
    obtain full_burst acc r' where acc:
        "burst_accumulate (acquire c) (burst_size s) (accumulated s) r = (full_burst, acc, r')"
      using prod_cases3 by blast
    let ?s = "s\<lparr>accumulated := acc, releasing := True\<rparr>"
    let ?t = "s\<lparr>accumulated := acc, previously_releasing := None\<rparr>"
    have v: "burst_count ?s = uint acc" "burst_limit ?s = burst_limit s"
        "burst_count ?t = uint acc" "burst_limit ?t = burst_limit s"
        "uint (accumulated s) = burst_count s" "uint (burst_size s) = burst_limit s"
      by (simp_all add: burst_count_def burst_limit_def)
    have "uint (accumulated s) < uint (burst_size s)" using inv'(4) False v by simp
    note law = burst_accumulate_contract [OF acc c inv'(1) this, unfolded v]
    show ?thesis
    proof (cases full_burst)
      case True
      define S where "S = burst_drain ?s"
      have sr': "got" "sr' = (S, r')"
        using run False True acc by (auto simp: sr BurstingRateLimiter_tryAcquireOne_def S_def)
      have full: "burst_count ?s = burst_limit s" using law True v by auto
      with inv'(3) have "0 < burst_count ?s" by simp
      note d = burst_drain_facts [OF this, folded S_def, unfolded full v]
      have "uint acc = burst_limit s" using full v by simp
      then show ?thesis using inv'(3) law sr'(1) by (simp add: sr sr'(2) d)
    next
      case no: False
      have "\<not> got" "sr' = (?t, r')"
        using run False no acc by (auto simp: sr BurstingRateLimiter_tryAcquireOne_def)
      then show ?thesis using inv'(3) False no law by (simp add: sr v)
    qed
  qed
qed

lemma burst_release:
  assumes "burst_invar invar sr" "burst_may_release c sr"
  shows "\<exists>sr'. BurstingRateLimiter_releaseOne c sr = Inr sr' \<and> burst_invar invar sr'
    \<and> burst_held held sr' = burst_held held sr - 1
    \<and> burst_pending pending c sr' \<le> Suc (burst_pending pending c sr)"
proof -
  obtain s r where sr: "sr = (s, r)" by fastforce
  let ?s = "s\<lparr>accumulated := accumulated s + 1, releasing := True, previously_releasing := None\<rparr>"
  have lt: "burst_count s < burst_limit s" using assms by (simp add: sr)
  have "uint (accumulated s + 1) = uint (accumulated s) + 1"
    using lt uint_bounded [of "burst_size s"]
    by (intro uint_plus_one) (simp add: burst_count_def burst_limit_def)
  then have v: "burst_count ?s = burst_count s + 1" "burst_limit ?s = burst_limit s"
    by (simp_all add: burst_count_def burst_limit_def)
  have "BurstingRateLimiter_releaseOne c sr = Inr (?s, r)"
    by (simp add: sr BurstingRateLimiter_releaseOne_def)
  moreover have "burst_invar invar (?s, r)" "burst_held held (?s, r) = burst_held held sr - 1"
    using assms(1) lt burst_count_nonneg [of s] by (simp_all add: sr v)
  moreover have "int (burst_pending pending c (?s, r)) \<le> int (Suc (burst_pending pending c sr))"
    by (simp add: sr v)
  then have "burst_pending pending c (?s, r) \<le> Suc (burst_pending pending c sr)"
    by (simp only: of_nat_le_iff)
  ultimately show ?thesis by (intro exI [of _ "(?s, r)"] conjI)
qed

end

sublocale bursting_limiter \<subseteq> burst: rate_limiter
  "BurstingRateLimiter_tryAcquireOne acquire" BurstingRateLimiter_releaseOne "burst_invar invar"
  "burst_held held" burst_may_release "burst_pending pending"
proof (unfold_locales, goal_cases)
  case (1 c s got s')
  then show ?case using burst_acquire [of c s got s'] by (cases got) auto
next
  case (2 c s)
  then show ?case by (intro burst_release)
qed

text \<open>Bursting discards nothing either.\<close>

context exact_rate_limiter
begin

lemma burst_accumulate_exact:
  assumes "burst_accumulate (acquire c) n acc r = (got, acc', r')"
    and "clock_ok c" "invar r" "uint acc < uint n"
  shows "held r' = held r + (uint acc' - uint acc)"
  using assms
proof (induction "acquire c" n acc r rule: burst_accumulate.induct)
  case (1 n acc r)
  obtain ok r1 where r1: "acquire c r = (ok, r1)" by fastforce
  note law = acquire_law [OF 1(3,4) r1] held_law [OF 1(3,4) r1]
  have up: "uint (acc + 1) = uint acc + 1"
    using 1(5) uint_bounded [of n] by (intro uint_plus_one) simp
  note unroll = 1(2) [unfolded burst_accumulate.simps [of "acquire c" n acc r] r1]
  show ?case
  proof (cases "ok \<and> (acc + 1) mod n \<noteq> 0")
    case True
    have "uint (acc + 1) \<le> uint n" using up 1(5) by linarith
    then have "uint (acc + 1) < uint n" using True by (intro word_mod_part) simp_all
    moreover have "burst_accumulate (acquire c) n (acc + 1) r1 = (got, acc', r')"
      using unroll True by simp
    ultimately show ?thesis
      using 1(1) [OF r1 [symmetric]] True 1(3) law up by simp
  next
    case False
    then show ?thesis using unroll law up by (cases ok) auto
  qed
qed

end

locale bursting_exact_limiter = exact_rate_limiter

sublocale bursting_exact_limiter \<subseteq> bursting_limiter ..

context bursting_exact_limiter
begin

lemma burst_held_exact:
  assumes c: "clock_ok c" and inv: "burst_invar invar sr"
    and run: "BurstingRateLimiter_tryAcquireOne acquire c sr = (got, sr')"
  shows "burst_held held sr' = burst_held held sr + (if got then 1 else 0)"
proof -
  obtain s r where sr: "sr = (s, r)" by fastforce
  show ?thesis
  proof (cases "releasing s")
    case True
    then have "got" "sr' = (burst_drain s, r)"
      using run by (auto simp: sr BurstingRateLimiter_tryAcquireOne_def)
    then show ?thesis using inv True by (simp add: sr burst_drain_facts)
  next
    case False
    then have lt: "invar r" "uint (accumulated s) < uint (burst_size s)"
      using inv by (simp_all add: sr burst_count_def burst_limit_def)
    obtain full_burst acc r' where acc:
        "burst_accumulate (acquire c) (burst_size s) (accumulated s) r = (full_burst, acc, r')"
      using prod_cases3 by blast
    note law = burst_accumulate_contract [OF acc c lt] burst_accumulate_exact [OF acc c lt]
    show ?thesis
    proof (cases full_burst)
      case True
      have "uint (accumulated s) < uint acc" using law(1) True by auto
      then have "0 < uint acc" using uint_ge_0 [of "accumulated s"] by linarith
      then have "0 < burst_count (s\<lparr>accumulated := acc, releasing := True\<rparr>)"
        by (simp add: burst_count_def)
      note d = burst_drain_facts(1) [OF this]
      show ?thesis
        using run False True acc law d by (auto simp: sr BurstingRateLimiter_tryAcquireOne_def burst_count_def)
    next
      case no: False
      then show ?thesis
        using run False acc law by (auto simp: sr BurstingRateLimiter_tryAcquireOne_def burst_count_def)
    qed
  qed
qed

end

sublocale bursting_exact_limiter \<subseteq> burst: exact_rate_limiter
  "BurstingRateLimiter_tryAcquireOne acquire" BurstingRateLimiter_releaseOne "burst_invar invar"
  "burst_held held" burst_may_release "burst_pending pending"
  by unfold_locales (rule burst_held_exact)

section \<open>Scheduled start\<close>

definition sched_invar :: "('r \<Rightarrow> bool) \<Rightarrow> ScheduledStartingRateLimiter \<times> 'r \<Rightarrow> bool" where
  "sched_invar inner = (\<lambda>(s, r). inner r)"

definition sched_held :: "('r \<Rightarrow> int) \<Rightarrow> ScheduledStartingRateLimiter \<times> 'r \<Rightarrow> int" where
  "sched_held inner = (\<lambda>(s, r). inner r)"

definition sched_may_release ::
    "(clock \<Rightarrow> 'r \<Rightarrow> bool) \<Rightarrow> clock \<Rightarrow> ScheduledStartingRateLimiter \<times> 'r \<Rightarrow> bool" where
  "sched_may_release inner c = (\<lambda>(s, r). scheduled_starting_time s \<le> monotonicTime c \<and> inner c r)"

definition sched_pending ::
    "(clock \<Rightarrow> 'r \<Rightarrow> nat) \<Rightarrow> clock \<Rightarrow> ScheduledStartingRateLimiter \<times> 'r \<Rightarrow> nat" where
  "sched_pending inner c = (\<lambda>(s, r). inner c r)"

definition sched_opens :: "('r \<Rightarrow> int) \<Rightarrow> ScheduledStartingRateLimiter \<times> 'r \<Rightarrow> int" where
  "sched_opens inner = (\<lambda>(s, r). max (scheduled_starting_time s) (inner r))"

lemmas sched_defs = sched_invar_def sched_held_def sched_may_release_def sched_pending_def
  sched_opens_def ScheduledStartingRateLimiter_tryAcquireOne_def
  ScheduledStartingRateLimiter_releaseOne_def

locale scheduled_limiter = rate_limiter

sublocale scheduled_limiter \<subseteq> sched: rate_limiter
  "ScheduledStartingRateLimiter_tryAcquireOne acquire" "ScheduledStartingRateLimiter_releaseOne release"
  "sched_invar invar" "sched_held held" "sched_may_release may_release" "sched_pending pending"
proof (unfold_locales, goal_cases)
  case (1 c sr got sr')
  obtain s r where sr: "sr = (s, r)" by fastforce
  with 1 show ?case
    using acquire_law [of c r]
    by (cases "acquire c r") (auto simp: sched_defs Let_def split: if_splits)
next
  case (2 c sr)
  obtain s r where sr: "sr = (s, r)" by fastforce
  with 2 show ?case
    using release_law [of c r] by (auto simp: sched_defs)
qed

locale scheduled_exact_limiter = exact_rate_limiter

sublocale scheduled_exact_limiter \<subseteq> scheduled_limiter ..

sublocale scheduled_exact_limiter \<subseteq> sched: exact_rate_limiter
  "ScheduledStartingRateLimiter_tryAcquireOne acquire" "ScheduledStartingRateLimiter_releaseOne release"
  "sched_invar invar" "sched_held held" "sched_may_release may_release" "sched_pending pending"
proof (unfold_locales, goal_cases)
  case (1 c sr got sr')
  obtain s r where sr: "sr = (s, r)" by fastforce
  with 1 show ?case
    using held_law [of c r]
    by (cases "acquire c r") (auto simp: sched_defs Let_def split: if_splits)
qed

locale scheduled_late_limiter = late_release_limiter

sublocale scheduled_late_limiter \<subseteq> scheduled_exact_limiter ..

sublocale scheduled_late_limiter \<subseteq> sched: late_release_limiter
  "ScheduledStartingRateLimiter_tryAcquireOne acquire" "ScheduledStartingRateLimiter_releaseOne release"
  "sched_invar invar" "sched_held held" "sched_may_release may_release" "sched_pending pending"
  "sched_opens opens"
proof (unfold_locales, goal_cases)
  case (1 c sr got sr')
  then show ?case
    using opens_acquire [of c "snd sr"]
    by (cases sr; cases "acquire c (snd sr)") (auto simp: sched_defs Let_def split: if_splits)
next
  case (2 c sr sr')
  then show ?case
    using opens_release [of c "snd sr"]
    by (cases sr; cases "release c (snd sr)") (auto simp: sched_defs split: if_splits)
next
  case (3 c sr sr')
  then show ?case
    using acquire_opens [of c "snd sr"]
    by (cases sr; cases "acquire c (snd sr)") (auto simp: sched_defs Let_def split: if_splits)
next
  case (4 c sr)
  then show ?case
    using late_release [of c "snd sr"] by (cases sr) (auto simp: sched_defs)
qed

section \<open>Delayed release\<close>

lemma set_upper_bound_insert [simp]: "set (upper_bound_insert x xs) = insert x (set xs)"
proof -
  have "set (takeWhile P xs) \<union> set (dropWhile P xs) = set xs" for P
    by (metis set_append takeWhile_dropWhile_id)
  then show ?thesis unfolding upper_bound_insert_def by auto
qed

lemma length_upper_bound_insert [simp]: "length (upper_bound_insert x xs) = Suc (length xs)"
  unfolding upper_bound_insert_def
  by simp (metis length_append takeWhile_dropWhile_id)

lemma sorted_upper_bound_insert: "sorted xs \<Longrightarrow> sorted (upper_bound_insert x xs)"
  unfolding upper_bound_insert_def
  by (induction xs) (auto simp: order_trans dest: set_takeWhileD set_dropWhileD)

lemma add_offset_exact:
  assumes "0 \<le> now" "now < 2 ^ 58" "unat offset < 2 ^ 62"
  shows "add_offset now offset = now + int (unat offset)"
proof -
  have range: "- (2 ^ 63) \<le> now + int k \<and> now + int k < 2 ^ 63" if "k < 2 ^ 62" for k
    using assms(1,2) that by simp
  have "word_of_int now + offset = (word_of_int (now + int (unat offset)) :: i64)"
    by simp
  moreover have "sint (word_of_int (now + int (unat offset)) :: i64) = now + int (unat offset)"
    by (rule sint_of_int_64) (use range [OF assms(3)] in blast)+
  ultimately show ?thesis unfolding add_offset_def by simp
qed

definition deleg_invar ::
    "('g \<Rightarrow> bool) \<Rightarrow> ('r \<Rightarrow> bool) \<Rightarrow> ('r \<Rightarrow> int) \<Rightarrow> ('r \<Rightarrow> int)
      \<Rightarrow> 'g DelegatingRateLimiter \<times> 'r \<Rightarrow> bool" where
  "deleg_invar gen_ok invar held opens = (\<lambda>(s, r). gen_ok (generator s) \<and> invar r \<and> sorted (distributed_timings s)
     \<and> (\<forall>t \<in> set (distributed_timings s). opens r \<le> t)
     \<and> int (length (distributed_timings s)) \<le> held r)"

definition deleg_held :: "('r \<Rightarrow> int) \<Rightarrow> 'g DelegatingRateLimiter \<times> 'r \<Rightarrow> int" where
  "deleg_held held = (\<lambda>(s, r). held r - int (length (distributed_timings s)))"

definition deleg_may_release ::
    "('r \<Rightarrow> int) \<Rightarrow> ('r \<Rightarrow> int) \<Rightarrow> clock \<Rightarrow> 'g DelegatingRateLimiter \<times> 'r \<Rightarrow> bool" where
  "deleg_may_release held opens c = (\<lambda>(s, r). \<not> sanity_check_pending_release s
     \<and> opens r \<le> monotonicTime c \<and> int (length (distributed_timings s)) < held r)"

definition deleg_pending ::
    "(clock \<Rightarrow> 'r \<Rightarrow> nat) \<Rightarrow> clock \<Rightarrow> 'g DelegatingRateLimiter \<times> 'r \<Rightarrow> nat" where
  "deleg_pending pending c = (\<lambda>(s, r). pending c r + length (distributed_timings s))"

lemmas deleg_defs = deleg_invar_def deleg_held_def deleg_may_release_def deleg_pending_def

text \<open>
  The attempt in two stages: forward and record, then hand out the front timing when it is due.
\<close>

definition deleg_record ::
    "('g \<Rightarrow> u64 \<times> 'g) \<Rightarrow> int \<Rightarrow> bool \<Rightarrow> 'g DelegatingRateLimiter \<Rightarrow> 'g DelegatingRateLimiter" where
  "deleg_record delegate now got s =
     (if got
      then (case delegate (generator s) of (offset, g) \<Rightarrow>
              s\<lparr>distributed_timings := upper_bound_insert (add_offset now offset) (distributed_timings s),
                generator := g\<rparr>)
      else s)"

definition deleg_pop :: "int \<Rightarrow> 'g DelegatingRateLimiter \<Rightarrow> bool \<times> 'g DelegatingRateLimiter" where
  "deleg_pop now s =
     (case distributed_timings s of
        t # ts \<Rightarrow> if t \<le> now
          then (True, s\<lparr>distributed_timings := ts, sanity_check_pending_release := False\<rparr>)
          else (False, s)
      | [] \<Rightarrow> (False, s))"

lemma deleg_acquire_stages:
  "DelegatingRateLimiter_tryAcquireOne delegate inner_try c (s, r) =
     (case inner_try c r of (got, r') \<Rightarrow>
        (case deleg_pop (monotonicTime c) (deleg_record delegate (monotonicTime c) got s) of
           (res, s') \<Rightarrow> (res, (s', r'))))"
  by (auto simp: DelegatingRateLimiter_tryAcquireOne_def deleg_pop_def deleg_record_def Let_def
      split: prod.splits list.splits)

locale delegating_limiter = late_release_limiter +
  fixes delegate :: "'g \<Rightarrow> u64 \<times> 'g"
    and gen_ok :: "'g \<Rightarrow> bool"
  assumes offset_bound: "gen_ok g \<Longrightarrow> delegate g = (offset, g') \<Longrightarrow> unat offset < 2 ^ 62 \<and> gen_ok g'"

context delegating_limiter
begin

lemma deleg_record_facts:
  assumes "clock_ok c" "invar r" "acquire c r = (got, r')" "gen_ok (generator s)"
    and "sorted (distributed_timings s)" "\<forall>t \<in> set (distributed_timings s). opens r \<le> t"
  shows "gen_ok (generator (deleg_record delegate (monotonicTime c) got s))
    \<and> sorted (distributed_timings (deleg_record delegate (monotonicTime c) got s))
    \<and> (\<forall>t \<in> set (distributed_timings (deleg_record delegate (monotonicTime c) got s)). opens r' \<le> t)
    \<and> length (distributed_timings (deleg_record delegate (monotonicTime c) got s))
       = length (distributed_timings s) + (if got then 1 else 0)"
proof (cases got)
  case True
  obtain offset g where d: "delegate (generator s) = (offset, g)" by fastforce
  have "add_offset (monotonicTime c) offset = monotonicTime c + int (unat offset)"
    using assms(1) offset_bound [OF assms(4) d] by (intro add_offset_exact) (simp_all add: clock_ok_def)
  then have "monotonicTime c \<le> add_offset (monotonicTime c) offset" by linarith
  moreover have "opens r \<le> monotonicTime c" "opens r' = opens r"
    using acquire_opens [OF assms(1,2)] opens_acquire assms(3) True by auto
  ultimately show ?thesis
    using assms(5,6) True d offset_bound [OF assms(4) d] by (auto simp: deleg_record_def intro: sorted_upper_bound_insert)
next
  case False
  then show ?thesis using assms opens_acquire [OF assms(3)] by (simp add: deleg_record_def)
qed

lemma deleg_acquire:
  assumes c: "clock_ok c" and inv: "deleg_invar gen_ok invar held opens sr"
    and run: "DelegatingRateLimiter_tryAcquireOne delegate acquire c sr = (res, sr')"
  shows "deleg_invar gen_ok invar held opens sr'
    \<and> deleg_held held sr' = deleg_held held sr + (if res then 1 else 0)
    \<and> (res \<longrightarrow> deleg_may_release held opens c sr')
    \<and> deleg_pending pending c sr' + (if res then 1 else 0) \<le> deleg_pending pending c sr"
proof -
  obtain s r where sr: "sr = (s, r)" by fastforce
  obtain got r' where got: "acquire c r = (got, r')" by fastforce
  define S where "S = deleg_record delegate (monotonicTime c) got s"
  have inv': "invar r" "sorted (distributed_timings s)" "\<forall>t \<in> set (distributed_timings s). opens r \<le> t"
    "int (length (distributed_timings s)) \<le> held r" "gen_ok (generator s)"
    using inv by (auto simp: sr deleg_invar_def)
  note inner = acquire_law [OF c inv'(1) got] held_law [OF c inv'(1) got]
  note rec = deleg_record_facts [OF c inv'(1) got inv'(5,2,3), folded S_def]
  obtain s' where s': "deleg_pop (monotonicTime c) S = (res, s')" "sr' = (s', r')"
    using run by (auto simp: sr deleg_acquire_stages got S_def split: prod.splits)
  show ?thesis
  proof (cases res)
    case True
    then obtain t ts where t: "distributed_timings S = t # ts" "t \<le> monotonicTime c"
        "distributed_timings s' = ts" "\<not> sanity_check_pending_release s'" "generator s' = generator S"
      using s'(1) by (auto simp: deleg_pop_def split: list.splits if_splits)
    have "opens r' \<le> monotonicTime c" using rec t by auto
    then show ?thesis using inner rec t True inv'(4) by (cases got) (auto simp: deleg_defs sr s'(2))
  next
    case False
    then have "s' = S" using s'(1) by (auto simp: deleg_pop_def split: list.splits if_splits)
    then show ?thesis using inner rec False inv'(4) by (cases got) (auto simp: deleg_defs sr s'(2))
  qed
qed

lemma deleg_release:
  assumes "clock_ok c" "deleg_invar gen_ok invar held opens sr" "deleg_may_release held opens c sr"
  shows "\<exists>sr'. DelegatingRateLimiter_releaseOne release c sr = Inr sr'
    \<and> deleg_invar gen_ok invar held opens sr' \<and> deleg_held held sr' = deleg_held held sr - 1
    \<and> deleg_pending pending c sr' \<le> Suc (deleg_pending pending c sr)"
proof -
  obtain s r where sr: "sr = (s, r)" by fastforce
  have "invar r" "0 < held r" "opens r \<le> monotonicTime c"
    using assms by (auto simp: sr deleg_defs)
  then obtain r' where r': "release c r = Inr r'" "invar r'" "held r' = held r - 1"
      "pending c r' \<le> Suc (pending c r)"
    using release_law [OF assms(1)] late_release [OF assms(1)] by blast
  then show ?thesis
    using assms(2,3) opens_release [OF r'(1)]
    by (auto simp: sr deleg_defs DelegatingRateLimiter_releaseOne_def)
qed

end

sublocale delegating_limiter \<subseteq> deleg: exact_rate_limiter
  "DelegatingRateLimiter_tryAcquireOne delegate acquire" "DelegatingRateLimiter_releaseOne release"
  "deleg_invar gen_ok invar held opens" "deleg_held held" "deleg_may_release held opens" "deleg_pending pending"
proof (unfold_locales, goal_cases)
  case (1 c s got s')
  then show ?case using deleg_acquire [of c s got s'] by auto
next
  case (2 c s)
  then show ?case by (intro deleg_release)
next
  case (3 c s got s')
  then show ?case using deleg_acquire [of c s got s'] by auto
qed

section \<open>Filtering\<close>

text \<open>
  A filter may read the elapsed time of the limiter it guards but acquires and releases nothing.
  An acquisition it turns down stays acquired in the inner limiter.
\<close>

definition filter_invar :: "('r \<Rightarrow> bool) \<Rightarrow> 'f \<times> 'r \<Rightarrow> bool" where
  "filter_invar inner = (\<lambda>(f, r). inner r)"

definition filter_held :: "('r \<Rightarrow> int) \<Rightarrow> 'f \<times> 'r \<Rightarrow> int" where
  "filter_held inner = (\<lambda>(f, r). inner r)"

definition filter_may_release :: "(clock \<Rightarrow> 'r \<Rightarrow> bool) \<Rightarrow> clock \<Rightarrow> 'f \<times> 'r \<Rightarrow> bool" where
  "filter_may_release inner c = (\<lambda>(f, r). inner c r)"

definition filter_pending :: "(clock \<Rightarrow> 'r \<Rightarrow> nat) \<Rightarrow> clock \<Rightarrow> 'f \<times> 'r \<Rightarrow> nat" where
  "filter_pending inner c = (\<lambda>(f, r). inner c r)"

lemmas filter_defs = filter_invar_def filter_held_def filter_may_release_def filter_pending_def
  FilteringRateLimiter_tryAcquireOne_def FilteringRateLimiter_releaseOne_def

locale filtering_limiter = rate_limiter +
  fixes filter_fn :: "clock \<Rightarrow> 'f \<times> 's \<Rightarrow> bool \<times> ('f \<times> 's)"
  assumes filter_keeps: "clock_ok c \<Longrightarrow> invar r \<Longrightarrow> filter_fn c (f, r) = (res, (f', r'))
    \<Longrightarrow> invar r' \<and> held r' = held r \<and> pending c r' = pending c r
      \<and> (may_release c r \<longrightarrow> may_release c r')"

sublocale filtering_limiter \<subseteq> filtered: rate_limiter
  "FilteringRateLimiter_tryAcquireOne filter_fn acquire" "FilteringRateLimiter_releaseOne release"
  "filter_invar invar" "filter_held held" "filter_may_release may_release" "filter_pending pending"
proof (unfold_locales, goal_cases)
  case (1 c fr res fr')
  obtain f r f' r' where fr: "fr = (f, r)" "fr' = (f', r')" by fastforce
  obtain got r1 where got: "acquire c r = (got, r1)" by fastforce
  have law: "invar r1 \<and> held r + (if got then 1 else 0) \<le> held r1 \<and> (got \<longrightarrow> may_release c r1)
      \<and> pending c r1 + (if got then 1 else 0) \<le> pending c r"
    using acquire_law [OF 1(1) _ got] 1(2) by (simp add: fr filter_invar_def)
  show ?case
  proof (cases got)
    case True
    then have "filter_fn c (f, r1) = (res, (f', r'))"
      using 1(3) by (simp add: fr got FilteringRateLimiter_tryAcquireOne_def)
    then show ?thesis using law filter_keeps [OF 1(1)] True by (auto simp: fr filter_defs)
  next
    case False
    then show ?thesis using law 1(3) by (auto simp: fr got filter_defs)
  qed
next
  case (2 c fr)
  obtain f r where fr: "fr = (f, r)" by fastforce
  with 2 show ?case using release_law [of c r] by (auto simp: filter_defs)
qed

section \<open>The stacks of the sequencer factory\<close>

interpretation scheduled_linear: scheduled_late_limiter
  LinearRateLimiter_tryAcquireOne LinearRateLimiter_releaseOne linear_invar linear_held
  linear_may_release linear_pending "\<lambda>_. 0" ..

interpretation burst_scheduled_linear: bursting_exact_limiter
  "ScheduledStartingRateLimiter_tryAcquireOne LinearRateLimiter_tryAcquireOne"
  "ScheduledStartingRateLimiter_releaseOne LinearRateLimiter_releaseOne"
  "sched_invar linear_invar" "sched_held linear_held" "sched_may_release linear_may_release"
  "sched_pending linear_pending" ..

text \<open>
  The uniform jitter sampler draws from \<open>[0, upper_bound]\<close>. Its engine is an arbitrary stream of
  numbers, clamped to the bound: ranging over all streams ranges over all sequences of values the
  distribution can produce.
\<close>

record UniformRandomDistributionSampler =
  upper_bound :: u64
  engine :: "nat \<Rightarrow> u64"
  drawn :: nat

definition UniformRandomDistributionSampler_getValue ::
    "UniformRandomDistributionSampler \<Rightarrow> u64 \<times> UniformRandomDistributionSampler" where
  "UniformRandomDistributionSampler_getValue g =
     (min (engine g (drawn g)) (upper_bound g), g\<lparr>drawn := drawn g + 1\<rparr>)"

definition jitter_ok :: "UniformRandomDistributionSampler \<Rightarrow> bool" where
  "jitter_ok g \<longleftrightarrow> unat (upper_bound g) < 2 ^ 62"

lemma getValue_bound:
  "jitter_ok g \<Longrightarrow> UniformRandomDistributionSampler_getValue g = (offset, g')
   \<Longrightarrow> unat offset < 2 ^ 62 \<and> jitter_ok g'"
  by (auto simp: jitter_ok_def UniformRandomDistributionSampler_getValue_def min_def word_le_nat_alt
      split: if_splits)

interpretation jitter_scheduled_linear: delegating_limiter
  "ScheduledStartingRateLimiter_tryAcquireOne LinearRateLimiter_tryAcquireOne"
  "ScheduledStartingRateLimiter_releaseOne LinearRateLimiter_releaseOne"
  "sched_invar linear_invar" "sched_held linear_held" "sched_may_release linear_may_release"
  "sched_pending linear_pending" "sched_opens (\<lambda>_. 0)"
  UniformRandomDistributionSampler_getValue jitter_ok
  by unfold_locales (rule getValue_bound)

text \<open>The two filters, on the linear limiter.\<close>

definition LinearRateLimiter_elapsed :: "clock \<Rightarrow> LinearRateLimiter \<Rightarrow> int \<times> LinearRateLimiter" where
  "LinearRateLimiter_elapsed c s =
     (case RateLimiterBase_elapsed c (lin_base s) of (e, b) \<Rightarrow> (e, s\<lparr>lin_base := b\<rparr>))"

lemma linear_elapsed_keeps:
  assumes "clock_ok c" "linear_invar r" "LinearRateLimiter_elapsed c r = (e, r')"
  shows "linear_invar r' \<and> linear_held r' = linear_held r \<and> linear_pending c r' = linear_pending c r"
proof -
  have b: "base_ok (lin_base r)" using assms(2) by (simp add: linear_invar_def)
  have r': "r' = r\<lparr>lin_base := snd (RateLimiterBase_elapsed c (lin_base r))\<rparr>"
    using assms(3) by (auto simp: LinearRateLimiter_elapsed_def split: prod.splits)
  have "linear_due c r' = linear_due c r"
    using assms(1) b by (intro linear_due_cong) (auto simp: r')
  then show ?thesis
    using assms(2) base_ok_elapsed(1) [OF assms(1) b]
    by (simp add: r' linear_invar_def linear_held_def linear_pending_def)
qed

interpretation zipf_linear: filtering_limiter
  LinearRateLimiter_tryAcquireOne LinearRateLimiter_releaseOne linear_invar linear_held
  linear_may_release linear_pending "zipf_filter sample"
  by unfold_locales (auto simp: zipf_filter_def split: prod.splits)

interpretation opening_linear: filtering_limiter
  LinearRateLimiter_tryAcquireOne LinearRateLimiter_releaseOne linear_invar linear_held
  linear_may_release linear_pending "gradually_opening_filter getValue LinearRateLimiter_elapsed"
  by unfold_locales
    (auto simp: gradually_opening_filter_def Let_def linear_may_release_def
      dest: linear_elapsed_keeps split: prod.splits if_splits)

section \<open>Properties of the wrapped limiters\<close>

text \<open>A sequence of attempts at the given clock readings.\<close>

primrec run_attempts :: "(clock \<Rightarrow> 's \<Rightarrow> bool \<times> 's) \<Rightarrow> clock list \<Rightarrow> 's \<Rightarrow> bool list \<times> 's" where
  "run_attempts try_one [] s = ([], s)"
| "run_attempts try_one (c # cs) s =
     (case try_one c s of (got, s') \<Rightarrow>
        (case run_attempts try_one cs s' of (gots, s'') \<Rightarrow> (got # gots, s'')))"

lemma burst_accumulate_full:
  "burst_accumulate inner n acc r = (True, acc', r') \<Longrightarrow> uint acc < uint n \<Longrightarrow> acc' = n"
proof (induction inner n acc r rule: burst_accumulate.induct)
  case (1 inner n acc r)
  obtain ok r1 where r1: "inner r = (ok, r1)" by fastforce
  note unroll = 1(2) [unfolded burst_accumulate.simps [of inner n acc r] r1]
  have ok: "ok" using unroll by (cases ok) auto
  have up: "uint (acc + 1) = uint acc + 1"
    using 1(3) uint_bounded [of n] by (intro uint_plus_one) simp
  then have le: "uint (acc + 1) \<le> uint n" using 1(3) by linarith
  show ?case
  proof (cases "(acc + 1) mod n = 0")
    case True
    have "uint (acc + 1) \<noteq> 0" using up uint_ge_0 [of acc] by linarith
    then have "acc + 1 = n" using word_mod_full [OF True le] by (metis unsigned_0)
    then show ?thesis using unroll ok True by simp
  next
    case False
    then show ?thesis using 1(1) [OF r1 [symmetric]] unroll ok word_mod_part [OF False le] by simp
  qed
qed

lemma run_attempts_drain:
  assumes "int (length cs) = burst_count s" "releasing s \<longleftrightarrow> 0 < burst_count s"
  shows "\<exists>t. run_attempts (BurstingRateLimiter_tryAcquireOne inner) cs (s, r)
      = (replicate (length cs) True, (t, r)) \<and> accumulated t = 0 \<and> \<not> releasing t"
  using assms
proof (induction cs arbitrary: s)
  case Nil
  then show ?case by (simp add: burst_count_def uint_0_iff)
next
  case (Cons c cs)
  have pos: "0 < burst_count s" using Cons(2) by simp
  note d = burst_drain_facts [OF pos]
  have "BurstingRateLimiter_tryAcquireOne inner c (s, r) = (True, (burst_drain s, r))"
    using Cons(3) pos by (simp add: BurstingRateLimiter_tryAcquireOne_def)
  moreover have "int (length cs) = burst_count (burst_drain s)"
    and "releasing (burst_drain s) \<longleftrightarrow> 0 < burst_count (burst_drain s)"
    using Cons(2) d by simp_all
  ultimately show ?case using Cons(1) [of "burst_drain s"] by auto
qed

text \<open>
  C9. Bursts are released whole: when an attempt on an accumulating bursting limiter succeeds, the
  next \<open>burst_size - 1\<close> attempts succeed too, at whatever clock readings and without consulting the
  wrapped limiter, and the limiter is then accumulating again from zero.
\<close>

theorem burst_released_whole:
  assumes "\<not> releasing s" "accumulated s < burst_size s"
    and "BurstingRateLimiter_tryAcquireOne inner c (s, r) = (True, (s', r'))"
    and "length cs + 1 = unat (burst_size s)"
  shows "\<exists>t. run_attempts (BurstingRateLimiter_tryAcquireOne inner) cs (s', r')
      = (replicate (length cs) True, (t, r')) \<and> accumulated t = 0 \<and> \<not> releasing t"
proof -
  obtain got acc r2 where acc:
      "burst_accumulate (inner c) (burst_size s) (accumulated s) r = (got, acc, r2)"
    using prod_cases3 by blast
  have got: "got" using assms(1,3) acc by (cases got) (simp_all add: BurstingRateLimiter_tryAcquireOne_def)
  then have s': "s' = burst_drain (s\<lparr>accumulated := acc, releasing := True\<rparr>)" and r': "r' = r2"
    using assms(1,3) acc by (simp_all add: BurstingRateLimiter_tryAcquireOne_def)
  have full: "acc = burst_size s"
    using burst_accumulate_full [of "inner c" "burst_size s"] acc got assms(2) by (simp add: word_less_def)
  let ?s = "s\<lparr>accumulated := acc, releasing := True\<rparr>"
  have n: "burst_count ?s = int (length cs) + 1"
    using arg_cong [OF assms(4), of int] full by (simp add: burst_count_def)
  then have "0 < burst_count ?s" by simp
  from burst_drain_facts [OF this] n show ?thesis
    unfolding s' by (intro run_attempts_drain) simp_all
qed

theorem burst_released_whole_witness:
  "\<exists>s' t. BurstingRateLimiter_tryAcquireOne (\<lambda>c r. (True, Suc r)) (clock_at 0)
        (new_BurstingRateLimiter 2, 0) = (True, (s', 2))
     \<and> run_attempts (BurstingRateLimiter_tryAcquireOne (\<lambda>c r. (True, Suc r))) [clock_at 5] (s', 2)
        = ([True], (t, 2)) \<and> accumulated t = 0 \<and> \<not> releasing t"
proof -
  let ?attempt = "BurstingRateLimiter_tryAcquireOne (\<lambda>c r. (True, Suc r))"
  let ?s' = "burst_drain \<lparr>burst_size = 2, accumulated = 2, releasing = True, previously_releasing = None\<rparr>"
  have step: "?attempt (clock_at 0) (new_BurstingRateLimiter 2, 0) = (True, (?s', 2))"
    by (simp add: BurstingRateLimiter_tryAcquireOne_def new_BurstingRateLimiter_def
        burst_accumulate.simps numeral_2_eq_2)
  have "\<exists>t. run_attempts ?attempt [clock_at 5] (?s', 2)
      = (replicate (length [clock_at 5]) True, (t, 2)) \<and> accumulated t = 0 \<and> \<not> releasing t"
    by (rule burst_released_whole [OF _ _ step]) (simp_all add: new_BurstingRateLimiter_def)
  with step show ?thesis by (auto simp: numeral_2_eq_2)
qed

text \<open>
  With uniform jitter on the scheduled linear limiter, returning an acquisition that was just
  handed out always succeeds: neither the release assertion of the delegating limiter nor the
  exception of the scheduled one fires, and the number of acquisitions outstanding is as before.
\<close>

theorem jitter_release_succeeds:
  assumes "clock_ok c" "deleg_invar jitter_ok (sched_invar linear_invar) (sched_held linear_held)
      (sched_opens (\<lambda>_. 0)) sr"
    and "DelegatingRateLimiter_tryAcquireOne UniformRandomDistributionSampler_getValue
      (ScheduledStartingRateLimiter_tryAcquireOne LinearRateLimiter_tryAcquireOne) c sr = (True, sr')"
  shows "\<exists>sr''. DelegatingRateLimiter_releaseOne
        (ScheduledStartingRateLimiter_releaseOne LinearRateLimiter_releaseOne) c sr' = Inr sr''
      \<and> deleg_invar jitter_ok (sched_invar linear_invar) (sched_held linear_held) (sched_opens (\<lambda>_. 0)) sr''
      \<and> deleg_held (sched_held linear_held) sr'' = deleg_held (sched_held linear_held) sr"
  by (rule jitter_scheduled_linear.deleg.acquire_release_balanced [OF assms])

theorem jitter_release_succeeds_witness:
  "\<exists>sr' sr''. DelegatingRateLimiter_tryAcquireOne UniformRandomDistributionSampler_getValue
      (ScheduledStartingRateLimiter_tryAcquireOne LinearRateLimiter_tryAcquireOne) (clock_at 500000000)
      (new_DelegatingRateLimiter \<lparr>upper_bound = 0, engine = (\<lambda>_. 7), drawn = 0\<rparr>,
       (new_ScheduledStartingRateLimiter 0, linear_polled [0])) = (True, sr')
    \<and> DelegatingRateLimiter_releaseOne
        (ScheduledStartingRateLimiter_releaseOne LinearRateLimiter_releaseOne) (clock_at 500000000) sr' = Inr sr''
    \<and> deleg_held (sched_held linear_held) sr'' = 0"
proof -
  let ?sr = "(new_DelegatingRateLimiter \<lparr>upper_bound = 0, engine = (\<lambda>_. 7), drawn = 0\<rparr>,
       (new_ScheduledStartingRateLimiter 0, linear_polled [0]))"
  have inv: "linear_invar (linear_polled [0])" "linear_held (linear_polled [0]) = 0"
    by (simp_all add: linear_invar_def linear_held_def linear_polled_1hz base_ok_def make_Frequency_def)
  have ok: "clock_ok (clock_at 500000000)" by (simp add: clock_ok_def clock_at_def)
  have sr: "deleg_invar jitter_ok (sched_invar linear_invar) (sched_held linear_held) (sched_opens (\<lambda>_. 0)) ?sr"
    and held: "deleg_held (sched_held linear_held) ?sr = 0"
    using inv by (simp_all add: deleg_invar_def deleg_held_def sched_invar_def sched_held_def jitter_ok_def
        new_DelegatingRateLimiter_def)
  have "fst (LinearRateLimiter_tryAcquireOne (clock_at 500000000) (linear_polled [0]))"
    by (simp add: linear_polled_1hz LinearRateLimiter_tryAcquireOne_def RateLimiterBase_elapsed_def
        clock_at_def phase_shifted_count_1hz LinearRateLimiter_take_def)
  then have "\<exists>sr'. DelegatingRateLimiter_tryAcquireOne UniformRandomDistributionSampler_getValue
      (ScheduledStartingRateLimiter_tryAcquireOne LinearRateLimiter_tryAcquireOne) (clock_at 500000000)
      ?sr = (True, sr')"
    by (auto simp: DelegatingRateLimiter_tryAcquireOne_def new_DelegatingRateLimiter_def Let_def clock_at_def
        new_ScheduledStartingRateLimiter_def ScheduledStartingRateLimiter_tryAcquireOne_def
        UniformRandomDistributionSampler_getValue_def upper_bound_insert_def add_offset_def
        split: prod.splits)
  then obtain sr' where step: "DelegatingRateLimiter_tryAcquireOne UniformRandomDistributionSampler_getValue
      (ScheduledStartingRateLimiter_tryAcquireOne LinearRateLimiter_tryAcquireOne) (clock_at 500000000)
      ?sr = (True, sr')" by blast
  show ?thesis using jitter_release_succeeds [OF ok sr step] step held by metis
qed

end
