(* ===== verification/Sequencer.thy ===== *)
theory Sequencer
  imports TerminationPredicate LimiterStack Statistic
begin

text \<open>
  The sequencer of \<^verbatim>\<open>source/common/sequencer_impl.{h,cc}\<close>: it starts requests at the pace of its
  rate limiter until a termination predicate trips.

  The state holds the fields of \<^verbatim>\<open>SequencerImpl\<close>, the rate limiter, the state of the target and
  the cached clock reading that the limiter and the predicates see. The two statistics are the
  lists of the values added to them; a timer is deleted, disabled or armed with a delay in
  nanoseconds. The target reports whether it could start the request and the readings at which it
  called the completion callback before returning; later completions are separate events.
\<close>

section \<open>State and collaborators\<close>

datatype timer = Deleted | Disabled | Armed int

datatype idle_strategy = DEFAULT_IDLE | SPIN | POLL | SLEEP

record ('r, 'w) Sequencer =
  targets_initiated :: u64
  targets_completed :: u64
  running :: bool
  blocked :: bool
  blocked_start :: int
  last_termination_status :: termination_status
  periodic_timer :: timer
  spin_timer :: timer
  failed_terminations :: nat
  latency_statistic :: "u64 list"
  blocked_statistic :: "u64 list"
  dispatcher_exit :: bool
  cached_time :: clock
  limiter :: 'r
  target_state :: 'w

record ('r, 'w) sequencer_deps =
  try_acquire :: "clock \<Rightarrow> 'r \<Rightarrow> bool \<times> 'r"
  release_one :: "clock \<Rightarrow> 'r \<Rightarrow> failure + 'r"
  limiter_elapsed :: "clock \<Rightarrow> 'r \<Rightarrow> int \<times> 'r"
  target :: "clock \<Rightarrow> 'w \<Rightarrow> bool \<times> clock list \<times> 'w"
  stat_counters :: "'w \<Rightarrow> counters"
  predicates :: "predicate list"
  idle :: idle_strategy

definition NighthawkTimerResolution :: int where
  "NighthawkTimerResolution = 25000"

definition new_Sequencer :: "clock \<Rightarrow> 'r \<Rightarrow> 'w \<Rightarrow> ('r, 'w) Sequencer" where
  "new_Sequencer c r w =
     \<lparr>targets_initiated = 0, targets_completed = 0, running = False, blocked = False, blocked_start = 0,
      last_termination_status = PROCEED, periodic_timer = Disabled, spin_timer = Disabled,
      failed_terminations = 0, latency_statistic = [], blocked_statistic = [], dispatcher_exit = False,
      cached_time = c, limiter = r, target_state = w\<rparr>"

section \<open>Operations\<close>

definition unblockAndUpdateStatisticIfNeeded :: "int \<Rightarrow> ('r, 'w) Sequencer \<Rightarrow> ('r, 'w) Sequencer" where
  "unblockAndUpdateStatisticIfNeeded now s =
     (if blocked s
      then s\<lparr>blocked := False, blocked_statistic := blocked_statistic s @ [word_of_int (now - blocked_start s)]\<rparr>
      else s)"

definition updateStartBlockingTimeIfNeeded :: "('r, 'w) Sequencer \<Rightarrow> ('r, 'w) Sequencer" where
  "updateStartBlockingTimeIfNeeded s =
     (if blocked s then s
      else s\<lparr>blocked := True, blocked_start := monotonicTime (cached_time s)\<rparr>)"

definition scheduleRun :: "('r, 'w) Sequencer \<Rightarrow> ('r, 'w) Sequencer" where
  "scheduleRun s = s\<lparr>periodic_timer := Armed NighthawkTimerResolution\<rparr>"

definition executionDuration ::
    "('r, 'w) sequencer_deps \<Rightarrow> ('r, 'w) Sequencer \<Rightarrow> int \<times> ('r, 'w) Sequencer" where
  "executionDuration D s =
     (case limiter_elapsed D (cached_time s) (limiter s) of (e, r) \<Rightarrow> (e, s\<lparr>limiter := r\<rparr>))"

definition completionsPerSecond ::
    "('r, 'w) sequencer_deps \<Rightarrow> ('r, 'w) Sequencer \<Rightarrow> double \<times> ('r, 'w) Sequencer" where
  "completionsPerSecond D s =
     (let (e, s') = executionDuration D s;
          us = (if e < 0 then - (- e div 1000) else e div 1000);
          usec = double_of_int us
      in (if us = 0 then 0 else double_of_u64 (targets_completed s') / usec * Fin 1000000, s'))"

definition Sequencer_stop ::
    "('r, 'w) sequencer_deps \<Rightarrow> bool \<Rightarrow> ('r, 'w) Sequencer \<Rightarrow> ('r, 'w) Sequencer" where
  "Sequencer_stop D failed s =
     (let (rate, s) = completionsPerSecond D s;
          s = (if failed then s\<lparr>failed_terminations := failed_terminations s + 1\<rparr> else s);
          s = s\<lparr>running := False, periodic_timer := Deleted, spin_timer := Deleted, dispatcher_exit := True\<rparr>;
          s = unblockAndUpdateStatisticIfNeeded (monotonicTime (cached_time s)) s
      in snd (executionDuration D s))"

text \<open>The completion callback of a request that was started when the clock read \<open>now\<close>.\<close>

definition completion_callback :: "int \<Rightarrow> clock \<Rightarrow> ('r, 'w) Sequencer \<Rightarrow> ('r, 'w) Sequencer" where
  "completion_callback now c s =
     (let s = s\<lparr>cached_time := c, latency_statistic := latency_statistic s @ [word_of_int (monotonicTime c - now)],
                targets_completed := targets_completed s + 1\<rparr>
      in if running s then s\<lparr>spin_timer := Armed 0\<rparr> else s)"

text \<open>
  The loop of \<^verbatim>\<open>run()\<close>: acquire, call the target, and either go on or give the acquisition back and
  leave. \<open>None\<close> stands for a loop that never leaves.
\<close>

definition call_target ::
    "('r, 'w) sequencer_deps \<Rightarrow> int \<Rightarrow> ('r, 'w) Sequencer \<Rightarrow> bool \<times> ('r, 'w) Sequencer" where
  "call_target D now s =
     (case target D (cached_time s) (target_state s) of (could_start, completions, w) \<Rightarrow>
        (could_start, fold (completion_callback now) completions (s\<lparr>target_state := w\<rparr>)))"

partial_function (option) run_loop ::
    "('r, 'w) sequencer_deps \<Rightarrow> int \<Rightarrow> ('r, 'w) Sequencer \<Rightarrow> (failure + ('r, 'w) Sequencer) option" where
  "run_loop D now s =
     (let (acquired, r) = try_acquire D (cached_time s) (limiter s);
          s = s\<lparr>limiter := r\<rparr>
      in if acquired then
           (let (target_could_start, s) = call_target D now s
            in if target_could_start then
                 (let s = unblockAndUpdateStatisticIfNeeded now s
                  in run_loop D now (s\<lparr>targets_initiated := targets_initiated s + 1\<rparr>))
               else
                 (let s = updateStartBlockingTimeIfNeeded s
                  in Some (map_sum id (\<lambda>r. s\<lparr>limiter := r\<rparr>)
                       (release_one D (cached_time s) (limiter s)))))
         else Some (Inr s))"

definition rearm :: "('r, 'w) sequencer_deps \<Rightarrow> bool \<Rightarrow> ('r, 'w) Sequencer \<Rightarrow> ('r, 'w) Sequencer" where
  "rearm D from_periodic_timer s =
     (if from_periodic_timer then scheduleRun s
      else if idle D = SPIN \<and> targets_initiated s = targets_completed s then s\<lparr>spin_timer := Armed 0\<rparr>
      else if idle D = SLEEP then s\<lparr>spin_timer := Armed 0\<rparr>
      else s)"

definition Sequencer_run ::
    "('r, 'w) sequencer_deps \<Rightarrow> bool \<Rightarrow> clock \<Rightarrow> ('r, 'w) Sequencer
      \<Rightarrow> (failure + ('r, 'w) Sequencer) option" where
  "Sequencer_run D from_periodic_timer c s =
     (let s = s\<lparr>cached_time := c\<rparr>;
          now = monotonicTime c;
          st = (if last_termination_status s = PROCEED
                then evaluateChain c (stat_counters D (target_state s)) (predicates D)
                else last_termination_status s);
          s = s\<lparr>last_termination_status := st\<rparr>
      in if st \<noteq> PROCEED then Some (Inr (Sequencer_stop D (st = FAIL) s))
         else map_option (map_sum id (rearm D from_periodic_timer)) (run_loop D now s))"

definition Sequencer_start ::
    "('r, 'w) sequencer_deps \<Rightarrow> clock \<Rightarrow> ('r, 'w) Sequencer \<Rightarrow> (failure + ('r, 'w) Sequencer) option" where
  "Sequencer_start D c s = Sequencer_run D False c (scheduleRun (s\<lparr>running := True\<rparr>))"

text \<open>
  The events that drive a started sequencer, in whatever order the event loop delivers them: an
  armed timer fires, which disarms it, or a request that is in flight completes.
\<close>

inductive seq_step :: "('r, 'w) sequencer_deps \<Rightarrow> ('r, 'w) Sequencer \<Rightarrow> ('r, 'w) Sequencer \<Rightarrow> bool" for D where
  spin: "running s \<Longrightarrow> spin_timer s = Armed d
    \<Longrightarrow> clock_ok c \<Longrightarrow> monotonicTime (cached_time s) \<le> monotonicTime c
    \<Longrightarrow> Sequencer_run D False c (s\<lparr>spin_timer := Disabled\<rparr>) = Some (Inr s') \<Longrightarrow> seq_step D s s'"
| periodic: "running s \<Longrightarrow> periodic_timer s = Armed d
    \<Longrightarrow> clock_ok c \<Longrightarrow> monotonicTime (cached_time s) \<le> monotonicTime c
    \<Longrightarrow> Sequencer_run D True c (s\<lparr>periodic_timer := Disabled\<rparr>) = Some (Inr s') \<Longrightarrow> seq_step D s s'"
| completed: "targets_completed s < targets_initiated s \<Longrightarrow> now \<le> monotonicTime c
    \<Longrightarrow> clock_ok c \<Longrightarrow> monotonicTime (cached_time s) \<le> monotonicTime c
    \<Longrightarrow> seq_step D s (completion_callback now c s)"

inductive seq_reach :: "('r, 'w) sequencer_deps \<Rightarrow> 'r \<Rightarrow> ('r, 'w) Sequencer \<Rightarrow> bool" for D r where
  started: "clock_ok c \<Longrightarrow> Sequencer_start D c (new_Sequencer c r w) = Some (Inr s) \<Longrightarrow> seq_reach D r s"
| stepped: "seq_reach D r s \<Longrightarrow> seq_step D s s' \<Longrightarrow> seq_reach D r s'"

section \<open>What the target and the limiter promise\<close>

text \<open>Callbacks made before the target returns see a clock that does not run backwards.\<close>

definition orderly_calls :: "(clock \<Rightarrow> 'w \<Rightarrow> bool \<times> clock list \<times> 'w) \<Rightarrow> bool" where
  "orderly_calls tgt \<longleftrightarrow> (\<forall>c w could_start completions w'.
     clock_ok c \<longrightarrow> tgt c w = (could_start, completions, w')
     \<longrightarrow> (\<forall>c' \<in> set completions. clock_ok c') \<and> sorted (map monotonicTime (c # completions)))"

definition orderly_target :: "('r, 'w) sequencer_deps \<Rightarrow> bool" where
  "orderly_target D \<longleftrightarrow> orderly_calls (target D)"

text \<open>
  A limiter whose release may be late by the time the target took, with a condition \<open>on_track\<close> on
  its state at a time that every call at a later time keeps, and a bound on the acquisitions it counts.
\<close>

locale sequencer_limiter = exact_rate_limiter +
  fixes elapsed :: "clock \<Rightarrow> 's \<Rightarrow> int \<times> 's"
    and on_track :: "int \<Rightarrow> 's \<Rightarrow> bool"
  assumes held_bounded: "invar s \<Longrightarrow> held s \<le> 2 ^ 62"
    and release_later: "clock_ok c' \<Longrightarrow> may_release c s \<Longrightarrow> monotonicTime c \<le> monotonicTime c' \<Longrightarrow> may_release c' s"
    and elapsed_law: "clock_ok c \<Longrightarrow> invar s \<Longrightarrow> elapsed c s = (e, s') \<Longrightarrow> invar s' \<and> held s' = held s"
    and track_later: "invar s \<Longrightarrow> on_track t s \<Longrightarrow> t \<le> t' \<Longrightarrow> on_track t' s"
    and track_elapsed: "clock_ok c \<Longrightarrow> invar s \<Longrightarrow> on_track (monotonicTime c) s
      \<Longrightarrow> elapsed c s = (e, s') \<Longrightarrow> on_track (monotonicTime c) s'"
    and track_acquire: "clock_ok c \<Longrightarrow> invar s \<Longrightarrow> on_track (monotonicTime c) s
      \<Longrightarrow> acquire c s = (got, s') \<Longrightarrow> on_track (monotonicTime c) s'"
    and track_release: "clock_ok c \<Longrightarrow> invar s \<Longrightarrow> on_track (monotonicTime c) s
      \<Longrightarrow> may_release c s \<Longrightarrow> release c s = Inr s' \<Longrightarrow> on_track (monotonicTime c) s'"

section \<open>Frame facts\<close>

lemma unblock_frame [simp]:
  "limiter (unblockAndUpdateStatisticIfNeeded now s) = limiter s"
  "cached_time (unblockAndUpdateStatisticIfNeeded now s) = cached_time s"
  "targets_initiated (unblockAndUpdateStatisticIfNeeded now s) = targets_initiated s"
  "targets_completed (unblockAndUpdateStatisticIfNeeded now s) = targets_completed s"
  "running (unblockAndUpdateStatisticIfNeeded now s) = running s"
  "periodic_timer (unblockAndUpdateStatisticIfNeeded now s) = periodic_timer s"
  "spin_timer (unblockAndUpdateStatisticIfNeeded now s) = spin_timer s"
  "last_termination_status (unblockAndUpdateStatisticIfNeeded now s) = last_termination_status s"
  "target_state (unblockAndUpdateStatisticIfNeeded now s) = target_state s"
  by (simp_all add: unblockAndUpdateStatisticIfNeeded_def)

lemma block_frame [simp]:
  "limiter (updateStartBlockingTimeIfNeeded s) = limiter s"
  "cached_time (updateStartBlockingTimeIfNeeded s) = cached_time s"
  "targets_initiated (updateStartBlockingTimeIfNeeded s) = targets_initiated s"
  "targets_completed (updateStartBlockingTimeIfNeeded s) = targets_completed s"
  "running (updateStartBlockingTimeIfNeeded s) = running s"
  "periodic_timer (updateStartBlockingTimeIfNeeded s) = periodic_timer s"
  "spin_timer (updateStartBlockingTimeIfNeeded s) = spin_timer s"
  "last_termination_status (updateStartBlockingTimeIfNeeded s) = last_termination_status s"
  by (simp_all add: updateStartBlockingTimeIfNeeded_def)

lemma callback_frame [simp]:
  "limiter (completion_callback now c s) = limiter s"
  "cached_time (completion_callback now c s) = c"
  "targets_initiated (completion_callback now c s) = targets_initiated s"
  "running (completion_callback now c s) = running s"
  "periodic_timer (completion_callback now c s) = periodic_timer s"
  "last_termination_status (completion_callback now c s) = last_termination_status s"
  "target_state (completion_callback now c s) = target_state s"
  by (simp_all add: completion_callback_def Let_def)

lemma callbacks_frame [simp]:
  "limiter (fold (completion_callback now) cs s) = limiter s"
  "cached_time (fold (completion_callback now) cs s) = last (cached_time s # cs)"
  "targets_initiated (fold (completion_callback now) cs s) = targets_initiated s"
  "running (fold (completion_callback now) cs s) = running s"
  "periodic_timer (fold (completion_callback now) cs s) = periodic_timer s"
  "last_termination_status (fold (completion_callback now) cs s) = last_termination_status s"
  by (induction cs arbitrary: s) auto

lemma call_target_frame:
  assumes "orderly_target D" "clock_ok (cached_time s)" "call_target D now s = (could, s')"
  shows "limiter s' = limiter s" "targets_initiated s' = targets_initiated s" "running s' = running s"
    "periodic_timer s' = periodic_timer s" "last_termination_status s' = last_termination_status s"
    "clock_ok (cached_time s')" "monotonicTime (cached_time s) \<le> monotonicTime (cached_time s')"
proof -
  obtain b cs w where t: "target D (cached_time s) (target_state s) = (b, cs, w)"
    using prod_cases3 by blast
  then have s': "s' = fold (completion_callback now) cs (s\<lparr>target_state := w\<rparr>)"
    using assms(3) by (simp add: call_target_def)
  have o: "\<forall>c' \<in> set cs. clock_ok c'" "sorted (map monotonicTime (cached_time s # cs))"
    using assms(1,2) t unfolding orderly_target_def orderly_calls_def by blast+
  show "limiter s' = limiter s" "targets_initiated s' = targets_initiated s" "running s' = running s"
    "periodic_timer s' = periodic_timer s" "last_termination_status s' = last_termination_status s"
    by (simp_all add: s')
  show "clock_ok (cached_time s')" using o(1) assms(2) by (cases "cs = []") (simp_all add: s')
  show "monotonicTime (cached_time s) \<le> monotonicTime (cached_time s')"
    using o(2) by (cases "cs = []") (auto simp: s')
qed

section \<open>The loop keeps the limiter and the counters in step\<close>

definition driven_by ::
    "(clock \<Rightarrow> 'r \<Rightarrow> bool \<times> 'r) \<Rightarrow> (clock \<Rightarrow> 'r \<Rightarrow> failure + 'r) \<Rightarrow> (clock \<Rightarrow> 'r \<Rightarrow> int \<times> 'r)
      \<Rightarrow> ('r, 'w) sequencer_deps \<Rightarrow> bool" where
  "driven_by acq rel el D \<longleftrightarrow> try_acquire D = acq \<and> release_one D = rel \<and> limiter_elapsed D = el
     \<and> orderly_target D"

definition seq_ok :: "('r \<Rightarrow> bool) \<Rightarrow> (int \<Rightarrow> 'r \<Rightarrow> bool) \<Rightarrow> ('r, 'w) Sequencer \<Rightarrow> bool" where
  "seq_ok iv tr s \<longleftrightarrow> iv (limiter s) \<and> clock_ok (cached_time s)
     \<and> tr (monotonicTime (cached_time s)) (limiter s)"

text \<open>The acquisitions outstanding minus the requests initiated, modulo the counter's width.\<close>

definition balance :: "('r \<Rightarrow> int) \<Rightarrow> ('r, 'w) Sequencer \<Rightarrow> u64" where
  "balance hld s = word_of_int (hld (limiter s)) - targets_initiated s"

definition advances ::
    "('r \<Rightarrow> bool) \<Rightarrow> (int \<Rightarrow> 'r \<Rightarrow> bool) \<Rightarrow> ('r \<Rightarrow> int) \<Rightarrow> ('r, 'w) Sequencer \<Rightarrow> ('r, 'w) Sequencer \<Rightarrow> bool" where
  "advances iv tr hld s s' \<longleftrightarrow> seq_ok iv tr s' \<and> balance hld s' = balance hld s
     \<and> monotonicTime (cached_time s) \<le> monotonicTime (cached_time s')
     \<and> running s' = running s \<and> periodic_timer s' = periodic_timer s
     \<and> last_termination_status s' = last_termination_status s"

lemma advances_trans:
  "advances iv tr hld s s' \<Longrightarrow> advances iv tr hld s' s'' \<Longrightarrow> advances iv tr hld s s''"
  by (auto simp: advances_def)

context sequencer_limiter
begin

lemma loop_body:
  assumes D: "driven_by acquire release elapsed D" and s: "seq_ok invar on_track s"
    and acq: "acquire (cached_time s) (limiter s) = (True, r)"
    and call: "call_target D now (s\<lparr>limiter := r\<rparr>) = (could, s1)"
  shows "could \<Longrightarrow> advances invar on_track held s
      ((unblockAndUpdateStatisticIfNeeded now s1)\<lparr>targets_initiated := targets_initiated s1 + 1\<rparr>)"
    and "\<not> could \<Longrightarrow> \<exists>r'. release (cached_time s1) (limiter s1) = Inr r'
      \<and> advances invar on_track held s ((updateStartBlockingTimeIfNeeded s1)\<lparr>limiter := r'\<rparr>)"
proof -
  let ?t = "monotonicTime (cached_time s)" and ?t1 = "monotonicTime (cached_time s1)"
  have inv: "invar (limiter s)" "clock_ok (cached_time s)" "on_track ?t (limiter s)"
    using s by (simp_all add: seq_ok_def)
  note law = acquire_law [OF inv(2,1) acq] held_law [OF inv(2,1) acq]
  have orderly: "orderly_target D" using D by (simp add: driven_by_def)
  note f = call_target_frame [OF orderly _ call, simplified, OF inv(2)]
  have r: "invar r" "may_release (cached_time s) r" "held r = held (limiter s) + 1" using law by simp_all
  have mr: "may_release (cached_time s1) r" by (rule release_later [OF f(6) r(2) f(7)])
  have tr: "on_track ?t1 r"
    by (rule track_later [OF r(1) track_acquire [OF inv(2,1,3) acq] f(7)])
  show "could \<Longrightarrow> advances invar on_track held s
      ((unblockAndUpdateStatisticIfNeeded now s1)\<lparr>targets_initiated := targets_initiated s1 + 1\<rparr>)"
    using r tr f by (simp add: advances_def seq_ok_def balance_def)
  obtain r' where r': "release (cached_time s1) r = Inr r'" "invar r'" "held r' = held r - 1"
    using release_law [OF f(6) r(1) mr] by blast
  have "on_track ?t1 r'" by (rule track_release [OF f(6) r(1) tr mr r'(1)])
  then show "\<not> could \<Longrightarrow> \<exists>r'. release (cached_time s1) (limiter s1) = Inr r'
      \<and> advances invar on_track held s ((updateStartBlockingTimeIfNeeded s1)\<lparr>limiter := r'\<rparr>)"
    using r r' f by (intro exI [of _ r']) (simp add: advances_def seq_ok_def balance_def)
qed

lemma loop_refused:
  assumes s: "seq_ok invar on_track s" and acq: "acquire (cached_time s) (limiter s) = (False, r)"
  shows "advances invar on_track held s (s\<lparr>limiter := r\<rparr>)"
proof -
  have inv: "invar (limiter s)" "clock_ok (cached_time s)" "on_track (monotonicTime (cached_time s)) (limiter s)"
    using s by (simp_all add: seq_ok_def)
  show ?thesis
    using acquire_law [OF inv(2,1) acq] held_law [OF inv(2,1) acq] track_acquire [OF inv(2,1,3) acq] inv(2)
    by (simp add: advances_def seq_ok_def balance_def)
qed

lemma run_loop_advances:
  assumes "run_loop D now s = Some res" "driven_by acquire release elapsed D" "seq_ok invar on_track s"
  shows "\<exists>s'. res = Inr s' \<and> advances invar on_track held s s'"
  using assms
proof (induction rule: run_loop.raw_induct [rotated, consumes 1])
  case (1 loop D now s res)
  have deps: "try_acquire D = acquire" "release_one D = release"
    using 1(3) by (simp_all add: driven_by_def)
  obtain got r where acq: "acquire (cached_time s) (limiter s) = (got, r)" by fastforce
  show ?case
  proof (cases got)
    case False
    then have "res = Inr (s\<lparr>limiter := r\<rparr>)" using 1(2) deps acq by simp
    then show ?thesis using loop_refused [OF 1(4)] acq False by auto
  next
    case True
    obtain could s1 where call: "call_target D now (s\<lparr>limiter := r\<rparr>) = (could, s1)" by fastforce
    have "acquire (cached_time s) (limiter s) = (True, r)" using acq True by simp
    note body = loop_body [OF 1(3,4) this call]
    show ?thesis
    proof (cases could)
      case go: True
      let ?s = "(unblockAndUpdateStatisticIfNeeded now s1)\<lparr>targets_initiated := targets_initiated s1 + 1\<rparr>"
      have adv: "advances invar on_track held s ?s" using body(1) go by simp
      have "loop D now ?s = Some res"
        using 1(2) deps acq True call go by simp
      moreover have "seq_ok invar on_track ?s" using adv unfolding advances_def by blast
      ultimately have "\<exists>s'. res = Inr s' \<and> advances invar on_track held ?s s'" by (rule 1(1) [OF _ 1(3)])
      then show ?thesis using adv advances_trans by blast
    next
      case stop: False
      obtain r' where r': "release (cached_time s1) (limiter s1) = Inr r'"
          "advances invar on_track held s ((updateStartBlockingTimeIfNeeded s1)\<lparr>limiter := r'\<rparr>)"
        using body(2) stop by blast
      then have "res = Inr ((updateStartBlockingTimeIfNeeded s1)\<lparr>limiter := r'\<rparr>)"
        using 1(2) deps acq True call stop by auto
      then show ?thesis using r'(2) by blast
    qed
  qed
qed

lemma elapsed_keeps:
  assumes "driven_by acquire release elapsed D" "seq_ok invar on_track s" "executionDuration D s = (e, s')"
  shows "seq_ok invar on_track s' \<and> balance held s' = balance held s \<and> cached_time s' = cached_time s
    \<and> (\<exists>r. s' = s\<lparr>limiter := r\<rparr>)"
proof -
  obtain r where r: "elapsed (cached_time s) (limiter s) = (e, r)" "s' = s\<lparr>limiter := r\<rparr>"
    using assms(1,3) by (auto simp: executionDuration_def driven_by_def split: prod.splits)
  then show ?thesis
    using assms(2) elapsed_law [OF _ _ r(1)] track_elapsed [OF _ _ _ r(1)]
    by (auto simp: seq_ok_def balance_def)
qed

lemma stop_keeps:
  assumes D: "driven_by acquire release elapsed D" and s: "seq_ok invar on_track s"
  shows "seq_ok invar on_track (Sequencer_stop D failed s)
    \<and> balance held (Sequencer_stop D failed s) = balance held s
    \<and> cached_time (Sequencer_stop D failed s) = cached_time s
    \<and> \<not> running (Sequencer_stop D failed s)
    \<and> periodic_timer (Sequencer_stop D failed s) = Deleted
    \<and> spin_timer (Sequencer_stop D failed s) = Deleted
    \<and> dispatcher_exit (Sequencer_stop D failed s)
    \<and> last_termination_status (Sequencer_stop D failed s) = last_termination_status s"
proof -
  obtain e s1 where e: "executionDuration D s = (e, s1)" by fastforce
  note k1 = elapsed_keeps [OF D s e]
  obtain rate where rate: "completionsPerSecond D s = (rate, s1)"
    by (simp add: completionsPerSecond_def e Let_def)
  define s2 where "s2 = (if failed then s1\<lparr>failed_terminations := failed_terminations s1 + 1\<rparr> else s1)
      \<lparr>running := False, periodic_timer := Deleted, spin_timer := Deleted, dispatcher_exit := True\<rparr>"
  define s3 where "s3 = unblockAndUpdateStatisticIfNeeded (monotonicTime (cached_time s2)) s2"
  have s2: "limiter s2 = limiter s1" "cached_time s2 = cached_time s1" "targets_initiated s2 = targets_initiated s1"
    "\<not> running s2" "periodic_timer s2 = Deleted" "spin_timer s2 = Deleted" "dispatcher_exit s2"
    "last_termination_status s2 = last_termination_status s1"
    by (simp_all add: s2_def)
  have s3: "seq_ok invar on_track s3" "balance held s3 = balance held s1" "cached_time s3 = cached_time s1"
    "\<not> running s3" "periodic_timer s3 = Deleted" "spin_timer s3 = Deleted" "dispatcher_exit s3"
    "last_termination_status s3 = last_termination_status s1"
    using k1 s2 by (auto simp: s3_def seq_ok_def balance_def unblockAndUpdateStatisticIfNeeded_def)
  obtain e' s4 where e': "executionDuration D s3 = (e', s4)" by fastforce
  have "Sequencer_stop D failed s = s4"
    unfolding Sequencer_stop_def rate Let_def prod.case s2_def [symmetric] s3_def [symmetric] e' by simp
  then show ?thesis using elapsed_keeps [OF D s3(1) e'] k1 s3 by auto
qed

lemma run_keeps:
  assumes D: "driven_by acquire release elapsed D" and s: "seq_ok invar on_track s"
    and c: "clock_ok c" "monotonicTime (cached_time s) \<le> monotonicTime c"
    and run: "Sequencer_run D fp c s = Some res"
  shows "\<exists>s'. res = Inr s' \<and> seq_ok invar on_track s' \<and> balance held s' = balance held s
    \<and> monotonicTime c \<le> monotonicTime (cached_time s')
    \<and> (if last_termination_status s' = PROCEED
       then running s' = running s \<and> periodic_timer s' = (if fp then Armed NighthawkTimerResolution else periodic_timer s)
       else \<not> running s' \<and> periodic_timer s' = Deleted \<and> spin_timer s' = Deleted)"
proof -
  define st where "st = (if last_termination_status s = PROCEED
      then evaluateChain c (stat_counters D (target_state s)) (predicates D) else last_termination_status s)"
  define s1 where "s1 = s\<lparr>cached_time := c, last_termination_status := st\<rparr>"
  have s1: "seq_ok invar on_track s1" "balance held s1 = balance held s"
    using s c track_later by (auto simp: s1_def seq_ok_def balance_def)
  have run': "(if st \<noteq> PROCEED then Some (Inr (Sequencer_stop D (st = FAIL) s1))
      else map_option (map_sum id (rearm D fp)) (run_loop D (monotonicTime c) s1)) = Some res"
    using run by (simp add: Sequencer_run_def Let_def st_def s1_def cong: if_cong)
  show ?thesis
  proof (cases "st = PROCEED")
    case False
    then show ?thesis using run' stop_keeps [OF D s1(1)] s1(2) by (auto simp: s1_def)
  next
    case True
    then obtain r where r: "run_loop D (monotonicTime c) s1 = Some r" "res = map_sum id (rearm D fp) r"
      using run' by auto
    obtain s2 where s2: "r = Inr s2" "advances invar on_track held s1 s2"
      using run_loop_advances [OF r(1) D s1(1)] by blast
    have fr: "seq_ok invar on_track (rearm D fp s2) = seq_ok invar on_track s2"
      "balance held (rearm D fp s2) = balance held s2" "cached_time (rearm D fp s2) = cached_time s2"
      "running (rearm D fp s2) = running s2"
      "last_termination_status (rearm D fp s2) = last_termination_status s2"
      "periodic_timer (rearm D fp s2) = (if fp then Armed NighthawkTimerResolution else periodic_timer s2)"
      by (simp_all add: rearm_def scheduleRun_def seq_ok_def balance_def)
    show ?thesis
      using r(2) s2 s1(2) True by (auto simp: fr advances_def s1_def)
  qed
qed

text \<open>
  The loop leaves. Each round but the last adds one to the acquisitions held, also when callbacks of the
  target move the clock and with it the schedule, and a limiter within its invariant holds at most
  \<open>2 ^ 62\<close>.
\<close>

lemma run_loop_returns:
  assumes "driven_by acquire release elapsed D" "seq_ok invar on_track s"
  shows "\<exists>res. run_loop D now s = Some res"
  using assms(2)
proof (induction "nat (2 ^ 62 - held (limiter s))" arbitrary: s rule: less_induct)
  case less
  have deps: "try_acquire D = acquire" "release_one D = release"
    using assms(1) by (simp_all add: driven_by_def)
  have inv: "invar (limiter s)" "clock_ok (cached_time s)" using less(2) by (simp_all add: seq_ok_def)
  obtain got r where acq: "acquire (cached_time s) (limiter s) = (got, r)" by fastforce
  obtain could s1 where call: "call_target D now (s\<lparr>limiter := r\<rparr>) = (could, s1)" by fastforce
  show ?case
  proof (cases "got \<and> could")
    case True
    have acqT: "acquire (cached_time s) (limiter s) = (True, r)" using acq True by simp
    let ?s = "(unblockAndUpdateStatisticIfNeeded now s1)\<lparr>targets_initiated := targets_initiated s1 + 1\<rparr>"
    have "orderly_target D" using assms(1) by (simp add: driven_by_def)
    then have "limiter s1 = r" using call_target_frame(1) [OF _ _ call] inv(2) by simp
    moreover have "held r = held (limiter s) + 1" using held_law [OF inv(2,1) acqT] by simp
    moreover have ok: "seq_ok invar on_track ?s"
      using loop_body(1) [OF assms(1) less(2) acqT call] True unfolding advances_def by blast
    then have "held (limiter ?s) \<le> 2 ^ 62" using held_bounded by (simp only: seq_ok_def)
    ultimately have "nat (2 ^ 62 - held (limiter ?s)) < nat (2 ^ 62 - held (limiter s))" by simp
    then obtain res where "run_loop D now ?s = Some res" using less(1) ok by blast
    then show ?thesis
      using True acqT call deps by (subst run_loop.simps) simp
  next
    case False
    then show ?thesis using acq call deps by (subst run_loop.simps) (cases got; simp add: Let_def)
  qed
qed

lemma seq_reach_inv:
  assumes D: "driven_by acquire release elapsed D"
    and r: "invar r" "\<And>t. 0 \<le> t \<Longrightarrow> on_track t r" and "seq_reach D r s"
  shows "seq_ok invar on_track s \<and> balance held s = word_of_int (held r)
    \<and> (if last_termination_status s = PROCEED
       then running s \<and> periodic_timer s = Armed NighthawkTimerResolution
       else \<not> running s \<and> periodic_timer s = Deleted \<and> spin_timer s = Deleted)"
  using assms(4)
proof induction
  case (started c w s)
  let ?s0 = "scheduleRun ((new_Sequencer c r w)\<lparr>running := True\<rparr>)"
  have "seq_ok invar on_track ?s0" "monotonicTime (cached_time ?s0) \<le> monotonicTime c"
    using r started(1) by (simp_all add: seq_ok_def scheduleRun_def new_Sequencer_def clock_ok_def)
  from run_keeps [OF D this(1) started(1) this(2) started(2) [unfolded Sequencer_start_def]]
  show ?case by (auto simp: scheduleRun_def new_Sequencer_def balance_def split: if_splits)
next
  case (stepped s s')
  note ih = stepped(3)
  from stepped(2) show ?case
  proof cases
    case (spin d c)
    let ?s = "s\<lparr>spin_timer := Disabled\<rparr>"
    have "seq_ok invar on_track ?s" using ih by (simp add: seq_ok_def)
    from run_keeps [OF D this spin(3) _ spin(5)] show ?thesis
      using ih spin(1,4) by (auto simp: balance_def split: if_splits)
  next
    case (periodic d c)
    let ?s = "s\<lparr>periodic_timer := Disabled\<rparr>"
    have "seq_ok invar on_track ?s" using ih by (simp add: seq_ok_def)
    from run_keeps [OF D this periodic(3) _ periodic(5)] show ?thesis
      using ih periodic(1,4) by (auto simp: balance_def split: if_splits)
  next
    case (completed now c)
    have "spin_timer s' = spin_timer s" if "\<not> running s"
      using that by (simp add: completed(1) completion_callback_def)
    then show ?thesis
      using ih completed track_later [of "limiter s"]
      by (auto simp: seq_ok_def balance_def split: if_splits)
  qed
qed

end

section \<open>The limiters that the factory builds\<close>

text \<open>\<^verbatim>\<open>ForwardingRateLimiterImpl::elapsed\<close>.\<close>

definition ForwardingRateLimiter_elapsed ::
    "(clock \<Rightarrow> 'r \<Rightarrow> int \<times> 'r) \<Rightarrow> clock \<Rightarrow> 'w \<times> 'r \<Rightarrow> int \<times> ('w \<times> 'r)" where
  "ForwardingRateLimiter_elapsed inner c wr =
     (case wr of (w, r) \<Rightarrow> (case inner c r of (e, r') \<Rightarrow> (e, (w, r'))))"

abbreviation scheduled_linear_try where
  "scheduled_linear_try \<equiv> ScheduledStartingRateLimiter_tryAcquireOne LinearRateLimiter_tryAcquireOne"

abbreviation scheduled_linear_release where
  "scheduled_linear_release \<equiv> ScheduledStartingRateLimiter_releaseOne LinearRateLimiter_releaseOne"

abbreviation scheduled_linear_elapsed where
  "scheduled_linear_elapsed \<equiv> ForwardingRateLimiter_elapsed LinearRateLimiter_elapsed"

definition sched_on_schedule :: "u64 \<Rightarrow> int \<Rightarrow> ScheduledStartingRateLimiter \<times> LinearRateLimiter \<Rightarrow> bool" where
  "sched_on_schedule hz t = (\<lambda>(s, r). hertz (lin_frequency r) = hz \<and> linear_on_schedule t r)"

lemma linear_on_schedule_elapsed:
  assumes "linear_invar r" "linear_on_schedule (monotonicTime c) r" "LinearRateLimiter_elapsed c r = (e, r')"
  shows "linear_on_schedule (monotonicTime c) r'"
  using assms
  by (auto simp: LinearRateLimiter_elapsed_def RateLimiterBase_elapsed_def Let_def linear_on_schedule_def
      linear_held_def split: option.splits if_splits)

lemma sched_elapsed_keeps:
  assumes "clock_ok c" "sched_invar linear_invar s" "scheduled_linear_elapsed c s = (e, s')"
  shows "sched_invar linear_invar s' \<and> sched_held linear_held s' = sched_held linear_held s"
proof -
  obtain w r r' where s: "s = (w, r)" "s' = (w, r')" "LinearRateLimiter_elapsed c r = (e, r')"
    using assms(3) by (cases s) (auto simp: ForwardingRateLimiter_elapsed_def split: prod.splits)
  then show ?thesis
    using linear_elapsed_keeps [OF assms(1) _ s(3)] assms(2) by (simp add: sched_invar_def sched_held_def)
qed

lemma sched_held_bounded: "sched_invar linear_invar s \<Longrightarrow> sched_held linear_held s \<le> 2 ^ 62"
  by (cases s) (simp add: sched_invar_def sched_held_def linear_invar_def linear_held_def)

lemma sched_on_schedule_release:
  assumes "sched_invar linear_invar s" "sched_on_schedule hz t s" "0 < sched_held linear_held s"
    and "scheduled_linear_release c s = Inr s'"
  shows "sched_on_schedule hz t s'"
proof -
  obtain w r where s: "s = (w, r)" by fastforce
  obtain r' where r': "LinearRateLimiter_releaseOne c r = Inr r'" "s' = (w, r')"
    using assms(4) by (cases "LinearRateLimiter_releaseOne c r")
      (auto simp: s ScheduledStartingRateLimiter_releaseOne_def split: if_splits)
  moreover from r'(1) have "lin_frequency r' = lin_frequency r"
    by (auto simp: LinearRateLimiter_releaseOne_def)
  ultimately show ?thesis
    using assms(1-3) linear_on_schedule_release [OF _ _ _ r'(1)]
    by (simp add: s sched_invar_def sched_on_schedule_def sched_held_def)
qed

interpretation seq_default: sequencer_limiter
  scheduled_linear_try scheduled_linear_release "sched_invar linear_invar" "sched_held linear_held"
  "sched_may_release linear_may_release" "sched_pending linear_pending"
  scheduled_linear_elapsed "sched_on_schedule hz"
proof (unfold_locales, goal_cases)
  case (1 s)
  then show ?case by (rule sched_held_bounded)
next
  case (2 c' c s)
  then show ?case by (auto simp: sched_may_release_def linear_may_release_def)
next
  case (3 c s e s')
  then show ?case by (rule sched_elapsed_keeps)
next
  case (4 s t t')
  then show ?case by (auto simp: sched_invar_def sched_on_schedule_def intro: linear_on_schedule_later)
next
  case (5 c s e s')
  then show ?case
    by (auto simp: sched_invar_def sched_on_schedule_def ForwardingRateLimiter_elapsed_def
        LinearRateLimiter_elapsed_def intro: linear_on_schedule_elapsed split: prod.splits)
next
  case (6 c s got s')
  obtain w r where s: "s = (w, r)" by fastforce
  have "linear_on_schedule (monotonicTime c) (snd (LinearRateLimiter_tryAcquireOne c r))"
    using 6 by (intro linear_on_schedule_acquire [where t = "monotonicTime c"]) (simp_all add: s sched_invar_def sched_on_schedule_def)
  then show ?case
    using 6 linear_frequency_acquire [of c r] by (auto simp: s sched_on_schedule_def ScheduledStartingRateLimiter_tryAcquireOne_def Let_def
        split: if_splits prod.splits)
next
  case (7 c s s')
  then show ?case
    by (intro sched_on_schedule_release [OF 7(2,3) _ 7(5)]) (auto simp: sched_may_release_def linear_may_release_def sched_held_def)
qed

text \<open>
  Bursts: the linear limiter underneath keeps its schedule, and what has been handed out is never
  negative, so that it is at most what the linear limiter counts.
\<close>

definition burst_on_schedule ::
    "u64 \<Rightarrow> int \<Rightarrow> BurstingRateLimiter \<times> (ScheduledStartingRateLimiter \<times> LinearRateLimiter) \<Rightarrow> bool" where
  "burst_on_schedule hz t = (\<lambda>(s, r). sched_on_schedule hz t r
     \<and> (if previously_releasing s = Some True then 1 else 0) \<le> burst_held (sched_held linear_held) (s, r))"

lemma burst_accumulate_keeps:
  assumes "burst_accumulate f n acc r = (got, acc', r')" "P r" "\<And>r b r'. P r \<Longrightarrow> f r = (b, r') \<Longrightarrow> P r'"
  shows "P r'"
  using assms
proof (induction f n acc r rule: burst_accumulate.induct)
  case (1 f n acc r)
  obtain ok r1 where r1: "f r = (ok, r1)" by fastforce
  have P1: "P r1" using 1(3,4) r1 by blast
  show ?case
  proof (cases "ok \<and> (acc + 1) mod n \<noteq> 0")
    case True
    then have "burst_accumulate f n (acc + 1) r1 = (got, acc', r')"
      using 1(2) r1 by (simp add: burst_accumulate.simps [of f n acc r])
    then show ?thesis using True by (intro 1(1) [OF r1 [symmetric] _ _ _ P1 1(4)]) simp_all
  next
    case False
    then have "r' = r1" using 1(2) r1 by (auto simp: burst_accumulate.simps [of f n acc r] split: if_splits bool.splits)
    then show ?thesis using P1 by simp
  qed
qed

lemma burst_acquire_parts:
  assumes "clock_ok c" "sched_invar linear_invar r" "sched_on_schedule hz (monotonicTime c) r"
    and "BurstingRateLimiter_tryAcquireOne scheduled_linear_try c (s, r) = (got, (s', r'))"
  shows "sched_on_schedule hz (monotonicTime c) r' \<and> (previously_releasing s' = Some True \<longrightarrow> got)"
proof (cases "releasing s")
  case True
  then show ?thesis using assms(3,4) by (auto simp: BurstingRateLimiter_tryAcquireOne_def)
next
  case False
  obtain full acc r1 where acc:
      "burst_accumulate (scheduled_linear_try c) (burst_size s) (accumulated s) r = (full, acc, r1)"
    using prod_cases3 by blast
  have "sched_invar linear_invar r1 \<and> sched_on_schedule hz (monotonicTime c) r1"
  proof (rule burst_accumulate_keeps [OF acc])
    show "sched_invar linear_invar r \<and> sched_on_schedule hz (monotonicTime c) r" using assms(2,3) by simp
    fix x b y
    assume "sched_invar linear_invar x \<and> sched_on_schedule hz (monotonicTime c) x" "scheduled_linear_try c x = (b, y)"
    then show "sched_invar linear_invar y \<and> sched_on_schedule hz (monotonicTime c) y"
      using scheduled_linear.sched.acquire_law [OF assms(1)] seq_default.track_acquire [OF assms(1)] by blast
  qed
  then show ?thesis using assms(4) False acc by (auto simp: BurstingRateLimiter_tryAcquireOne_def split: bool.splits)
qed

interpretation seq_burst: sequencer_limiter
  "BurstingRateLimiter_tryAcquireOne scheduled_linear_try" BurstingRateLimiter_releaseOne
  "burst_invar (sched_invar linear_invar)" "burst_held (sched_held linear_held)" burst_may_release
  "burst_pending (sched_pending linear_pending)"
  "ForwardingRateLimiter_elapsed scheduled_linear_elapsed" "burst_on_schedule hz"
proof (unfold_locales, goal_cases)
  case (1 s)
  then show ?case using sched_held_bounded [of "snd s"] burst_count_nonneg [of "fst s"] by (cases s) simp
next
  case (2 c' c s)
  then show ?case by (cases s) simp
next
  case (3 c s e s')
  obtain w r r' where s: "s = (w, r)" "s' = (w, r')" "scheduled_linear_elapsed c r = (e, r')"
    using 3(3) by (cases s) (auto simp: ForwardingRateLimiter_elapsed_def split: prod.splits)
  then show ?case using 3(2) sched_elapsed_keeps [OF 3(1) _ s(3)] by (simp add: s)
next
  case (4 s t t')
  then show ?case using seq_default.track_later [of "snd s" hz t t'] by (cases s) (simp add: burst_on_schedule_def)
next
  case (5 c s e s')
  obtain w r r' where s: "s = (w, r)" "s' = (w, r')" "scheduled_linear_elapsed c r = (e, r')"
    using 5(4) by (cases s) (auto simp: ForwardingRateLimiter_elapsed_def split: prod.splits)
  then show ?case
    using 5(2,3) sched_elapsed_keeps [OF 5(1) _ s(3)] seq_default.track_elapsed [OF 5(1) _ _ s(3)]
    by (simp add: s burst_on_schedule_def)
next
  case (6 c s got s')
  obtain w r w' r' where s: "s = (w, r)" "s' = (w', r')" by (cases s; cases s')
  have "sched_on_schedule hz (monotonicTime c) r' \<and> (previously_releasing w' = Some True \<longrightarrow> got)"
    using 6 by (intro burst_acquire_parts [OF 6(1), where r = r and s = w]) (simp_all add: s burst_on_schedule_def)
  moreover have "burst_held (sched_held linear_held) s' = burst_held (sched_held linear_held) s + (if got then 1 else 0)"
    using burst_scheduled_linear.burst.held_law [OF 6(1,2,4)] .
  ultimately show ?case using 6(3) by (auto simp: s burst_on_schedule_def split: if_splits)
next
  case (7 c s s')
  have "burst_held (sched_held linear_held) s' = burst_held (sched_held linear_held) s - 1"
    using burst_scheduled_linear.burst.release_law [OF 7(1,2,4)] 7(5) by auto
  moreover obtain w r where s: "s = (w, r)" by (cases s)
  ultimately show ?case using 7(3-5) by (auto simp: s burst_on_schedule_def BurstingRateLimiter_releaseOne_def)
qed

abbreviation jitter_try where
  "jitter_try \<equiv> DelegatingRateLimiter_tryAcquireOne UniformRandomDistributionSampler_getValue scheduled_linear_try"

abbreviation jitter_invar where
  "jitter_invar \<equiv> deleg_invar jitter_ok (sched_invar linear_invar) (sched_held linear_held) (sched_opens (\<lambda>_. 0))"

definition jitter_on_schedule ::
    "u64 \<Rightarrow> int \<Rightarrow> 'g DelegatingRateLimiter \<times> (ScheduledStartingRateLimiter \<times> LinearRateLimiter) \<Rightarrow> bool" where
  "jitter_on_schedule hz t = (\<lambda>(s, r). sched_on_schedule hz t r)"

interpretation seq_jitter: sequencer_limiter
  jitter_try "DelegatingRateLimiter_releaseOne scheduled_linear_release" jitter_invar
  "deleg_held (sched_held linear_held)" "deleg_may_release (sched_held linear_held) (sched_opens (\<lambda>_. 0))"
  "deleg_pending (sched_pending linear_pending)"
  "ForwardingRateLimiter_elapsed scheduled_linear_elapsed" "jitter_on_schedule hz"
proof (unfold_locales, goal_cases)
  case (1 s)
  then show ?case using sched_held_bounded [of "snd s"] by (cases s) (auto simp: deleg_invar_def deleg_held_def)
next
  case (2 c' c s)
  then show ?case by (auto simp: deleg_may_release_def)
next
  case (3 c s e s')
  obtain w v r r' where s: "s = (w, (v, r))" "s' = (w, (v, r'))" "scheduled_linear_elapsed c (v, r) = (e, (v, r'))"
    using 3(3) by (cases s) (auto simp: ForwardingRateLimiter_elapsed_def split: prod.splits)
  then show ?case
    using 3(2) sched_elapsed_keeps [OF 3(1) _ s(3)]
    by (auto simp: s deleg_invar_def deleg_held_def sched_opens_def)
next
  case (4 s t t')
  then show ?case using seq_default.track_later [of "snd s" hz t t'] by (cases s) (simp add: jitter_on_schedule_def deleg_invar_def)
next
  case (5 c s e s')
  obtain w r r' where s: "s = (w, r)" "s' = (w, r')" "scheduled_linear_elapsed c r = (e, r')"
    using 5(4) by (cases s) (auto simp: ForwardingRateLimiter_elapsed_def split: prod.splits)
  then show ?case using 5(2,3) seq_default.track_elapsed [OF 5(1) _ _ s(3)]
    by (simp add: s jitter_on_schedule_def deleg_invar_def)
next
  case (6 c s got s')
  obtain w r where s: "s = (w, r)" by (cases s)
  obtain b r' where r': "scheduled_linear_try c r = (b, r')" by (cases "scheduled_linear_try c r")
  then have "snd s' = r'" using 6(4) by (auto simp: s deleg_acquire_stages split: prod.splits)
  then show ?case using 6(2,3) seq_default.track_acquire [OF 6(1) _ _ r']
    by (cases s') (simp add: s jitter_on_schedule_def deleg_invar_def)
next
  case (7 c s s')
  obtain w r where s: "s = (w, r)" by (cases s)
  obtain r' where r': "scheduled_linear_release c r = Inr r'" "snd s' = r'"
    using 7(5) by (cases "scheduled_linear_release c r") (auto simp: s DelegatingRateLimiter_releaseOne_def split: if_splits)
  have "0 < sched_held linear_held r" using 7(4) by (simp add: s deleg_may_release_def)
  then show ?case using 7(2,3) sched_on_schedule_release [OF _ _ _ r'(1), of hz "monotonicTime c"] r'(2)
    by (cases s') (simp add: s jitter_on_schedule_def deleg_invar_def)
qed

section \<open>Properties of the sequencer\<close>

context sequencer_limiter
begin

lemma run_returns:
  assumes D: "driven_by acquire release elapsed D"
    and s: "seq_ok invar on_track s" and c: "clock_ok c" "monotonicTime (cached_time s) \<le> monotonicTime c"
  shows "\<exists>s'. Sequencer_run D fp c s = Some (Inr s') \<and> seq_ok invar on_track s'
    \<and> balance held s' = balance held s \<and> monotonicTime c \<le> monotonicTime (cached_time s')"
proof -
  define st where "st = (if last_termination_status s = PROCEED
      then evaluateChain c (stat_counters D (target_state s)) (predicates D) else last_termination_status s)"
  have "seq_ok invar on_track (s\<lparr>cached_time := c, last_termination_status := st\<rparr>)"
    using s c track_later by (auto simp: seq_ok_def)
  then obtain res where "run_loop D (monotonicTime c) (s\<lparr>cached_time := c, last_termination_status := st\<rparr>) = Some res"
    using run_loop_returns [OF D] by blast
  then have "\<exists>res. Sequencer_run D fp c s = Some res"
    by (simp add: Sequencer_run_def Let_def st_def cong: if_cong)
  then show ?thesis using run_keeps [OF D s c] by blast
qed

end

text \<open>What a state of the default sequencer that is on schedule has initiated.\<close>

lemma default_paced:
  assumes "seq_ok (sched_invar linear_invar) (sched_on_schedule hz) s" "balance (sched_held linear_held) s = 0"
    and "limiter s = (sc, l)"
  shows "targets_initiated s = lin_acquired_count l"
    and "start_time (lin_base l) = Some t0 \<Longrightarrow> of_int (uint (targets_initiated s))
      \<le> ideal_schedule (monotonicTime (cached_time s) - t0) (unat hz) * (1 + 2 powi (-50))"
proof -
  have l: "linear_invar l" "linear_on_schedule (monotonicTime (cached_time s)) l" "hertz (lin_frequency l) = hz"
    using assms(1,3) by (simp_all add: seq_ok_def sched_invar_def sched_on_schedule_def)
  have "word_of_int (uint (lin_acquired_count l)) - targets_initiated s = 0"
    using assms(2,3) by (simp add: balance_def sched_held_def linear_held_def)
  then show same: "targets_initiated s = lin_acquired_count l" by simp
  show "of_int (uint (targets_initiated s))
      \<le> ideal_schedule (monotonicTime (cached_time s) - t0) (unat hz) * (1 + 2 powi (-50))"
    if "start_time (lin_base l) = Some t0"
    using linear_on_schedule_bound [OF l(1,2) that, unfolded l(3)] same by (simp add: linear_held_def)
qed

lemma fresh_default:
  assumes "0 < unat hz" "unat hz < 2 ^ 32" "new_LinearRateLimiter (make_Frequency hz) = Inr l0"
  shows "sched_invar linear_invar (sc, l0)" "sched_held linear_held (sc, l0) = 0"
    "sched_on_schedule hz t (sc, l0)"
proof -
  show "sched_invar linear_invar (sc, l0)" "sched_held linear_held (sc, l0) = 0"
    using linear_invar_new [OF assms] by (simp_all add: sched_invar_def sched_held_def)
  then show "sched_on_schedule hz t (sc, l0)"
    using assms(3) by (auto simp: sched_on_schedule_def linear_on_schedule_def sched_held_def
        new_LinearRateLimiter_def new_base_def make_Frequency_def split: if_splits)
qed

text \<open>
  A sequencer at one request per second whose target starts every request, started at time zero and
  woken by the periodic timer half a second later.
\<close>

definition demo_deps :: "(ScheduledStartingRateLimiter \<times> LinearRateLimiter, unit) sequencer_deps" where
  "demo_deps = \<lparr>try_acquire = scheduled_linear_try, release_one = scheduled_linear_release,
     limiter_elapsed = scheduled_linear_elapsed, target = (\<lambda>c w. (True, [], w)),
     stat_counters = (\<lambda>_ _. 0), predicates = [], idle = POLL\<rparr>"

definition demo_state :: "u64 \<Rightarrow> int \<Rightarrow> int list
    \<Rightarrow> (ScheduledStartingRateLimiter \<times> LinearRateLimiter, unit) Sequencer" where
  "demo_state n t polls = \<lparr>targets_initiated = n, targets_completed = 0, running = True, blocked = False,
     blocked_start = 0, last_termination_status = PROCEED, periodic_timer = Armed NighthawkTimerResolution,
     spin_timer = Disabled, failed_terminations = 0, latency_statistic = [], blocked_statistic = [],
     dispatcher_exit = False, cached_time = clock_at t,
     limiter = (\<lparr>scheduled_starting_time = 0, aquisition_attempted = True\<rparr>, linear_polled polls),
     target_state = ()\<rparr>"

lemma linear_polled_steps:
  "LinearRateLimiter_tryAcquireOne (clock_at 0) (linear_polled []) = (False, linear_polled [0])"
  "LinearRateLimiter_tryAcquireOne (clock_at 500000000) (linear_polled [0])
     = (True, linear_polled [0, 500000000])"
  "LinearRateLimiter_tryAcquireOne (clock_at 500000000) (linear_polled [0, 500000000])
     = (False, linear_polled [0, 500000000])"
  by (simp_all add: linear_polled_1hz LinearRateLimiter_tryAcquireOne_def RateLimiterBase_elapsed_def
      new_base_def clock_at_def LinearRateLimiter_take_def phase_shifted_count_1hz Let_def)

lemma scheduled_polled_steps:
  assumes "t \<in> {0, 500000000}" "LinearRateLimiter_tryAcquireOne (clock_at t) (linear_polled ps) = (got, linear_polled qs)"
  shows "scheduled_linear_try (clock_at t) (\<lparr>scheduled_starting_time = 0, aquisition_attempted = b\<rparr>, linear_polled ps)
    = (got, (\<lparr>scheduled_starting_time = 0, aquisition_attempted = True\<rparr>, linear_polled qs))"
  using assms by (auto simp: ScheduledStartingRateLimiter_tryAcquireOne_def clock_at_def)

lemma demo_start:
  "Sequencer_start demo_deps (clock_at 0)
     (new_Sequencer (clock_at 0) (new_ScheduledStartingRateLimiter 0, linear_polled []) ())
   = Some (Inr (demo_state 0 0 [0]))"
  by (simp add: Sequencer_start_def Sequencer_run_def new_Sequencer_def scheduleRun_def demo_deps_def
      new_ScheduledStartingRateLimiter_def run_loop.simps
      scheduled_polled_steps [OF _ linear_polled_steps(1)] demo_state_def rearm_def Let_def)

lemma demo_periodic:
  "Sequencer_run demo_deps True (clock_at 500000000) ((demo_state 0 0 [0])\<lparr>periodic_timer := Disabled\<rparr>)
   = Some (Inr (demo_state 1 500000000 [0, 500000000]))"
  by (simp add: Sequencer_run_def scheduleRun_def demo_deps_def run_loop.simps call_target_def
      scheduled_polled_steps [OF _ linear_polled_steps(2)] scheduled_polled_steps [OF _ linear_polled_steps(3)]
      demo_state_def rearm_def Let_def unblockAndUpdateStatisticIfNeeded_def)

lemma demo_facts:
  "0 < unat (1 :: u64)" "unat (1 :: u64) < 2 ^ 32"
  "new_LinearRateLimiter (make_Frequency 1) = Inr (linear_polled [])"
  "driven_by scheduled_linear_try scheduled_linear_release scheduled_linear_elapsed demo_deps"
  "seq_reach demo_deps (new_ScheduledStartingRateLimiter 0, linear_polled []) (demo_state 1 500000000 [0, 500000000])"
proof -
  show "0 < unat (1 :: u64)" "unat (1 :: u64) < 2 ^ 32" by simp_all
  show "new_LinearRateLimiter (make_Frequency 1) = Inr (linear_polled [])"
    by (simp add: linear_polled_1hz new_LinearRateLimiter_def make_Frequency_def)
  show "driven_by scheduled_linear_try scheduled_linear_release scheduled_linear_elapsed demo_deps"
    by (simp add: driven_by_def demo_deps_def orderly_target_def orderly_calls_def)
  have "seq_reach demo_deps (new_ScheduledStartingRateLimiter 0, linear_polled []) (demo_state 0 0 [0])"
    by (rule seq_reach.started [OF _ demo_start]) (simp add: clock_ok_def clock_at_def)
  then show "seq_reach demo_deps (new_ScheduledStartingRateLimiter 0, linear_polled [])
      (demo_state 1 500000000 [0, 500000000])"
    by (rule seq_reach.stepped)
      (rule seq_step.periodic [OF _ _ _ _ demo_periodic], simp_all add: demo_state_def clock_ok_def clock_at_def)
qed

text \<open>
  C1. Pacing end to end. A sequencer on the default limiter (a scheduled start around the linear
  limiter), whatever its target, its termination predicates, its idle strategy and the order of
  timer and completion events, has initiated exactly as many requests as the linear limiter counts
  as acquired, and never more than the ideal schedule allows at that time.
\<close>

theorem sequencer_paced:
  assumes hz: "0 < unat hz" "unat hz < 2 ^ 32" "new_LinearRateLimiter (make_Frequency hz) = Inr l0"
    and D: "driven_by scheduled_linear_try scheduled_linear_release scheduled_linear_elapsed D"
    and reach: "seq_reach D (new_ScheduledStartingRateLimiter at_time, l0) s"
    and l: "limiter s = (sc, l)" "start_time (lin_base l) = Some t0"
  shows "targets_initiated s = lin_acquired_count l
    \<and> of_int (uint (targets_initiated s))
        \<le> ideal_schedule (monotonicTime (cached_time s) - t0) (unat hz) * (1 + 2 powi (-50))"
proof -
  have "seq_ok (sched_invar linear_invar) (sched_on_schedule hz) s" "balance (sched_held linear_held) s = 0"
    using seq_default.seq_reach_inv [OF D fresh_default(1) [OF hz] fresh_default(3) [OF hz] reach]
      fresh_default(2) [OF hz] by simp_all
  then show ?thesis using default_paced [OF _ _ l(1)] l(2) by blast
qed

theorem sequencer_paced_witness:
  "targets_initiated (demo_state 1 500000000 [0, 500000000]) = 1
   \<and> (1 :: rat) \<le> ideal_schedule 500000000 1 * (1 + 2 powi (-50))"
  using sequencer_paced [OF demo_facts(1-4) demo_facts(5), of _ _ 0]
  by (simp add: demo_state_def linear_polled_1hz clock_at_def)

text \<open>
  C5. The sequencer never falls asleep: between events it is either running with its periodic timer
  armed at the timer resolution, or it has been stopped by a termination predicate, with both timers
  deleted and nothing left to wake it.
\<close>

theorem sequencer_stays_awake:
  assumes "0 < unat hz" "unat hz < 2 ^ 32" "new_LinearRateLimiter (make_Frequency hz) = Inr l0"
    and "driven_by scheduled_linear_try scheduled_linear_release scheduled_linear_elapsed D"
    and "seq_reach D (new_ScheduledStartingRateLimiter at_time, l0) s"
  shows "if last_termination_status s = PROCEED
    then running s \<and> periodic_timer s = Armed NighthawkTimerResolution
    else \<not> running s \<and> periodic_timer s = Deleted \<and> spin_timer s = Deleted"
  using seq_default.seq_reach_inv [OF assms(4) fresh_default(1) [OF assms(1-3)]
      fresh_default(3) [OF assms(1-3)] assms(5)]
  by blast

theorem sequencer_stays_awake_witness:
  "running (demo_state 1 500000000 [0, 500000000])
   \<and> periodic_timer (demo_state 1 500000000 [0, 500000000]) = Armed 25000"
  using sequencer_stays_awake [OF demo_facts(1-4) demo_facts(5)]
  by (simp add: demo_state_def NighthawkTimerResolution_def)

text \<open>
  C2. Every activation returns: a call of \<^verbatim>\<open>run()\<close> in a reachable state leaves its loop, and the release
  of an acquisition that the target could not use never fails. When it returns, no more requests have
  been initiated than the ideal schedule allows at the last reading of the clock. The target may complete
  requests before it returns and so move the clock inside the loop; the clock does not run backwards and
  stays below \<open>2 ^ 58\<close> nanoseconds.
\<close>

theorem sequencer_run_returns:
  assumes "0 < unat hz" "unat hz < 2 ^ 32" "new_LinearRateLimiter (make_Frequency hz) = Inr l0"
    and "driven_by scheduled_linear_try scheduled_linear_release scheduled_linear_elapsed D"
    and "seq_reach D (new_ScheduledStartingRateLimiter at_time, l0) s"
    and "clock_ok c" "monotonicTime (cached_time s) \<le> monotonicTime c"
  shows "\<exists>s'. Sequencer_run D from_periodic_timer c s = Some (Inr s')
    \<and> targets_initiated s' = lin_acquired_count (snd (limiter s'))
    \<and> (\<forall>t0. start_time (lin_base (snd (limiter s'))) = Some t0 \<longrightarrow> of_int (uint (targets_initiated s'))
        \<le> ideal_schedule (monotonicTime (cached_time s') - t0) (unat hz) * (1 + 2 powi (-50)))"
proof -
  note new = fresh_default [OF assms(1-3)]
  have "seq_ok (sched_invar linear_invar) (sched_on_schedule hz) s" "balance (sched_held linear_held) s = 0"
    using seq_default.seq_reach_inv [OF assms(4) new(1,3) assms(5)] new(2) by simp_all
  then obtain s' where s': "Sequencer_run D from_periodic_timer c s = Some (Inr s')"
      "seq_ok (sched_invar linear_invar) (sched_on_schedule hz) s'" "balance (sched_held linear_held) s' = 0"
    using seq_default.run_returns [OF assms(4) _ assms(6,7)] by metis
  then show ?thesis using default_paced [OF s'(2,3) surjective_pairing] by blast
qed

text \<open>The same sequencer with a target whose requests have completed when it returns.\<close>

definition instant_deps :: "(ScheduledStartingRateLimiter \<times> LinearRateLimiter, unit) sequencer_deps" where
  "instant_deps = demo_deps\<lparr>target := (\<lambda>c w. (True, [c], w))\<rparr>"

lemma instant_start:
  "Sequencer_start instant_deps (clock_at 0)
     (new_Sequencer (clock_at 0) (new_ScheduledStartingRateLimiter 0, linear_polled []) ())
   = Some (Inr (demo_state 0 0 [0]))"
  by (simp add: Sequencer_start_def Sequencer_run_def new_Sequencer_def scheduleRun_def instant_deps_def demo_deps_def
      new_ScheduledStartingRateLimiter_def run_loop.simps
      scheduled_polled_steps [OF _ linear_polled_steps(1)] demo_state_def rearm_def Let_def)

theorem sequencer_run_returns_witness:
  "\<exists>s'. Sequencer_run instant_deps True (clock_at 500000000) (demo_state 0 0 [0]) = Some (Inr s')
     \<and> targets_initiated s' = lin_acquired_count (snd (limiter s'))"
proof -
  have D: "driven_by scheduled_linear_try scheduled_linear_release scheduled_linear_elapsed instant_deps"
    by (simp add: driven_by_def instant_deps_def demo_deps_def orderly_target_def orderly_calls_def)
  have "seq_reach instant_deps (new_ScheduledStartingRateLimiter 0, linear_polled []) (demo_state 0 0 [0])"
    by (rule seq_reach.started [OF _ instant_start]) (simp add: clock_ok_def clock_at_def)
  then show ?thesis
    using sequencer_run_returns [OF demo_facts(1-3) D, of 0 "demo_state 0 0 [0]" "clock_at 500000000" True]
    by (auto simp: clock_ok_def clock_at_def demo_state_def)
qed

end
