(* ===== verification/Factories.thy ===== *)
theory Factories
  imports BenchmarkClient Sequencer StepController
begin

text \<open>
  The factories of \<^verbatim>\<open>source/client/factories_impl.{h,cc}\<close>, which build the parts of a worker from the
  options: the benchmark client, the sequencer with its stack of rate limiters and the request source.
  (The termination predicate factory is in \<open>TerminationPredicate\<close>, the one for output formatters in
  \<open>Output\<close>.) A rate limiter is one of the stacks the factory can build, and a virtual call dispatches
  on it; plugins come from registries, which are parameters.
\<close>

section \<open>Benchmark clients\<close>

definition BenchmarkClientFactory_create ::
    "Options \<Rightarrow> 'g \<Rightarrow> (string \<times> 'p) list \<Rightarrow> ('h, 'g, 'p) BenchmarkClient" where
  "BenchmarkClientFactory_create opts g plugins =
     (let client = new_BenchmarkClient (Options_protocol opts) g (\<not> opt_open_loop opts)
                     (opt_latency_response_header_name opts) plugins;
          client = client\<lparr>connection_limit := opt_connections opts\<rparr>;
          client = client\<lparr>max_pending_requests := opt_max_pending_requests opts\<rparr>;
          client = client\<lparr>max_active_requests := opt_max_active_requests opts\<rparr>;
          client = client\<lparr>max_requests_per_connection := opt_max_requests_per_connection opts\<rparr>
      in client\<lparr>bc_timeout := uint (opt_timeout opts)\<rparr>)"

section \<open>Sequencers\<close>

type_synonym scheduled_linear = "ScheduledStartingRateLimiter \<times> LinearRateLimiter"
type_synonym jitter = "UniformRandomDistributionSampler DelegatingRateLimiter"

datatype 'p built_limiter =
    LinearStack scheduled_linear
  | BurstStack "BurstingRateLimiter \<times> scheduled_linear"
  | JitterStack "jitter \<times> scheduled_linear"
  | JitterBurstStack "jitter \<times> BurstingRateLimiter \<times> scheduled_linear"
  | PluginStack "ScheduledStartingRateLimiter \<times> 'p"

text \<open>A plugin's operations, and the registry of plugin factories, which throws for an unknown name.\<close>

record 'p limiter_plugin_ops =
  plugin_try :: "clock \<Rightarrow> 'p \<Rightarrow> bool \<times> 'p"
  plugin_release :: "clock \<Rightarrow> 'p \<Rightarrow> failure + 'p"
  plugin_elapsed :: "clock \<Rightarrow> 'p \<Rightarrow> int \<times> 'p"

type_synonym 'p limiter_registry = "string \<Rightarrow> failure + (opaque \<Rightarrow> Options \<Rightarrow> failure + 'p)"

definition LoadRateLimiterPlugin ::
    "'p limiter_registry \<Rightarrow> Options \<Rightarrow> TypedExtensionConfig \<Rightarrow> failure + 'p status_or" where
  "LoadRateLimiterPlugin getAndCheckFactoryByName opts config =
     catch_EnvoyException (ext_name config)
       (case getAndCheckFactoryByName (ext_name config) of
          Inl f \<Rightarrow> Inl f
        | Inr create \<Rightarrow> map_sum id Inr (create (typed_config config) opts))"

definition uniform_jitter :: "(nat \<Rightarrow> u64) \<Rightarrow> int \<Rightarrow> jitter" where
  "uniform_jitter eng ns =
     new_DelegatingRateLimiter \<lparr>upper_bound = word_of_int ns, engine = eng, drawn = 0\<rparr>"

definition create_rate_limiter ::
    "'p limiter_registry \<Rightarrow> (nat \<Rightarrow> u64) \<Rightarrow> Options \<Rightarrow> int \<Rightarrow> failure + 'p built_limiter" where
  "create_rate_limiter reg eng opts starting_time =
     (case opt_rate_limiter_plugin_config opts of
        Some config \<Rightarrow>
          (case LoadRateLimiterPlugin reg opts config of
             Inl f \<Rightarrow> Inl f
           | Inr (Inl st) \<Rightarrow> Inl (NighthawkException (''Rate Limiter plugin loading error: '' @ message st))
           | Inr (Inr p) \<Rightarrow> Inr (PluginStack (new_ScheduledStartingRateLimiter starting_time, p)))
      | None \<Rightarrow>
          (case new_LinearRateLimiter (make_Frequency (ucast (opt_requests_per_second opts))) of
             Inl f \<Rightarrow> Inl f
           | Inr l \<Rightarrow>
               (let limiter = (new_ScheduledStartingRateLimiter starting_time, l);
                    size = ucast (opt_burst_size opts) :: u64;
                    jitter_uniform = opt_jitter_uniform opts
                in Inr
                  (if size \<noteq> 0
                   then (let burst = (new_BurstingRateLimiter size, limiter)
                         in if 0 < jitter_uniform then JitterBurstStack (uniform_jitter eng jitter_uniform, burst)
                            else BurstStack burst)
                   else if 0 < jitter_uniform then JitterStack (uniform_jitter eng jitter_uniform, limiter)
                   else LinearStack limiter))))"

definition idle_strategy_of :: "int \<Rightarrow> idle_strategy" where
  "idle_strategy_of i = (if i = 1 then SPIN else if i = 2 then POLL else if i = 3 then SLEEP else DEFAULT_IDLE)"

text \<open>The virtual calls on a stack.\<close>

fun built_try :: "'p limiter_plugin_ops \<Rightarrow> clock \<Rightarrow> 'p built_limiter \<Rightarrow> bool \<times> 'p built_limiter" where
  "built_try P c (LinearStack s) = map_prod id LinearStack (scheduled_linear_try c s)"
| "built_try P c (BurstStack s) = map_prod id BurstStack (BurstingRateLimiter_tryAcquireOne scheduled_linear_try c s)"
| "built_try P c (JitterStack s) = map_prod id JitterStack (jitter_try c s)"
| "built_try P c (JitterBurstStack s) = map_prod id JitterBurstStack
     (DelegatingRateLimiter_tryAcquireOne UniformRandomDistributionSampler_getValue
        (BurstingRateLimiter_tryAcquireOne scheduled_linear_try) c s)"
| "built_try P c (PluginStack s) = map_prod id PluginStack (ScheduledStartingRateLimiter_tryAcquireOne (plugin_try P) c s)"

fun built_release :: "'p limiter_plugin_ops \<Rightarrow> clock \<Rightarrow> 'p built_limiter \<Rightarrow> failure + 'p built_limiter" where
  "built_release P c (LinearStack s) = map_sum id LinearStack (scheduled_linear_release c s)"
| "built_release P c (BurstStack s) = map_sum id BurstStack (BurstingRateLimiter_releaseOne c s)"
| "built_release P c (JitterStack s) = map_sum id JitterStack (DelegatingRateLimiter_releaseOne scheduled_linear_release c s)"
| "built_release P c (JitterBurstStack s) = map_sum id JitterBurstStack
     (DelegatingRateLimiter_releaseOne BurstingRateLimiter_releaseOne c s)"
| "built_release P c (PluginStack s) = map_sum id PluginStack (ScheduledStartingRateLimiter_releaseOne (plugin_release P) c s)"

fun built_elapsed :: "'p limiter_plugin_ops \<Rightarrow> clock \<Rightarrow> 'p built_limiter \<Rightarrow> int \<times> 'p built_limiter" where
  "built_elapsed P c (LinearStack s) = map_prod id LinearStack (scheduled_linear_elapsed c s)"
| "built_elapsed P c (BurstStack s) = map_prod id BurstStack (ForwardingRateLimiter_elapsed scheduled_linear_elapsed c s)"
| "built_elapsed P c (JitterStack s) = map_prod id JitterStack (ForwardingRateLimiter_elapsed scheduled_linear_elapsed c s)"
| "built_elapsed P c (JitterBurstStack s) = map_prod id JitterBurstStack
     (ForwardingRateLimiter_elapsed (ForwardingRateLimiter_elapsed scheduled_linear_elapsed) c s)"
| "built_elapsed P c (PluginStack s) = map_prod id PluginStack (ForwardingRateLimiter_elapsed (plugin_elapsed P) c s)"

text \<open>
  A sequencer and what it calls: the target with its state, the termination predicates and the
  counters they read.
\<close>

definition SequencerFactory_create ::
    "'p limiter_registry \<Rightarrow> 'p limiter_plugin_ops \<Rightarrow> (nat \<Rightarrow> u64) \<Rightarrow> Options \<Rightarrow> clock
      \<Rightarrow> (clock \<Rightarrow> 'w \<Rightarrow> bool \<times> clock list \<times> 'w) \<Rightarrow> ('w \<Rightarrow> counters) \<Rightarrow> predicate list \<Rightarrow> int \<Rightarrow> 'w
      \<Rightarrow> failure + ('p built_limiter, 'w) sequencer_deps \<times> ('p built_limiter, 'w) Sequencer" where
  "SequencerFactory_create reg P eng opts c sequencer_target counter_values termination_predicate
       starting_time w =
     (case create_rate_limiter reg eng opts starting_time of
        Inl f \<Rightarrow> Inl f
      | Inr stack \<Rightarrow> Inr
          (\<lparr>try_acquire = built_try P, release_one = built_release P, limiter_elapsed = built_elapsed P,
            target = sequencer_target, stat_counters = counter_values, predicates = termination_predicate,
            idle = idle_strategy_of (opt_sequencer_idle_strategy opts)\<rparr>,
           new_Sequencer c stack w))"

section \<open>Request sources\<close>

definition setRequestHeader :: "'h header_map \<Rightarrow> 'h \<Rightarrow> string \<Rightarrow> string \<Rightarrow> 'h" where
  "setRequestHeader H header key val =
     (let lower_case_key = LowerCaseString H key
      in hm_addCopy H (hm_remove H header lower_case_key) lower_case_key val)"

datatype ('h, 'q) built_source =
  StaticSource "'h StaticRequestSource" | RemoteSource "'h RemoteRequestSource" | PluginSource 'q

type_synonym ('h, 'q) source_registry = "string \<Rightarrow> failure + (opaque \<Rightarrow> 'h \<Rightarrow> failure + 'q)"

definition LoadRequestSourcePlugin ::
    "('h, 'q) source_registry \<Rightarrow> TypedExtensionConfig \<Rightarrow> 'h \<Rightarrow> failure + 'q status_or" where
  "LoadRequestSourcePlugin getAndCheckFactoryByName config header =
     catch_EnvoyException (ext_name config)
       (case getAndCheckFactoryByName (ext_name config) of
          Inl f \<Rightarrow> Inl f
        | Inr create \<Rightarrow> map_sum id Inr (create (typed_config config) header))"

text \<open>The headers that come from the target: path, host and scheme.\<close>

definition target_header :: "options_env \<Rightarrow> 'h header_map \<Rightarrow> Options \<Rightarrow> failure + 'h" where
  "target_header E H opts =
     (let set3 = (\<lambda>p h s. hm_setInline H (hm_setInline H (hm_setInline H (hm_create H) Path_name p) Host_name h)
                             Scheme_name s)
      in case opt_uri opts of
           Some u \<Rightarrow>
             (case new_Uri (env_extract E) u ''http'' of
                Inl f \<Rightarrow> Inl f
              | Inr uri \<Rightarrow> Inr (set3 (uri_path uri) (host_and_port uri)
                                  (if scheme (uri :: unit Uri) = ''https'' then ''https'' else ''http'')))
         | None \<Rightarrow> Inr (set3 (opt_multi_target_path opts) ''host-not-supported-in-multitarget-mode''
                          (if opt_multi_target_use_https opts then ''https'' else ''http'')))"

text \<open>
  The method, the content length and the configured headers, which are those of the options as a
  message: its \<^verbatim>\<open>request_options\<close>, empty when the message carries a request source instead.
\<close>

definition message_headers :: "CommandLineOptions \<Rightarrow> (string \<times> string) list" where
  "message_headers p = (case p_request p of RequestOptionsChoice r \<Rightarrow> ro_request_headers r | _ \<Rightarrow> [])"

definition base_request_header :: "options_env \<Rightarrow> 'h header_map \<Rightarrow> Options \<Rightarrow> failure + 'h" where
  "base_request_header E H opts =
     (case target_header E H opts of
        Inl f \<Rightarrow> Inl f
      | Inr header \<Rightarrow>
          (let header = hm_setInline H header Method_name (RequestMethod_Name H (opt_request_method opts));
               content_length = opt_request_body_size opts;
               header = (if 0 < content_length
                         then hm_setInline H header ContentLength_name (show_nat (unat content_length)) else header)
           in case toCommandLineOptionsInternal E opts of
                Inl f \<Rightarrow> Inl f
              | Inr msg \<Rightarrow> Inr (fold (\<lambda>(k, v) h. setRequestHeader H h k v) (message_headers msg) header)))"

definition RequestSourceFactory_create ::
    "options_env \<Rightarrow> 'h header_map \<Rightarrow> ('h, 'q) source_registry \<Rightarrow> Options \<Rightarrow> string
      \<Rightarrow> failure + ('h, 'q) built_source" where
  "RequestSourceFactory_create E H reg opts cluster_name =
     (case base_request_header E H opts of
        Inl f \<Rightarrow> Inl f
      | Inr header \<Rightarrow>
          if opt_request_source opts \<noteq> []
          then (if cluster_name = [] then Inl (ReleaseAssertFailure ''expected cluster name to be set'')
                else Inr (RemoteSource \<lparr>service_cluster_name = cluster_name, grpc_client = None,
                            remote_base_header = header,
                            remote_header_buffer_length = opt_requests_per_second opts\<rparr>))
          else (case opt_request_source_plugin_config opts of
                  Some config \<Rightarrow>
                    (case LoadRequestSourcePlugin reg config header of
                       Inl f \<Rightarrow> Inl f
                     | Inr (Inl st) \<Rightarrow> Inl (NighthawkException
                         (''Request Source plugin loading error should have been caught ''
                          @ ''during input validation: '' @ message st))
                     | Inr (Inr q) \<Rightarrow> Inr (PluginSource q))
                | None \<Rightarrow> map_sum id StaticSource (new_StaticRequestSource (Some header) (- 1))))"

section \<open>What the factories configure\<close>

lemma unat_widen [simp]: "unat (ucast (w :: u32) :: u64) = unat w"
  using unat_lt2p [of w] by (simp add: unsigned_ucast_eq take_bit_nat_eq_self)

text \<open>The client of a worker starts fresh, with the limit that the options ask for.\<close>

lemma factory_client:
  "fresh_client (BenchmarkClientFactory_create opts g plugins)"
  "provide_resource_backpressure (BenchmarkClientFactory_create opts g plugins) = (\<not> opt_open_loop opts)"
  "unat (max_in_flight (BenchmarkClientFactory_create opts g plugins))
     = unat (opt_max_pending_requests opts)
       + unat (if Options_protocol opts = Http2 \<or> Options_protocol opts = Http3 then opt_max_active_requests opts
               else opt_connections opts)"
proof -
  have sum: "unat (ucast v + ucast w :: u64) = unat v + unat w" for v w :: u32
    using unat_lt2p [of v] unat_lt2p [of w] by (simp add: unat_plus_if')
  show "fresh_client (BenchmarkClientFactory_create opts g plugins)"
    "provide_resource_backpressure (BenchmarkClientFactory_create opts g plugins) = (\<not> opt_open_loop opts)"
    by (simp_all add: BenchmarkClientFactory_create_def new_BenchmarkClient_def fresh_client_def books_def
        responses_counted_def latencies_by_class_def zero_counters_def empty_statistic_def)
  show "unat (max_in_flight (BenchmarkClientFactory_create opts g plugins))
     = unat (opt_max_pending_requests opts)
       + unat (if Options_protocol opts = Http2 \<or> Options_protocol opts = Http3 then opt_max_active_requests opts
               else opt_connections opts)"
    by (simp add: BenchmarkClientFactory_create_def new_BenchmarkClient_def max_in_flight_def sum)
qed

text \<open>Configured headers do not reach a remote or a plugin request source.\<close>

lemma source_drops_headers:
  assumes "toCommandLineOptionsInternal E opts = Inr msg"
    "opt_request_source opts \<noteq> [] \<or> opt_request_source_plugin_config opts \<noteq> None"
  shows "message_headers msg = []"
  using assms
  by (auto simp: toCommandLineOptionsInternal_def request_to_proto_def message_headers_def
      split: if_splits option.splits sum.splits)

section \<open>Every stack keeps the contract of the sequencer\<close>

text \<open>
  The contract holds for the stacks built without a plugin and without combining bursts and jitter.
\<close>

fun built_invar :: "'p built_limiter \<Rightarrow> bool" where
  "built_invar (LinearStack s) = sched_invar linear_invar s"
| "built_invar (BurstStack s) = burst_invar (sched_invar linear_invar) s"
| "built_invar (JitterStack s) = jitter_invar s"
| "built_invar _ = False"

fun built_held :: "'p built_limiter \<Rightarrow> int" where
  "built_held (LinearStack s) = sched_held linear_held s"
| "built_held (BurstStack s) = burst_held (sched_held linear_held) s"
| "built_held (JitterStack s) = deleg_held (sched_held linear_held) s"
| "built_held _ = 0"

fun built_may_release :: "clock \<Rightarrow> 'p built_limiter \<Rightarrow> bool" where
  "built_may_release c (LinearStack s) = sched_may_release linear_may_release c s"
| "built_may_release c (BurstStack s) = burst_may_release c s"
| "built_may_release c (JitterStack s) = deleg_may_release (sched_held linear_held) (sched_opens (\<lambda>_. 0)) c s"
| "built_may_release c _ = False"

fun built_pending :: "clock \<Rightarrow> 'p built_limiter \<Rightarrow> nat" where
  "built_pending c (LinearStack s) = sched_pending linear_pending c s"
| "built_pending c (BurstStack s) = burst_pending (sched_pending linear_pending) c s"
| "built_pending c (JitterStack s) = deleg_pending (sched_pending linear_pending) c s"
| "built_pending c _ = 0"

fun built_on_schedule :: "u64 \<Rightarrow> int \<Rightarrow> 'p built_limiter \<Rightarrow> bool" where
  "built_on_schedule hz t (LinearStack s) = sched_on_schedule hz t s"
| "built_on_schedule hz t (BurstStack s) = burst_on_schedule hz t s"
| "built_on_schedule hz t (JitterStack s) = jitter_on_schedule hz t s"
| "built_on_schedule hz t _ = False"

text \<open>The linear limiter at the bottom of a stack.\<close>

fun built_linear :: "'p built_limiter \<Rightarrow> LinearRateLimiter option" where
  "built_linear (LinearStack (_, l)) = Some l"
| "built_linear (BurstStack (_, _, l)) = Some l"
| "built_linear (JitterStack (_, _, l)) = Some l"
| "built_linear (JitterBurstStack (_, _, _, l)) = Some l"
| "built_linear (PluginStack _) = None"

lemma map_prod_eq: "map_prod id f p = (b, y) \<longleftrightarrow> (\<exists>x. p = (b, x) \<and> y = f x)"
  by (cases p) auto

interpretation built: sequencer_limiter
  "built_try P" "built_release P" built_invar built_held built_may_release built_pending
  "built_elapsed P" "built_on_schedule hz"
proof (unfold_locales, goal_cases)
  case (1 c s got s')
  then show ?case
  proof (cases s)
    case (LinearStack x)
    then show ?thesis using 1 scheduled_linear.sched.acquire_law [OF 1(1), of x got] by (auto simp: map_prod_eq)
  next
    case (BurstStack x)
    then show ?thesis using 1 burst_scheduled_linear.burst.acquire_law [OF 1(1), of x got] by (auto simp: map_prod_eq)
  next
    case (JitterStack x)
    then show ?thesis using 1 jitter_scheduled_linear.deleg.acquire_law [OF 1(1), of x got] by (auto simp: map_prod_eq)
  qed simp_all
next
  case (2 c s)
  then show ?case
  proof (cases s)
    case (LinearStack x)
    then show ?thesis using 2 scheduled_linear.sched.release_law [OF 2(1), of x] by auto
  next
    case (BurstStack x)
    then show ?thesis using 2 burst_scheduled_linear.burst.release_law [OF 2(1), of x] by auto
  next
    case (JitterStack x)
    then show ?thesis using 2 jitter_scheduled_linear.deleg.release_law [OF 2(1), of x] by auto
  qed simp_all
next
  case (3 c s got s')
  then show ?case
  proof (cases s)
    case (LinearStack x)
    then show ?thesis using 3 scheduled_linear.sched.held_law [OF 3(1), of x got] by (auto simp: map_prod_eq)
  next
    case (BurstStack x)
    then show ?thesis using 3 burst_scheduled_linear.burst.held_law [OF 3(1), of x got] by (auto simp: map_prod_eq)
  next
    case (JitterStack x)
    then show ?thesis using 3 jitter_scheduled_linear.deleg.held_law [OF 3(1), of x got] by (auto simp: map_prod_eq)
  qed simp_all
next
  case (4 s)
  then show ?case
    using seq_default.held_bounded seq_burst.held_bounded seq_jitter.held_bounded by (cases s) auto
next
  case (5 c' c s)
  then show ?case
  proof (cases s)
    case (LinearStack x)
    then show ?thesis using 5 seq_default.release_later [OF 5(1), of c x] by simp
  next
    case (BurstStack x)
    then show ?thesis using 5 seq_burst.release_later [OF 5(1), of c x] by simp
  next
    case (JitterStack x)
    then show ?thesis using 5 seq_jitter.release_later [OF 5(1), of c x] by simp
  qed simp_all
next
  case (6 c s e s')
  then show ?case
  proof (cases s)
    case (LinearStack x)
    then show ?thesis using 6 seq_default.elapsed_law [OF 6(1), of x e] by (auto simp: map_prod_eq)
  next
    case (BurstStack x)
    then show ?thesis using 6 seq_burst.elapsed_law [OF 6(1), of x e] by (auto simp: map_prod_eq)
  next
    case (JitterStack x)
    then show ?thesis using 6 seq_jitter.elapsed_law [OF 6(1), of x e] by (auto simp: map_prod_eq)
  qed simp_all
next
  case (7 s t t')
  then show ?case
    using seq_default.track_later seq_burst.track_later seq_jitter.track_later by (cases s) auto
next
  case (8 c s e s')
  then show ?case
  proof (cases s)
    case (LinearStack x)
    then show ?thesis using 8 seq_default.track_elapsed [OF 8(1), of x hz e] by (auto simp: map_prod_eq)
  next
    case (BurstStack x)
    then show ?thesis using 8 seq_burst.track_elapsed [OF 8(1), of x hz e] by (auto simp: map_prod_eq)
  next
    case (JitterStack x)
    then show ?thesis using 8 seq_jitter.track_elapsed [OF 8(1), of x hz e] by (auto simp: map_prod_eq)
  qed simp_all
next
  case (9 c s got s')
  then show ?case
  proof (cases s)
    case (LinearStack x)
    then show ?thesis using 9 seq_default.track_acquire [OF 9(1), of x hz got] by (auto simp: map_prod_eq)
  next
    case (BurstStack x)
    then show ?thesis using 9 seq_burst.track_acquire [OF 9(1), of x hz got] by (auto simp: map_prod_eq)
  next
    case (JitterStack x)
    then show ?thesis using 9 seq_jitter.track_acquire [OF 9(1), of x hz got] by (auto simp: map_prod_eq)
  qed simp_all
next
  case (10 c s s')
  then show ?case
  proof (cases s)
    case (LinearStack x)
    then show ?thesis using 10 seq_default.track_release [OF 10(1), of x hz] by (auto simp: map_sum_Inr_eq)
  next
    case (BurstStack x)
    then show ?thesis using 10 seq_burst.track_release [OF 10(1), of x hz] by (auto simp: map_sum_Inr_eq)
  next
    case (JitterStack x)
    then show ?thesis using 10 seq_jitter.track_release [OF 10(1), of x hz] by (auto simp: map_sum_Inr_eq)
  qed simp_all
qed

text \<open>
  What a stack on schedule has handed out is not negative and at most what its linear limiter counts.
\<close>

lemma built_held_linear:
  assumes "built_invar stack" "built_on_schedule hz t stack" "built_linear stack = Some l"
  shows "0 \<le> built_held stack" "built_held stack \<le> linear_held l"
    "linear_invar l" "linear_on_schedule t l" "hertz (lin_frequency l) = hz"
proof -
  have "0 \<le> built_held stack \<and> built_held stack \<le> linear_held l
      \<and> linear_invar l \<and> linear_on_schedule t l \<and> hertz (lin_frequency l) = hz"
    using assms
  proof (cases stack)
    case (LinearStack x)
    then show ?thesis using assms by (cases x) (auto simp: sched_invar_def sched_held_def sched_on_schedule_def linear_held_def)
  next
    case (BurstStack x)
    then show ?thesis using assms burst_count_nonneg [of "fst x"]
      by (cases x) (auto simp: sched_invar_def sched_held_def sched_on_schedule_def burst_on_schedule_def split: if_splits)
  next
    case (JitterStack x)
    then show ?thesis using assms
      by (cases x) (auto simp: sched_invar_def sched_held_def sched_on_schedule_def jitter_on_schedule_def deleg_invar_def deleg_held_def)
  qed simp_all
  then show "0 \<le> built_held stack" "built_held stack \<le> linear_held l"
    "linear_invar l" "linear_on_schedule t l" "hertz (lin_frequency l) = hz" by blast+
qed

text \<open>
  A sequencer is on pace if it has initiated as many requests as its stack has handed out, and no more
  than the ideal schedule of the rate allows since the linear limiter was first asked.
\<close>

definition on_pace :: "nat \<Rightarrow> ('p built_limiter, 'w) Sequencer \<Rightarrow> bool" where
  "on_pace hz s \<longleftrightarrow> (case built_linear (limiter s) of
     None \<Rightarrow> False
   | Some l \<Rightarrow> uint (targets_initiated s) = built_held (limiter s)
       \<and> (case RateLimiterBase.start_time (lin_base l) of
            None \<Rightarrow> targets_initiated s = 0
          | Some t0 \<Rightarrow> of_int (uint (targets_initiated s))
              \<le> ideal_schedule (monotonicTime (cached_time s) - t0) hz * (1 + 2 powi (-50))))"

lemma built_on_pace:
  assumes "seq_ok built_invar (built_on_schedule hz) s" "balance built_held s = 0"
  shows "on_pace (unat hz) s"
proof -
  let ?t = "monotonicTime (cached_time s)"
  have s: "built_invar (limiter s)" "built_on_schedule hz ?t (limiter s)" using assms(1) by (simp_all add: seq_ok_def)
  then obtain l where l: "built_linear (limiter s) = Some l" by (cases "limiter s") auto
  note h = built_held_linear [OF s l]
  have "targets_initiated s = word_of_int (built_held (limiter s))" using assms(2) by (simp add: balance_def)
  moreover have "built_held (limiter s) \<le> 2 ^ 62" using s(1) by (rule built.held_bounded)
  ultimately have initiated: "uint (targets_initiated s) = built_held (limiter s)"
    using h(1) by (simp add: uint_word_of_int)
  show ?thesis
  proof (cases "RateLimiterBase.start_time (lin_base l)")
    case None
    then have "linear_held l = 0" using h(4) by (simp add: linear_on_schedule_def)
    then have "targets_initiated s = 0" using initiated h(1,2) by (simp add: uint_0_iff)
    then show ?thesis using None initiated l by (simp add: on_pace_def)
  next
    case (Some t0)
    have "of_int (linear_held l) \<le> ideal_schedule (?t - t0) (unat hz) * (1 + 2 powi (-50))"
      using linear_on_schedule_bound [OF h(3,4) Some] h(5) by simp
    moreover have "(of_int (uint (targets_initiated s)) :: rat) \<le> of_int (linear_held l)"
      using initiated h(2) by simp
    ultimately show ?thesis using Some initiated l by (simp add: on_pace_def)
  qed
qed

lemma fresh_built:
  assumes "0 < opt_requests_per_second opts" "opt_rate_limiter_plugin_config opts = None"
    "opt_burst_size opts = 0 \<or> opt_jitter_uniform opts \<le> 0" "opt_jitter_uniform opts < 2 ^ 62"
  shows "\<exists>stack. create_rate_limiter reg eng opts t = Inr stack \<and> built_invar stack \<and> built_held stack = 0
    \<and> (\<forall>t. built_on_schedule (ucast (opt_requests_per_second opts)) t stack)"
proof -
  let ?hz = "ucast (opt_requests_per_second opts) :: u64" and ?sc = "new_ScheduledStartingRateLimiter t"
  have hz: "0 < unat ?hz" "unat ?hz < 2 ^ 32"
    using assms(1) unat_lt2p [of "opt_requests_per_second opts"] by (simp_all add: word_less_nat_alt)
  then obtain l where l: "new_LinearRateLimiter (make_Frequency ?hz) = Inr l"
    by (auto simp: new_LinearRateLimiter_def make_Frequency_def word_le_nat_alt)
  note lin = fresh_default [OF hz l, where sc = ?sc]
  have bst: "built_invar (BurstStack (new_BurstingRateLimiter (ucast (opt_burst_size opts)), (?sc, l)))
      \<and> built_held (BurstStack (new_BurstingRateLimiter (ucast (opt_burst_size opts)), (?sc, l)) :: 'a built_limiter) = 0
      \<and> (\<forall>t. built_on_schedule ?hz t (BurstStack (new_BurstingRateLimiter (ucast (opt_burst_size opts)), (?sc, l)) :: 'a built_limiter))"
    if "ucast (opt_burst_size opts) \<noteq> (0 :: u64)"
    using lin that by (simp add: new_BurstingRateLimiter_def burst_count_def burst_limit_def burst_held_def burst_on_schedule_def)
      (metis order_le_less uint_0_iff uint_ge_0)
  have "nat (uint (word_of_int (opt_jitter_uniform opts) :: u64)) < 2 ^ 62" if "0 < opt_jitter_uniform opts"
    using that assms(4) by (simp add: uint_word_of_int)
  then have "unat (word_of_int (opt_jitter_uniform opts) :: u64) < 2 ^ 62" if "0 < opt_jitter_uniform opts"
    using that by (simp only: unat_eq_nat_uint)
  then have jit: "built_invar (JitterStack (uniform_jitter eng (opt_jitter_uniform opts), (?sc, l)))
      \<and> built_held (JitterStack (uniform_jitter eng (opt_jitter_uniform opts), (?sc, l)) :: 'a built_limiter) = 0
      \<and> (\<forall>t. built_on_schedule ?hz t (JitterStack (uniform_jitter eng (opt_jitter_uniform opts), (?sc, l)) :: 'a built_limiter))"
    if "0 < opt_jitter_uniform opts"
    using lin that by (simp add: uniform_jitter_def new_DelegatingRateLimiter_def deleg_invar_def deleg_held_def
        jitter_ok_def jitter_on_schedule_def)
  consider (burst) "ucast (opt_burst_size opts) \<noteq> (0 :: u64)" "opt_jitter_uniform opts \<le> 0"
    | (jitter) "ucast (opt_burst_size opts) = (0 :: u64)" "0 < opt_jitter_uniform opts"
    | (plain) "ucast (opt_burst_size opts) = (0 :: u64)" "opt_jitter_uniform opts \<le> 0"
    using assms(3) by fastforce
  then show ?thesis
  proof cases
    case burst
    then show ?thesis
      using bst assms(2) l
      by (intro exI conjI) (simp add: create_rate_limiter_def Let_def, blast, blast, blast)
  next
    case jitter
    then show ?thesis
      using jit assms(2) l by (intro exI conjI) (simp add: create_rate_limiter_def Let_def, blast, blast, blast)
  next
    case plain
    then show ?thesis
      using lin assms(2) l by (intro exI [of _ "LinearStack (?sc, l)"]) (simp add: create_rate_limiter_def Let_def)
  qed
qed

text \<open>
  C31. From options to a running sequencer. For every rate, start time, idle strategy, set of predicates,
  and burst size or jitter, the factory builds a sequencer. In each state it can reach, every activation
  returns without a failed release, and before and after it the requests initiated are exactly the
  acquisitions the limiter stack has handed out and at most what the ideal schedule of the rate allows.
  The target may complete requests before it returns. Not covered are rate limiter plugins, and jitter on
  top of bursts.
\<close>

theorem factory_sequencer_runs:
  assumes opts: "0 < opt_requests_per_second opts" "opt_rate_limiter_plugin_config opts = None"
    "opt_burst_size opts = 0 \<or> opt_jitter_uniform opts \<le> 0" "opt_jitter_uniform opts < 2 ^ 62"
    and orderly: "orderly_calls tgt"
  shows "\<exists>D s0. SequencerFactory_create reg P eng opts c0 tgt counts preds t w = Inr (D, s0)
    \<and> (\<forall>s c from_periodic_timer. seq_reach D (limiter s0) s \<longrightarrow> clock_ok c
        \<longrightarrow> monotonicTime (cached_time s) \<le> monotonicTime c
        \<longrightarrow> on_pace (unat (opt_requests_per_second opts)) s
          \<and> (\<exists>s'. Sequencer_run D from_periodic_timer c s = Some (Inr s')
               \<and> on_pace (unat (opt_requests_per_second opts)) s'))"
proof -
  let ?hz = "ucast (opt_requests_per_second opts) :: u64"
  obtain stack where st: "create_rate_limiter reg eng opts t = Inr stack" "built_invar stack" "built_held stack = 0"
      "\<And>t. built_on_schedule ?hz t stack"
    using fresh_built [OF opts] by blast
  define D where "D = \<lparr>try_acquire = built_try P, release_one = built_release P, limiter_elapsed = built_elapsed P,
      target = tgt, stat_counters = counts, predicates = preds, idle = idle_strategy_of (opt_sequencer_idle_strategy opts)\<rparr>"
  have D: "driven_by (built_try P) (built_release P) (built_elapsed P) D"
    using orderly by (simp add: driven_by_def D_def orderly_target_def)
  have "on_pace (unat ?hz) s \<and> (\<exists>s'. Sequencer_run D fp c s = Some (Inr s') \<and> on_pace (unat ?hz) s')"
    if "seq_reach D stack s" "clock_ok c" "monotonicTime (cached_time s) \<le> monotonicTime c" for s c fp
  proof -
    have inv: "seq_ok built_invar (built_on_schedule ?hz) s" "balance built_held s = 0"
      using built.seq_reach_inv [OF D st(2,4) that(1)] st(3) by auto
    note returns = built.run_returns [OF D inv(1) that(2,3), of fp]
    then obtain s' where "Sequencer_run D fp c s = Some (Inr s')" "seq_ok built_invar (built_on_schedule ?hz) s'"
        "balance built_held s' = 0"
      using inv(2) by metis
    then show ?thesis using built_on_pace inv by blast
  qed
  then show ?thesis
    using st(1) by (intro exI [of _ D] exI [of _ "new_Sequencer c0 stack w"])
      (simp add: SequencerFactory_create_def D_def new_Sequencer_def)
qed

definition idle_plugin :: "unit limiter_plugin_ops" where
  "idle_plugin = \<lparr>plugin_try = (\<lambda>_ p. (False, p)), plugin_release = (\<lambda>_. Inr), plugin_elapsed = (\<lambda>_ p. (0, p))\<rparr>"

theorem factory_sequencer_runs_witness:
  "opt_burst_size (plain_options\<lparr>opt_burst_size := 7\<rparr>) = 7
   \<and> (\<exists>D s0. SequencerFactory_create (\<lambda>_. Inl (EnvoyException [])) idle_plugin (\<lambda>_. 0)
          (plain_options\<lparr>opt_burst_size := 7\<rparr>) (clock_at 0) (\<lambda>c (w :: unit). (True, [c], w)) (\<lambda>_ _. 0) [] 0 () = Inr (D, s0)
        \<and> (\<forall>s c from_periodic_timer. seq_reach D (limiter s0) s \<longrightarrow> clock_ok c
            \<longrightarrow> monotonicTime (cached_time s) \<le> monotonicTime c
            \<longrightarrow> on_pace (unat (opt_requests_per_second (plain_options\<lparr>opt_burst_size := 7\<rparr>))) s
              \<and> (\<exists>s'. Sequencer_run D from_periodic_timer c s = Some (Inr s')
                   \<and> on_pace (unat (opt_requests_per_second (plain_options\<lparr>opt_burst_size := 7\<rparr>))) s')))"
  by (intro conjI factory_sequencer_runs)
    (simp_all add: plain_options_def setNonTrivialDefaults_def initial_options_def orderly_calls_def)

end
