(* ===== verification/ClientSlots.thy ===== *)
theory ClientSlots
  imports BenchmarkClient
begin

text \<open>
  What a benchmark client guarantees about the requests it starts: the accounting of
  \<open>BenchmarkClient\<close> holds in every run, and the closed loop implements a table of slots.
\<close>

section \<open>Slots\<close>

text \<open>
  The abstract view of the closed loop: a table with a fixed number of slots. A request takes one; a
  request that ends frees it, and one that the pool fails loses it for good.
\<close>

record slot_table =
  slot_limit :: nat
  slots_taken :: nat
  slots_lost :: nat

inductive slot_step :: "slot_table \<Rightarrow> slot_table \<Rightarrow> bool" where
  take_slot: "slots_taken s + slots_lost s < slot_limit s \<Longrightarrow> slot_step s (s\<lparr>slots_taken := slots_taken s + 1\<rparr>)"
| free_slot: "0 < slots_taken s \<Longrightarrow> slot_step s (s\<lparr>slots_taken := slots_taken s - 1\<rparr>)"
| lose_slot: "0 < slots_taken s
    \<Longrightarrow> slot_step s (s\<lparr>slots_taken := slots_taken s - 1, slots_lost := slots_lost s + 1\<rparr>)"

definition slots :: "('h, 'g, 'p) BenchmarkClient \<Rightarrow> slot_table" where
  "slots c = \<lparr>slot_limit = unat (max_in_flight c), slots_taken = in_flight c, slots_lost = leaked c\<rparr>"

lemma slot_steps_bound:
  assumes "slot_step\<^sup>*\<^sup>* s s'" "slots_taken s + slots_lost s \<le> slot_limit s"
  shows "slots_taken s' + slots_lost s' \<le> slot_limit s' \<and> slot_limit s' = slot_limit s \<and> slots_lost s \<le> slots_lost s'"
  using assms by induction (auto elim!: slot_step.cases)

lemma in_flight_remove:
  assumes "client_accounts c" "i \<in> dom (decoders c)" "decoders c' = (decoders c)(i := None)"
  shows "in_flight c' = in_flight c - 1" "0 < in_flight c"
proof -
  have fin: "finite (dom (decoders c))"
    using assms(1) unfolding client_accounts_def by (metis finite_Un finite_lessThan)
  have "dom (decoders c') = dom (decoders c) - {i}" using assms(3) by auto
  then show "in_flight c' = in_flight c - 1" "0 < in_flight c"
    using assms(2) fin by (auto simp: in_flight_def card_gt_0_iff)
qed

lemma transition_slots:
  assumes t: "decoder_transition i c c'" and "client_accounts c" "i \<in> dom (decoders c)"
  shows "slot_step\<^sup>*\<^sup>* (slots c) (slots c')"
proof -
  have limit: "max_in_flight c' = max_in_flight c" using t by (auto simp: decoder_transition_def settings_def)
  consider (kept) d where "decoders c' = (decoders c)(i := Some d)" "callbacks c' = callbacks c"
    | (gone) k where "decoders c' = (decoders c)(i := None)" "callbacks c' = callbacks c @ [(i, k)]"
    using t unfolding decoder_transition_def by blast
  then show ?thesis
  proof cases
    case kept
    then have "slots c' = slots c"
      using assms(3) limit by (auto simp: slots_def in_flight_def leaked_def insert_absorb)
    then show ?thesis by simp
  next
    case gone
    note f = in_flight_remove [OF assms(2,3) gone(1)]
    have "slots c' = (slots c)\<lparr>slots_taken := slots_taken (slots c) - 1,
        slots_lost := slots_lost (slots c) + (if k = PoolFailureCallback then 1 else 0)\<rparr>"
      using f limit ended_leaked_snoc(2) [OF gone(2)] by (simp add: slots_def)
    then have "slot_step (slots c) (slots c')"
      using slot_step.lose_slot [of "slots c"] slot_step.free_slot [of "slots c"] f(2)
      by (cases "k = PoolFailureCallback") (simp_all add: slots_def)
    then show ?thesis by simp
  qed
qed

text \<open>What the code compares with the limit is the number of slots taken or lost.\<close>

lemma outstanding_slots:
  assumes "client_accounts c"
  shows "requests_initiated c - requests_completed c = of_nat (in_flight c + leaked c)"
proof -
  have "streams_created c = card (dom (decoders c) \<union> fst ` set (callbacks c))"
    using assms by (simp add: client_accounts_def)
  also have "\<dots> = in_flight c + length (callbacks c)"
    using assms unfolding client_accounts_def in_flight_def
    by (subst card_Un_disjoint) (metis finite_Un finite_lessThan, simp_all, metis distinct_card length_map set_map)
  also have "length (callbacks c) = ended c + leaked c"
    using sum_length_filter_compl [of "\<lambda>(_, k). k \<noteq> PoolFailureCallback" "callbacks c"]
    by (simp add: ended_def leaked_def case_prod_unfold)
  finally show ?thesis using assms by (simp add: client_accounts_def)
qed

definition follows :: "('h, 'g, 'p) BenchmarkClient \<Rightarrow> ('h, 'g, 'p) BenchmarkClient \<Rightarrow> bool" where
  "follows c0 c \<longleftrightarrow> client_accounts c \<and> settings c = settings c0
     \<and> (provide_resource_backpressure c0 \<longrightarrow> slot_step\<^sup>*\<^sup>* (slots c0) (slots c))"

lemma deliver_follows: "keeps (follows c0) (deliver E i ev)"
proof (rule keepsI)
  fix c c' assume d: "deliver E i ev c = Inr c'" and f: "follows c0 c"
  note t = deliver_transition [OF d]
  have "settings c' = settings c" using t(2) by (auto simp: decoder_transition_def)
  then show "follows c0 c'"
    using f transition_accounts [OF t(2) _ t(1)] transition_slots [OF t(2) _ t(1)]
    by (auto simp: follows_def intro: rtranclp_trans)
qed

text \<open>A client with a decoder created for a new request.\<close>

lemma created_follows:
  assumes f: "follows c0 c" and c0: "slots_taken (slots c0) + slots_lost (slots c0) \<le> slot_limit (slots c0)"
    and guard: "provide_resource_backpressure c \<Longrightarrow> requests_initiated c - requests_completed c < max_in_flight c"
    and c': "decoders c' = (decoders c)(streams_created c := Some d)" "streams_created c' = Suc (streams_created c)"
      "requests_initiated c' = requests_initiated c + 1" "requests_completed c' = requests_completed c"
      "callbacks c' = callbacks c" "bc_counters c' = bc_counters c" "bc_statistic c' = bc_statistic c"
      "settings c' = settings c"
  shows "follows c0 c'"
proof -
  have acc: "client_accounts c" using f by (simp add: follows_def)
  have new: "streams_created c \<notin> dom (decoders c)" "finite (dom (decoders c))"
    using acc unfolding client_accounts_def by (blast, metis finite_Un finite_lessThan)
  have dom: "dom (decoders c') = insert (streams_created c) (dom (decoders c))" using c'(1) by auto
  have same: "ended c' = ended c" "leaked c' = leaked c" using c'(5) by (simp_all add: ended_def leaked_def)
  have "client_accounts c'"
    using acc c' same unfolding client_accounts_def dom by (auto simp: lessThan_Suc)
  moreover have "slot_step (slots c) (slots c')"
    if bp: "provide_resource_backpressure c0" and "slot_step\<^sup>*\<^sup>* (slots c0) (slots c)"
  proof -
    have lim: "max_in_flight c = max_in_flight c0" "max_in_flight c' = max_in_flight c" "provide_resource_backpressure c"
      using f c'(8) bp by (simp_all add: follows_def settings_def)
    have "in_flight c + leaked c \<le> unat (max_in_flight c)"
      using slot_steps_bound [OF that(2) c0] by (simp add: slots_def)
    then have "unat (of_nat (in_flight c + leaked c) :: u64) = in_flight c + leaked c"
      using unat_lt2p [of "max_in_flight c"] by (simp add: unat_of_nat del: of_nat_add)
    then have "in_flight c + leaked c < unat (max_in_flight c)"
      using guard [OF lim(3)] unfolding outstanding_slots [OF acc] word_less_nat_alt by simp
    moreover have "in_flight c' = in_flight c + 1" using new by (simp add: in_flight_def dom)
    ultimately show ?thesis
      using slot_step.take_slot [of "slots c"] lim(2) same(2) by (simp add: slots_def)
  qed
  ultimately show ?thesis
    using f c'(8) unfolding follows_def by (auto intro: rtranclp.rtrancl_into_rtrancl)
qed

lemma unrelated_fields [simp]:
  "settings (c\<lparr>generator_state := g\<rparr>) = settings c" "books (c\<lparr>generator_state := g\<rparr>) = books c"
  "settings (c\<lparr>measure_latencies := b\<rparr>) = settings c" "books (c\<lparr>measure_latencies := b\<rparr>) = books c"
  "settings (c\<lparr>streams_created := n\<rparr>) = settings c" "settings (c\<lparr>requests_initiated := w\<rparr>) = settings c"
  "settings (c\<lparr>decoders := m\<rparr>) = settings c"
  by (simp_all add: settings_def books_def max_in_flight_def)

lemma follows_same:
  assumes "follows c0 c" "decoders c' = decoders c" "callbacks c' = callbacks c" "books c' = books c" "settings c' = settings c"
  shows "follows c0 c'"
proof -
  have "ended c' = ended c" "slots c' = slots c"
    using assms(2-5) by (simp_all add: ended_def slots_def in_flight_def leaked_def settings_def)
  then show ?thesis
    using assms unfolding follows_def client_accounts_def books_def prod.inject by simp
qed

lemma start_follows:
  assumes start: "tryStartRequest E pool now inside c = Inr (started, c')" and f: "follows c0 c"
    and c0: "slots_taken (slots c0) + slots_lost (slots c0) \<le> slot_limit (slots c0)"
  shows "follows c0 c'"
proof (cases "pool \<and> \<not> (provide_resource_backpressure c
    \<and> max_in_flight c \<le> requests_initiated c - requests_completed c)")
  case False
  then have "tryStartRequest E pool now inside c = Inr (False, c)" by (auto simp: tryStartRequest_def)
  then show ?thesis using start f by simp
next
  case go: True
  obtain req g where gen: "request_generator E (generator_state c) = (req, g)" by fastforce
  have g: "follows c0 (c\<lparr>generator_state := g\<rparr>)" by (rule follows_same [OF f]) simp_all
  show ?thesis
  proof (cases req)
    case None
    then show ?thesis using start go gen g by (auto simp: tryStartRequest_def Let_def)
  next
    case (Some r)
    let ?i = "streams_created c"
    let ?d = "new_StreamDecoder now r (measure_latencies c) (ucast (request_content_length (env_headers E) r))
      (latency_response_header_name c)"
    let ?c = "(set_decoder ?i ?d (c\<lparr>generator_state := g, streams_created := Suc ?i\<rparr>))"
    let ?c1 = "?c\<lparr>requests_initiated := requests_initiated ?c + 1\<rparr>"
    have "map_sum id (Pair True) (run_steps (map (deliver E ?i) inside) ?c1) = Inr (started, c')"
      using start go gen Some by (auto simp: tryStartRequest_def Let_def)
    then have run: "run_steps (map (deliver E ?i) inside) ?c1 = Inr c'"
      by (cases "run_steps (map (deliver E ?i) inside) ?c1") auto
    have f1: "follows c0 ?c1"
      by (rule created_follows [OF g c0, where d = ?d]) (use go in \<open>auto simp: set_decoder_def max_in_flight_def\<close>)
    have "keeps (follows c0) (run_steps (map (deliver E ?i) inside))"
      by (rule run_steps_keeps) (simp add: list_all_iff deliver_follows)
    from keepsD [OF this run f1] show ?thesis .
  qed
qed

lemma reach_follows:
  assumes "client_reach E c0 c" "client_accounts c0"
    "slots_taken (slots c0) + slots_lost (slots c0) \<le> slot_limit (slots c0)"
  shows "follows c0 c"
  using assms(1)
proof induction
  case initial
  then show ?case using assms(2) by (simp add: follows_def)
next
  case (stepped c c')
  from stepped(2) show ?case
  proof cases
    case (start pool now inside started)
    then show ?thesis using start_follows stepped(3) assms(3) by blast
  next
    case (event i ev)
    then show ?thesis using keepsD [OF deliver_follows] stepped(3) by blast
  next
    case (measuring b)
    then show ?thesis
      using follows_same [OF stepped(3)] by (simp add: setShouldMeasureLatencies_def)
  qed
qed

lemma fresh_follows:
  assumes "fresh_client c0" "client_reach E c0 c"
  shows "follows c0 c" "in_flight c0 = 0" "leaked c0 = 0"
proof -
  show z: "in_flight c0 = 0" "leaked c0 = 0"
    using assms(1) by (simp_all add: fresh_client_def in_flight_def leaked_def dom_def)
  show "follows c0 c"
    by (rule reach_follows [OF assms(2) fresh_accounts [OF assms(1)]]) (simp add: slots_def z)
qed

lemma fresh_bound:
  assumes "fresh_client c0" "client_reach E c0 c" "provide_resource_backpressure c0"
  shows "slot_step\<^sup>*\<^sup>* (slots c0) (slots c)" "in_flight c + leaked c \<le> unat (max_in_flight c0)"
    "settings c = settings c0"
proof -
  note f = fresh_follows [OF assms(1,2)]
  show s: "slot_step\<^sup>*\<^sup>* (slots c0) (slots c)" and set: "settings c = settings c0"
    using f(1) assms(3) by (simp_all add: follows_def)
  show "in_flight c + leaked c \<le> unat (max_in_flight c0)"
    using slot_steps_bound [OF s] f(2,3) by (simp add: slots_def)
qed

lemma full_of_lost:
  assumes "fresh_client c0" "client_reach E c0 c" "provide_resource_backpressure c0"
    "leaked c = unat (max_in_flight c0)"
  shows "tryStartRequest E pool now inside c = Inr (False, c)"
proof -
  have f: "client_accounts c" "settings c = settings c0" "in_flight c + leaked c \<le> unat (max_in_flight c0)"
    using fresh_follows(1) [OF assms(1,2)] fresh_bound [OF assms(1-3)] by (simp_all add: follows_def)
  then have "requests_initiated c - requests_completed c = max_in_flight c"
    using outstanding_slots [OF f(1)] f(2) assms(4) by (simp add: settings_def)
  moreover have "provide_resource_backpressure c" using f(2) assms(3) by (simp add: settings_def)
  ultimately show ?thesis by (simp add: tryStartRequest_def)
qed

text \<open>
  A closed loop with two slots whose pool overflows at the first two requests, and one whose first
  request gets a response while its second one is waiting.
\<close>

definition demo_client_env :: "((string \<times> string) list, unit, unit) client_env" where
  "demo_client_env = \<lparr>env_headers = assoc_headers, byteSize = (\<lambda>_. 10), getResponseStatus = (\<lambda>_. 200),
     request_generator = (\<lambda>g. (Some \<lparr>request_header = [], request_body = []\<rparr>, g)),
     plugin_handleHeaders = (\<lambda>p _. (OkStatus, p)), plugin_handleData = (\<lambda>p _. (OkStatus, p)),
     plugin_getPerWorkerOutput = (\<lambda>_. Inr []), status_ToString = message\<rparr>"

definition demo_client :: "((string \<times> string) list, unit, unit) BenchmarkClient" where
  "demo_client = new_BenchmarkClient Http11 () True [] []"

definition demo_attempt ::
    "(string \<times> string) list stream_event list \<Rightarrow> ((string \<times> string) list, unit, unit) BenchmarkClient
      \<Rightarrow> ((string \<times> string) list, unit, unit) BenchmarkClient" where
  "demo_attempt inside c = (case tryStartRequest demo_client_env True 0 inside c of Inr (_, c') \<Rightarrow> c' | Inl _ \<Rightarrow> c)"

lemma demo_attempt_reach:
  assumes "client_reach demo_client_env demo_client c"
  shows "client_reach demo_client_env demo_client (demo_attempt inside c)"
proof (cases "tryStartRequest demo_client_env True 0 inside c")
  case (Inr r)
  then show ?thesis
    using assms by (cases r) (auto simp: demo_attempt_def intro: client_reach.stepped client_step.start)
qed (simp add: demo_attempt_def assms)

lemmas client_evaluation = demo_attempt_def demo_client_env_def demo_client_def new_BenchmarkClient_def
  tryStartRequest_def max_in_flight_def request_content_length_def assoc_headers_def set_decoder_def
  new_StreamDecoder_def deliver_def StreamDecoder_onPoolFailure_def finish_decoder_def
  BenchmarkClient_onPoolFailure_def onPoolReady_def decodeHeaders_def StreamDecoder_onComplete_def
  BenchmarkClient_onComplete_def record_latency_def count_status_def origin_delta_def
  zero_counters_def empty_statistic_def

abbreviation "demo_starved \<equiv> demo_attempt [PoolFailed PoolOverflow] (demo_attempt [PoolFailed PoolOverflow] demo_client)"

abbreviation "demo_served \<equiv> demo_attempt [] (demo_attempt [PoolReady 5, ResponseHeaders [] True 9 9] demo_client)"

lemma demo_client_facts:
  "fresh_client demo_client" "provide_resource_backpressure demo_client" "unat (max_in_flight demo_client) = 2"
  "client_reach demo_client_env demo_client demo_starved" "client_reach demo_client_env demo_client demo_served"
  by (simp_all add: demo_attempt_reach client_reach.initial)
    (simp_all add: fresh_client_def books_def responses_counted_def latencies_by_class_def client_evaluation)

lemma demo_client_values:
  "leaked demo_starved = 2" "ended demo_served = 1" "streams_created demo_served = 2" "leaked demo_served = 0"
  "http_2xx (bc_counters demo_served) = 1"
  by (simp_all add: client_evaluation leaked_def ended_def Let_def word_le_nat_alt)

section \<open>Properties\<close>

text \<open>
  C28. Every request is accounted for. Whatever Envoy delivers and in whatever order, the completion
  callback of a request is called at most once, a request has a live decoder exactly until its callback,
  and the counters (requests initiated and completed, responses by status class and resets, body sizes
  and latencies) agree with the number of requests created and ended.
\<close>

theorem client_keeps_accounts:
  assumes "fresh_client c0" "client_reach E c0 c"
  shows "client_accounts c"
  using fresh_follows(1) [OF assms] by (simp add: follows_def)

theorem client_keeps_accounts_witness:
  "requests_initiated demo_served = 2 \<and> requests_completed demo_served = 1
   \<and> responses_counted (bc_counters demo_served) = 1 \<and> dom (decoders demo_served) \<union> fst ` set (callbacks demo_served) = {0, 1}"
  using client_keeps_accounts [OF demo_client_facts(1,5)] demo_client_values
  by (auto simp: client_accounts_def lessThan_Suc numeral_2_eq_2)

text \<open>
  C29. The closed loop is a table of slots. A client that provides backpressure implements the abstract
  table: each of its steps is a sequence of takes, frees and losses of a slot, so the requests in flight
  and the pool failures so far never exceed the limit together.
\<close>

theorem client_refines_slots:
  assumes "fresh_client c0" "provide_resource_backpressure c0" "client_reach E c0 c"
  shows "slot_step\<^sup>*\<^sup>* (slots c0) (slots c) \<and> in_flight c + leaked c \<le> unat (max_in_flight c0)"
  using fresh_bound(1,2) [OF assms(1,3,2)] by blast

theorem client_refines_slots_witness:
  "in_flight demo_served + leaked demo_served \<le> 2
   \<and> slot_step\<^sup>*\<^sup>* \<lparr>slot_limit = 2, slots_taken = 0, slots_lost = 0\<rparr> (slots demo_served)"
proof -
  have "slots demo_client = \<lparr>slot_limit = 2, slots_taken = 0, slots_lost = 0\<rparr>"
    using demo_client_facts(1,3) by (simp add: slots_def fresh_client_def in_flight_def leaked_def dom_def)
  then show ?thesis using client_refines_slots [OF demo_client_facts(1,2,5)] demo_client_facts(3) by simp
qed

text \<open>
  C30. Pool failures starve the closed loop: a slot lost to a pool failure is never given back, so once
  there have been as many pool failures as slots, the client refuses every further request.
\<close>

theorem pool_failures_starve:
  assumes "fresh_client c0" "provide_resource_backpressure c0" "client_reach E c0 c"
    "leaked c = unat (max_in_flight c0)" "client_reach E c c'"
  shows "tryStartRequest E pool now inside c' = Inr (False, c')"
proof -
  have reach: "client_reach E c0 c'"
    using assms(5,3) by induction (auto intro: client_reach.stepped)
  note b = fresh_bound [OF assms(1,3,2)]
  have "follows c c'"
    using fresh_follows(1) [OF assms(1,3)] b(2,3)
    by (intro reach_follows [OF assms(5)]) (simp_all add: follows_def slots_def settings_def)
  then have "slot_step\<^sup>*\<^sup>* (slots c) (slots c')" "max_in_flight c' = max_in_flight c"
    using b(3) assms(2) by (simp_all add: follows_def settings_def)
  then have "leaked c \<le> leaked c'"
    using slot_steps_bound [of "slots c" "slots c'"] b(2,3) by (simp add: slots_def settings_def)
  then have "leaked c' = unat (max_in_flight c0)"
    using fresh_bound(2) [OF assms(1) reach assms(2)] assms(4) by simp
  then show ?thesis by (rule full_of_lost [OF assms(1) reach assms(2)])
qed

theorem pool_failures_starve_witness:
  "tryStartRequest demo_client_env True 7 [] demo_starved = Inr (False, demo_starved)"
  by (rule pool_failures_starve [OF demo_client_facts(1,2,4) _ client_reach.initial])
    (simp add: demo_client_values demo_client_facts(3))

end
