(* ===== verification/Bootstrap.thy ===== *)
theory Bootstrap
  imports Factories ClientSlots
begin

text \<open>
  The configuration of Envoy (\<^verbatim>\<open>source/client/process_bootstrap.{h,cc}\<close>): the clusters of the workers,
  the configuration of the encapsulating proxy used for tunnels and the runner of its process.

  A protobuf message is a record of the fields that the code sets; a message packed into an \<^verbatim>\<open>Any\<close> is
  the message itself. What is not looked into (TLS contexts, stats sinks) is opaque, and protobuf's
  setters on it are parameters, as is the printing of an IP address.
\<close>

section \<open>Messages\<close>

datatype HttpConfig =
    Http1Config
  | Http2Config "u32 option" "bool option"
  | Http3Config "u32 option"
  | Http3Given opaque

record HttpProtocolOptions =
  hp_max_requests_per_connection :: "u32 option"
  explicit_http_config :: HttpConfig

record Thresholds =
  thr_max_retries :: u32
  thr_max_connections :: u32
  thr_max_pending_requests :: u32
  thr_max_requests :: u32

datatype socket_config = UpstreamTlsContext opaque | QuicUpstreamTransport opaque

datatype TransportSocket = GivenSocket opaque | NamedSocket string socket_config

text \<open>All clusters are of type \<^verbatim>\<open>STATIC\<close>.\<close>

record Cluster =
  cluster_name :: string
  connect_timeout_seconds :: int
  http_protocol_options :: "HttpProtocolOptions option"
  circuit_breakers :: "Thresholds list"
  assignment_name :: string
  lb_endpoints :: "(string \<times> u32) list"
  transport_socket :: "TransportSocket option"

record Bootstrap =
  clusters :: "Cluster list"
  stats_sinks :: "opaque list"
  stats_flush_interval :: proto_duration
  upstream_bind_config :: "opaque option"

record 'addr bootstrap_env =
  be_extract :: "string \<Rightarrow> string \<times> string"
  be_addressAsString :: "'addr \<Rightarrow> string"
  be_set_sni :: "string \<Rightarrow> opaque \<Rightarrow> opaque"
  be_add_alpn :: "string \<Rightarrow> opaque \<Rightarrow> opaque"

section \<open>Clusters\<close>

text \<open>A loop that adds a result for every element and stops at the first exception.\<close>

fun for_each :: "('a \<Rightarrow> failure + 'b) \<Rightarrow> 'a list \<Rightarrow> failure + 'b list" where
  "for_each f [] = Inr []"
| "for_each f (x # xs) = (case f x of Inl e \<Rightarrow> Inl e | Inr y \<Rightarrow> map_sum id ((#) y) (for_each f xs))"

definition addUriToEndpoints :: "'addr bootstrap_env \<Rightarrow> 'addr Uri \<Rightarrow> failure + (string \<times> u32)" where
  "addUriToEndpoints E uri =
     (case address uri of
        None \<Rightarrow> Inl (UndefinedBehaviour ''uri.address() is null'')
      | Some a \<Rightarrow> Inr (be_addressAsString E a, ucast (port uri)))"

definition createRequestSourceClusterForWorker ::
    "'addr bootstrap_env \<Rightarrow> Options \<Rightarrow> 'addr Uri \<Rightarrow> int \<Rightarrow> failure + Cluster" where
  "createRequestSourceClusterForWorker E opts request_source_uri worker_number =
     (let name = show_int worker_number @ ''.requestsource''
      in map_sum id
           (\<lambda>ep. \<lparr>cluster_name = name, connect_timeout_seconds = uint (opt_timeout opts),
                  http_protocol_options = Some \<lparr>hp_max_requests_per_connection = None,
                    explicit_http_config = Http2Config None None\<rparr>,
                  circuit_breakers = [], assignment_name = name, lb_endpoints = [ep], transport_socket = None\<rparr>)
           (addUriToEndpoints E request_source_uri))"

text \<open>Reading \<^verbatim>\<open>uris[0]\<close> of an empty vector is undefined.\<close>

definition needTransportSocket :: "Options \<Rightarrow> 'addr Uri list \<Rightarrow> failure + bool" where
  "needTransportSocket opts uris =
     (case uris of
        [] \<Rightarrow> Inl (UndefinedBehaviour ''uris[0] of an empty vector'')
      | u # _ \<Rightarrow> Inr (scheme u = ''https'' \<or> opt_transport_socket opts \<noteq> None))"

definition createTransportSocket :: "'addr bootstrap_env \<Rightarrow> Options \<Rightarrow> 'addr Uri list \<Rightarrow> TransportSocket" where
  "createTransportSocket E opts uris =
     (case opt_transport_socket opts of
        Some s \<Rightarrow> GivenSocket s
      | None \<Rightarrow>
          (let tls = opt_tls_context opts;
               sni_host = computeSniHost (map host_without_port uris) (opt_request_headers opts) (Options_protocol opts);
               tls = (if sni_host \<noteq> [] then be_set_sni E sni_host tls else tls)
           in if Options_protocol opts = Http2
              then NamedSocket ''envoy.transport_sockets.tls'' (UpstreamTlsContext (be_add_alpn E ''h2'' tls))
              else if Options_protocol opts = Http3
              then NamedSocket ''envoy.transport_sockets.quic'' (QuicUpstreamTransport (be_add_alpn E ''h3'' tls))
              else NamedSocket ''envoy.transport_sockets.tls'' (UpstreamTlsContext (be_add_alpn E ''http/1.1'' tls))))"

definition createCircuitBreakers :: "Options \<Rightarrow> Thresholds" where
  "createCircuitBreakers opts =
     \<lparr>thr_max_retries = 0, thr_max_connections = opt_connections opts,
      thr_max_pending_requests = (if opt_max_pending_requests opts = 0 then 1 else opt_max_pending_requests opts),
      thr_max_requests = opt_max_active_requests opts\<rparr>"

definition cluster_http_config :: "Options \<Rightarrow> HttpConfig" where
  "cluster_http_config opts =
     (if Options_protocol opts = Http2
      then Http2Config (Some (opt_max_concurrent_streams opts)) (Some False)
      else if Options_protocol opts = Http3
      then (case opt_http3_protocol_options opts of
              Some given \<Rightarrow> Http3Given given
            | None \<Rightarrow> Http3Config (Some (opt_max_concurrent_streams opts)))
      else Http1Config)"

definition createNighthawkClusterForWorker ::
    "'addr bootstrap_env \<Rightarrow> Options \<Rightarrow> 'addr Uri list \<Rightarrow> int \<Rightarrow> failure + Cluster" where
  "createNighthawkClusterForWorker E opts uris worker_number =
     (let name = show_int worker_number
      in map_sum id
           (\<lambda>eps. \<lparr>cluster_name = name, connect_timeout_seconds = uint (opt_timeout opts),
                   http_protocol_options = Some
                     \<lparr>hp_max_requests_per_connection = Some (opt_max_requests_per_connection opts),
                      explicit_http_config = cluster_http_config opts\<rparr>,
                   circuit_breakers = [createCircuitBreakers opts], assignment_name = name,
                   lb_endpoints = eps, transport_socket = None\<rparr>)
           (for_each (addUriToEndpoints E) uris))"

section \<open>Resolving\<close>

definition resolve_uri :: "'addr dns \<Rightarrow> Options \<Rightarrow> 'addr Uri \<Rightarrow> failure + 'addr Uri" where
  "resolve_uri N opts u =
     (case translateFamilyOptionString (address_family_of (opt_address_family opts)) of
        Inl f \<Rightarrow> Inl f
      | Inr fam \<Rightarrow> (case Uri_resolve N fam u of (Inl f, _) \<Rightarrow> Inl f | (Inr _, u') \<Rightarrow> Inr u'))"

definition target_texts :: "Options \<Rightarrow> string list" where
  "target_texts opts =
     (case opt_uri opts of
        Some u \<Rightarrow> [u]
      | None \<Rightarrow>
          map (\<lambda>ep. (if opt_multi_target_use_https opts then ''https'' else ''http'') @ ''://''
               @ (case ep_address ep of Some a \<Rightarrow> a | None \<Rightarrow> []) @ '':''
               @ show_nat (unat (case ep_port ep of Some p \<Rightarrow> p | None \<Rightarrow> 0)) @ opt_multi_target_path opts)
            (opt_multi_target_endpoints opts))"

definition target_uris :: "'addr bootstrap_env \<Rightarrow> Options \<Rightarrow> failure + 'addr Uri list" where
  "target_uris E opts = for_each (\<lambda>t. new_Uri (be_extract E) t ''http'') (target_texts opts)"

definition resolved_new_uri ::
    "'addr bootstrap_env \<Rightarrow> 'addr dns \<Rightarrow> Options \<Rightarrow> string \<Rightarrow> failure + 'addr Uri" where
  "resolved_new_uri E N opts text =
     (case new_Uri (be_extract E) text ''http'' of Inl f \<Rightarrow> Inl f | Inr u \<Rightarrow> resolve_uri N opts u)"

text \<open>The targets, the encapsulation URI and the URI of the request source.\<close>

definition extracted_uris ::
    "'addr bootstrap_env \<Rightarrow> 'addr dns \<Rightarrow> Options
      \<Rightarrow> failure + ('addr Uri list \<times> 'addr Uri option \<times> 'addr Uri option)" where
  "extracted_uris E N opts =
     (case target_uris E opts of
        Inl f \<Rightarrow> Inl f
      | Inr uris \<Rightarrow>
          (case for_each (resolve_uri N opts) uris of
             Inl f \<Rightarrow> Inl f
           | Inr uris \<Rightarrow>
               (case (if opt_tunnel_uri opts \<noteq> []
                      then map_sum id Some (resolved_new_uri E N opts
                             (''https://localhost:'' @ show_nat (unat (opt_encap_port opts))))
                      else Inr None) of
                  Inl f \<Rightarrow> Inl f
                | Inr encap_uri \<Rightarrow>
                    (case (if opt_request_source opts \<noteq> []
                           then map_sum id Some (resolved_new_uri E N opts (opt_request_source opts))
                           else Inr None) of
                       Inl f \<Rightarrow> Inl f
                     | Inr request_source_uri \<Rightarrow> Inr (uris, encap_uri, request_source_uri)))))"

definition extractAndResolveUrisFromOptions ::
    "'addr bootstrap_env \<Rightarrow> 'addr dns \<Rightarrow> Options
      \<Rightarrow> failure + ('addr Uri list \<times> 'addr Uri option \<times> 'addr Uri option) status_or" where
  "extractAndResolveUrisFromOptions E N opts =
     (case extracted_uris E N opts of
        Inl (UriException what) \<Rightarrow> Inr (Inl (Status kInvalidArgument
          (''URI exception (for example, malformed URI syntax, bad MultiTarget path, ''
           @ ''unresolvable host DNS): '' @ what)))
      | Inl f \<Rightarrow> Inl f
      | Inr uris \<Rightarrow> Inr (Inr uris))"

section \<open>The bootstrap configuration\<close>

text \<open>
  The clusters of one worker. Tunnelled traffic goes to the encapsulating proxy; whether a transport
  socket is needed, and its server name, still depend on the targets.
\<close>

definition worker_clusters ::
    "'addr bootstrap_env \<Rightarrow> Options \<Rightarrow> 'addr Uri list \<times> 'addr Uri option \<times> 'addr Uri option
      \<Rightarrow> int \<Rightarrow> failure + Cluster list" where
  "worker_clusters E opts = (\<lambda>(uris, encap_uri, request_source_uri) worker_number.
     (case createNighthawkClusterForWorker E opts
             (if opt_tunnel_uri opts \<noteq> [] then (case encap_uri of Some u \<Rightarrow> [u] | None \<Rightarrow> []) else uris)
             worker_number of
        Inl f \<Rightarrow> Inl f
      | Inr cluster \<Rightarrow>
          (case needTransportSocket opts uris of
             Inl f \<Rightarrow> Inl f
           | Inr needed \<Rightarrow>
               (let cluster = (if needed then cluster\<lparr>transport_socket := Some (createTransportSocket E opts uris)\<rparr>
                               else cluster)
                in case request_source_uri of
                     None \<Rightarrow> Inr [cluster]
                   | Some u \<Rightarrow> map_sum id (\<lambda>c. [cluster, c]) (createRequestSourceClusterForWorker E opts u worker_number)))))"

definition flush_interval :: "Options \<Rightarrow> proto_duration" where
  "flush_interval opts =
     (let d = opt_stats_flush_interval_duration opts
      in if 0 < seconds d \<or> 0 < nanos d then d
         else \<lparr>seconds = uint (opt_stats_flush_interval opts), nanos = 0\<rparr>)"

definition createBootstrapConfiguration ::
    "'addr bootstrap_env \<Rightarrow> 'addr dns status_or \<Rightarrow> Options \<Rightarrow> int \<Rightarrow> failure + Bootstrap status_or" where
  "createBootstrapConfiguration E dns_resolver opts number_of_workers =
     (case dns_resolver of
        Inl st \<Rightarrow> Inr (Inl st)
      | Inr N \<Rightarrow>
          (case extractAndResolveUrisFromOptions E N opts of
             Inl f \<Rightarrow> Inl f
           | Inr (Inl st) \<Rightarrow> Inr (Inl st)
           | Inr (Inr (uris, encap_uri, request_source_uri)) \<Rightarrow>
               (if 0 < number_of_workers \<and> opt_tunnel_uri opts \<noteq> [] \<and> encap_uri = None
                then Inr (Inl (Status kInvalidArgument ''No encapsulation URI for tunneling''))
                else map_sum id
                  (\<lambda>cs. Inr \<lparr>clusters = concat cs, stats_sinks = opt_stats_sinks opts,
                             stats_flush_interval = flush_interval opts,
                             upstream_bind_config = opt_upstream_bind_config opts\<rparr>)
                  (for_each (worker_clusters E opts (uris, encap_uri, request_source_uri))
                     (map int [0..<nat number_of_workers])))))"

text \<open>The names by which the constructor of a client worker asks for its clusters.\<close>

definition worker_cluster_name :: "int \<Rightarrow> string" where
  "worker_cluster_name worker_number = show_int worker_number"

definition worker_request_source_name :: "int \<Rightarrow> string" where
  "worker_request_source_name worker_number = show_int worker_number @ ''.requestsource''"

section \<open>The encapsulating proxy\<close>

record TcpProxy =
  tcp_stat_prefix :: string
  tcp_cluster :: string
  tcp_hostname :: string
  tcp_headers_to_add :: "(string \<times> string) list"

record UdpProxyConfig =
  udp_stat_prefix :: string
  udp_route_cluster :: string
  udp_session_filters :: "string list"
  udp_proxy_host :: string
  udp_target_host :: string
  udp_default_target_port :: u32
  udp_max_connect_attempts :: u32
  udp_max_buffered_datagrams :: u32
  udp_max_buffered_bytes :: u64
  udp_headers_to_add :: "(string \<times> string) list"

datatype encap_filter = UdpProxyFilter UdpProxyConfig | TcpProxyFilter TcpProxy

record EncapListener =
  listener_name :: string
  listener_address :: "string \<times> u32"
  listener_udp :: bool
  listener_filter :: encap_filter

record EncapBootstrap =
  encap_version_override :: u64
  encap_listener :: EncapListener
  encap_cluster :: Cluster

definition udp_proxy_config :: UdpProxyConfig where
  "udp_proxy_config =
     \<lparr>udp_stat_prefix = ''udp_proxy'', udp_route_cluster = ''cluster_0'',
      udp_session_filters = [''envoy.filters.udp.session.http_capsule''],
      udp_proxy_host = ''%FILTER_STATE(proxy.host.key:PLAIN)%'',
      udp_target_host = ''%FILTER_STATE(target.host.key:PLAIN)%'',
      udp_default_target_port = 443, udp_max_connect_attempts = 2, udp_max_buffered_datagrams = 1024,
      udp_max_buffered_bytes = 16384,
      udp_headers_to_add = [(''original_dst_port'', ''%DOWNSTREAM_LOCAL_PORT%'')]\<rparr>"

definition tcp_proxy_config :: TcpProxy where
  "tcp_proxy_config =
     \<lparr>tcp_stat_prefix = ''tcp_proxy'', tcp_cluster = ''cluster_0'', tcp_hostname = ''host.com:443'',
      tcp_headers_to_add = [(''original_dst_port'', ''%DOWNSTREAM_LOCAL_PORT%'')]\<rparr>"

text \<open>For HTTP/3 the optional TLS context is dereferenced without a check.\<close>

definition tunnel_transport :: "Options \<Rightarrow> failure + (HttpConfig \<times> TransportSocket option)" where
  "tunnel_transport opts =
     (if Options_tunnelProtocol opts = Http3
      then (case opt_tunnel_tls_context opts of
              None \<Rightarrow> Inl (UndefinedBehaviour ''tunnelTlsContext() has no value'')
            | Some tls \<Rightarrow> Inr (Http3Config None,
                Some (NamedSocket ''envoy.transport_sockets.quic'' (QuicUpstreamTransport tls))))
      else Inr (if Options_tunnelProtocol opts = Http2 then Http2Config None None else Http1Config,
                map_option (\<lambda>tls. NamedSocket ''envoy.transport_sockets.tls'' (UpstreamTlsContext tls))
                  (opt_tunnel_tls_context opts)))"

definition createEncapBootstrap ::
    "'addr bootstrap_env \<Rightarrow> 'addr dns \<Rightarrow> Options \<Rightarrow> 'addr Uri \<Rightarrow> failure + EncapBootstrap \<times> 'addr Uri" where
  "createEncapBootstrap E N opts tunnel_uri =
     (let is_udp = (Options_protocol opts = Http3)
      in case resolved_new_uri E N opts (''http://localhost:'' @ show_nat (unat (opt_encap_port opts))) of
           Inl f \<Rightarrow> Inl f
         | Inr encap_uri \<Rightarrow>
             (case addUriToEndpoints E encap_uri of
                Inl f \<Rightarrow> Inl f
              | Inr listen \<Rightarrow>
                  (case tunnel_transport opts of
                     Inl f \<Rightarrow> Inl f
                   | Inr (config, socket) \<Rightarrow>
                       (case resolve_uri N opts tunnel_uri of
                          Inl f \<Rightarrow> Inl f
                        | Inr tunnel_uri \<Rightarrow>
                            map_sum id
                              (\<lambda>ep. (\<lparr>encap_version_override = 1,
                                      encap_listener = \<lparr>listener_name = ''encap_listener'', listener_address = listen,
                                        listener_udp = is_udp,
                                        listener_filter = (if is_udp then UdpProxyFilter udp_proxy_config
                                                           else TcpProxyFilter tcp_proxy_config)\<rparr>,
                                      encap_cluster = \<lparr>cluster_name = ''cluster_0'', connect_timeout_seconds = 5,
                                        http_protocol_options = Some \<lparr>hp_max_requests_per_connection = None,
                                          explicit_http_config = config\<rparr>,
                                        circuit_breakers = [], assignment_name = ''cluster_0'',
                                        lb_endpoints = [ep], transport_socket = socket\<rparr>\<rparr>, tunnel_uri))
                              (addUriToEndpoints E tunnel_uri)))))"

section \<open>The process of the encapsulating proxy\<close>

text \<open>
  The results of the system calls: \<^verbatim>\<open>kill\<close> with the error number of a failure, the polls of \<^verbatim>\<open>waitpid\<close>
  by their index, and the blocking \<^verbatim>\<open>waitpid\<close> after a hard kill. A \<^verbatim>\<open>waitpid\<close> gives what it returned
  and the status of the child.
\<close>

record process_calls =
  kill_term :: "int + unit"
  waitpid_nohang :: "nat \<Rightarrow> int \<times> int"
  waitpid_block :: "int \<times> int"
  exited_cleanly :: "int \<Rightarrow> bool"
  ESRCH :: int

record SubProcessRunner =
  pid :: int
  hard_kills :: nat

definition new_SubProcessRunner :: SubProcessRunner where
  "new_SubProcessRunner = \<lparr>pid = - 1, hard_kills = 0\<rparr>"

fun poll_child :: "process_calls \<Rightarrow> nat \<Rightarrow> nat \<Rightarrow> int \<times> int" where
  "poll_child S i 0 = (0, 0)"
| "poll_child S i (Suc n) = (let r = waitpid_nohang S i in if fst r = 0 then poll_child S (Suc i) n else r)"

text \<open>The child is polled 150 times, then killed and waited for.\<close>

definition reap_child :: "process_calls \<Rightarrow> SubProcessRunner \<Rightarrow> status \<times> SubProcessRunner" where
  "reap_child S r =
     (let polled = poll_child S 0 150;
          ((reaped, st), r) = (if fst polled = 0 then (waitpid_block S, r\<lparr>hard_kills := hard_kills r + 1\<rparr>)
                               else (polled, r));
          r = r\<lparr>pid := - 1\<rparr>
      in (if reaped < 0 then OkStatus
          else if exited_cleanly S st then OkStatus
          else Status kInternal (''Envoy crashed with code: '' @ show_int st), r))"

definition TerminateEncapSubProcess :: "process_calls \<Rightarrow> SubProcessRunner \<Rightarrow> status \<times> SubProcessRunner" where
  "TerminateEncapSubProcess S r =
     (if pid r = - 1 \<or> pid r = 0 then (OkStatus, r)
      else case kill_term S of
             Inl e \<Rightarrow> if e \<noteq> ESRCH S then (Status kInternal ''Failed to kill encapsulation subprocess'', r)
                      else reap_child S r
           | Inr _ \<Rightarrow> reap_child S r)"

text \<open>
  \<^verbatim>\<open>Run()\<close>: what the forking process does after \<^verbatim>\<open>fork\<close>. The child runs the proxy and exits; the parent
  waits for the semaphore, which the proxy posts once it serves, then runs Nighthawk.
\<close>

datatype fork_action = RunEnvoy | ExitProcess | WaitSemaphore | RunNighthawk

definition RunWithSubprocess :: "int \<Rightarrow> SubProcessRunner \<Rightarrow> fork_action list \<times> status \<times> SubProcessRunner" where
  "RunWithSubprocess fork_result r =
     (let r = r\<lparr>pid := fork_result\<rparr>
      in if fork_result = - 1 then ([], Status kInternal ''fork failed'', r)
         else if fork_result = 0 then ([RunEnvoy, ExitProcess], OkStatus, r)
         else ([WaitSemaphore, RunNighthawk], OkStatus, r))"

section \<open>What the configuration promises\<close>

lemma for_each_Inr:
  "for_each f xs = Inr ys \<longleftrightarrow> list_all2 (\<lambda>x y. f x = Inr y) xs ys"
proof (induction xs arbitrary: ys)
  case (Cons x xs)
  show ?case
    by (cases "f x"; cases ys) (auto simp: map_sum_Inr_eq Cons.IH)
qed auto

lemma for_each_total: "(\<And>x. x \<in> set xs \<Longrightarrow> \<exists>y. f x = Inr y) \<Longrightarrow> \<exists>ys. for_each f xs = Inr ys"
  by (induction xs) (fastforce simp: map_sum_Inr_eq)+

lemma show_nat_inject [simp]: "show_nat m = show_nat n \<longleftrightarrow> m = n"
  by (metis option.inject parse_show_nat)

lemma show_int_of_nat [simp]: "show_int (int n) = show_nat n"
  by (simp add: show_int_def)

definition worker_names :: "Options \<Rightarrow> nat \<Rightarrow> string list" where
  "worker_names opts i =
     worker_cluster_name (int i)
     # (if opt_request_source opts \<noteq> [] then [worker_request_source_name (int i)] else [])"

lemma digits_no_dot: "CHR ''.'' \<notin> set (show_nat n)"
  using show_nat_digits [of "CHR ''.''" n] by (auto simp: is_digit_def)

lemma requestsource_name_inject: "show_nat m @ ''.requestsource'' = show_nat n @ ''.requestsource'' \<longleftrightarrow> m = n"
  by simp

lemma plain_name_distinct: "show_nat m \<noteq> show_nat n @ ''.requestsource''"
  using digits_no_dot [of m] by (metis Un_iff list.set_intros(1) set_append)

lemma worker_names_distinct: "distinct (concat (map (worker_names opts) [0..<n]))"
proof -
  have d: "distinct (worker_names opts i)" for i
    by (simp add: worker_names_def worker_cluster_name_def worker_request_source_name_def)
  have disj: "set (worker_names opts i) \<inter> set (worker_names opts j) = {}" if "i \<noteq> j" for i j
    using that plain_name_distinct [of i j] plain_name_distinct [of j i]
    by (auto simp: worker_names_def worker_cluster_name_def worker_request_source_name_def)
  show ?thesis
  proof (induction n)
    case (Suc n)
    have "x \<notin> set (worker_names opts n)" if "x \<in> set (worker_names opts i)" "i < n" for x i
      using disj [of i n] that by auto
    then have "set (concat (map (worker_names opts) [0..<n])) \<inter> set (worker_names opts n) = {}"
      by auto
    then show ?case using Suc d by simp
  qed simp
qed

lemma worker_clusters_named:
  assumes "worker_clusters E opts (uris, encap_uri, rs) (int i) = Inr cs"
    and rs: "(rs = None) = (opt_request_source opts = [])"
    and encap: "opt_tunnel_uri opts \<noteq> [] \<longrightarrow> encap_uri \<noteq> None"
  shows "map cluster_name cs = worker_names opts i"
    and "\<forall>c \<in> set cs. assignment_name c = cluster_name c \<and> lb_endpoints c \<noteq> []"
proof -
  define targets where "targets = (if opt_tunnel_uri opts \<noteq> [] then (case encap_uri of Some u \<Rightarrow> [u] | None \<Rightarrow> []) else uris)"
  obtain cluster needed where c: "createNighthawkClusterForWorker E opts targets (int i) = Inr cluster"
      "needTransportSocket opts uris = Inr needed"
    using assms(1) by (auto simp: worker_clusters_def targets_def split: sum.splits)
  have "uris \<noteq> []" using c(2) by (auto simp: needTransportSocket_def)
  then have ne: "targets \<noteq> []" using encap by (auto simp: targets_def)
  have cluster: "cluster_name cluster = worker_cluster_name (int i)" "assignment_name cluster = cluster_name cluster"
      "lb_endpoints cluster \<noteq> []"
    using c(1) ne by (auto simp: createNighthawkClusterForWorker_def Let_def map_sum_Inr_eq for_each_Inr worker_cluster_name_def)
  define cluster' where "cluster' = (if needed then cluster\<lparr>transport_socket := Some (createTransportSocket E opts uris)\<rparr> else cluster)"
  have cluster': "cluster_name cluster' = worker_cluster_name (int i)" "assignment_name cluster' = cluster_name cluster'"
      "lb_endpoints cluster' \<noteq> []"
    using cluster by (simp_all add: cluster'_def)
  have "map cluster_name cs = worker_names opts i
    \<and> (\<forall>c \<in> set cs. assignment_name c = cluster_name c \<and> lb_endpoints c \<noteq> [])"
  proof (cases rs)
    case None
    then have "cs = [cluster']"
      using assms(1) c by (simp add: worker_clusters_def targets_def [symmetric] cluster'_def)
    then show ?thesis using cluster' rs None by (simp add: worker_names_def)
  next
    case (Some u)
    then obtain c2 where "createRequestSourceClusterForWorker E opts u (int i) = Inr c2" "cs = [cluster', c2]"
      using assms(1) c by (auto simp: worker_clusters_def targets_def [symmetric] cluster'_def map_sum_Inr_eq)
    then show ?thesis using cluster' rs Some
      by (auto simp: worker_names_def createRequestSourceClusterForWorker_def Let_def map_sum_Inr_eq worker_request_source_name_def)
  qed
  then show "map cluster_name cs = worker_names opts i"
    "\<forall>c \<in> set cs. assignment_name c = cluster_name c \<and> lb_endpoints c \<noteq> []" by blast+
qed

lemma extracted_shape:
  assumes "extracted_uris E N opts = Inr (uris, encap_uri, rs)"
  shows "(rs = None) = (opt_request_source opts = [])" "(encap_uri = None) = (opt_tunnel_uri opts = [])"
    "\<exists>us. target_uris E opts = Inr us \<and> for_each (resolve_uri N opts) us = Inr uris"
  using assms by (auto simp: extracted_uris_def map_sum_Inr_eq split: sum.splits if_splits)

lemma extractAndResolve_Inr:
  "extractAndResolveUrisFromOptions E N opts = Inr (Inr r) \<longleftrightarrow> extracted_uris E N opts = Inr r"
  by (auto simp: extractAndResolveUrisFromOptions_def split: sum.splits failure.splits)

text \<open>Everything that goes wrong while the URIs are extracted and resolved is a URI exception.\<close>

fun uri_exception :: "failure \<Rightarrow> bool" where
  "uri_exception (UriException _) = True"
| "uri_exception _ = False"

lemma new_Uri_fails: "new_Uri ex text d = Inl f \<Longrightarrow> uri_exception f"
  by (auto simp: new_Uri_def Let_def split: prod.splits if_splits option.splits)

lemma resolve_uri_fails:
  "opt_address_family opts \<in> {0, 1, 2} \<Longrightarrow> resolve_uri N opts u = Inl f \<Longrightarrow> uri_exception f"
  by (auto simp: resolve_uri_def address_family_of_def Uri_resolve_def Let_def split: prod.splits if_splits)

lemma map_sum_Inl_id: "map_sum id g r = Inl e \<longleftrightarrow> r = Inl e"
  by (cases r) auto

lemma for_each_fails: "for_each g xs = Inl f \<Longrightarrow> (\<And>x f. g x = Inl f \<Longrightarrow> P f) \<Longrightarrow> P f"
  by (induction xs) (auto split: sum.splits simp: map_sum_Inl_id)

lemma new_Uri_fresh: "new_Uri ex text d = Inr u \<Longrightarrow> \<not> resolve_attempted u"
  by (auto simp: new_Uri_def Let_def split: prod.splits if_splits option.splits)

lemma resolved_address:
  assumes "resolve_uri N opts u = Inr u'" "\<not> resolve_attempted u"
  shows "address u' \<noteq> None"
proof -
  have found: "performDnsLookup N fam v = (b, w) \<Longrightarrow> b = (address w \<noteq> None)" for fam b and v w :: "'a Uri"
    by (simp add: performDnsLookup_def Let_def split: prod.splits) blast
  obtain fam a where "Uri_resolve N fam u = (Inr a, u')"
    using assms(1) by (auto simp: resolve_uri_def split: sum.splits prod.splits)
  then show ?thesis
    using assms(2) found [of fam "u\<lparr>resolve_attempted := True\<rparr>"]
    by (auto simp: Uri_resolve_def Let_def split: prod.splits if_splits dest: sym)
qed

lemma extracted_resolved:
  assumes "extracted_uris E N opts = Inr (uris, encap_uri, rs)"
  shows "u \<in> set uris \<Longrightarrow> address u \<noteq> None" "encap_uri = Some v \<Longrightarrow> address v \<noteq> None"
    "rs = Some w \<Longrightarrow> address w \<noteq> None"
    "opt_uri opts \<noteq> None \<or> opt_multi_target_endpoints opts \<noteq> [] \<Longrightarrow> uris \<noteq> []"
proof -
  obtain us where us: "target_uris E opts = Inr us" "for_each (resolve_uri N opts) us = Inr uris"
    using extracted_shape(3) [OF assms] by blast
  have "\<forall>u \<in> set us. \<not> resolve_attempted u"
    using us(1) new_Uri_fresh by (fastforce simp: target_uris_def for_each_Inr list_all2_conv_all_nth in_set_conv_nth)
  then show "u \<in> set uris \<Longrightarrow> address u \<noteq> None"
    using us(2) resolved_address [of N opts] by (force simp: for_each_Inr list_all2_conv_all_nth in_set_conv_nth)
  have fresh: "resolved_new_uri E N opts t = Inr u \<Longrightarrow> address u \<noteq> None" for t u
    using resolved_address new_Uri_fresh by (fastforce simp: resolved_new_uri_def split: sum.splits)
  show "encap_uri = Some v \<Longrightarrow> address v \<noteq> None" "rs = Some w \<Longrightarrow> address w \<noteq> None"
    using assms fresh by (auto simp: extracted_uris_def map_sum_Inr_eq split: sum.splits if_splits)
  show "opt_uri opts \<noteq> None \<or> opt_multi_target_endpoints opts \<noteq> [] \<Longrightarrow> uris \<noteq> []"
    using us by (auto simp: target_uris_def target_texts_def for_each_Inr split: option.splits)
qed

lemma extracted_fails:
  assumes "extracted_uris E N opts = Inl f" "opt_address_family opts \<in> {0, 1, 2}"
  shows "uri_exception f"
proof -
  note r = resolve_uri_fails [OF assms(2)]
  have new: "resolved_new_uri E N opts t = Inl f \<Longrightarrow> uri_exception f" for t f
    using r new_Uri_fails by (fastforce simp: resolved_new_uri_def split: sum.splits)
  have targets: "target_uris E opts = Inl f \<Longrightarrow> uri_exception f" for f
    unfolding target_uris_def by (erule for_each_fails) (rule new_Uri_fails)
  have "for_each (resolve_uri N opts) us = Inl f \<Longrightarrow> uri_exception f" for us f
    using for_each_fails r by blast
  then show ?thesis
    using assms(1) new targets
    by (auto simp: extracted_uris_def map_sum_Inl_id split: sum.splits if_splits)
qed

text \<open>
  C34. The configuration of Envoy fits the workers. In every bootstrap configuration that is created for
  \<open>n\<close> workers, the clusters are, in order, those that the \<open>n\<close> client workers ask for by name: one for its
  requests and, exactly when there is a request source, one for the source. The names are pairwise
  distinct, each cluster's load assignment carries its name, and no cluster is without an endpoint.
\<close>

theorem bootstrap_matches_workers:
  assumes "createBootstrapConfiguration E dns_resolver opts n = Inr (Inr b)"
  shows "map cluster_name (clusters b) =
      concat (map (\<lambda>i. worker_cluster_name i
               # (if opt_request_source opts \<noteq> [] then [worker_request_source_name i] else [])) [0..n - 1])
    \<and> distinct (map cluster_name (clusters b))
    \<and> (\<forall>c \<in> set (clusters b). assignment_name c = cluster_name c \<and> lb_endpoints c \<noteq> [])"
proof -
  obtain N uris encap_uri rs where ex: "extracted_uris E N opts = Inr (uris, encap_uri, rs)"
    and cs: "\<exists>cs. for_each (worker_clusters E opts (uris, encap_uri, rs)) (map int [0..<nat n]) = Inr cs
      \<and> clusters b = concat cs"
    using assms by (auto simp: createBootstrapConfiguration_def extractAndResolve_Inr map_sum_Inr_eq
        split: sum.splits if_splits)
  then obtain cs where each: "list_all2 (\<lambda>i c. worker_clusters E opts (uris, encap_uri, rs) (int i) = Inr c) [0..<nat n] cs"
    and b: "clusters b = concat cs"
    by (auto simp: for_each_Inr list_all2_map1)
  note shape = extracted_shape [OF ex]
  have named: "list_all2 (\<lambda>i c. map cluster_name c = worker_names opts i
      \<and> (\<forall>x \<in> set c. assignment_name x = cluster_name x \<and> lb_endpoints x \<noteq> [])) [0..<nat n] cs"
    using each by (rule list_all2_mono) (use worker_clusters_named shape(1,2) in blast)
  have "map (map cluster_name) cs = map (worker_names opts) [0..<nat n]"
    using named by (auto simp: list_all2_conv_all_nth intro!: nth_equalityI)
  then have names: "map cluster_name (clusters b) = concat (map (worker_names opts) [0..<nat n])"
    unfolding b map_concat by simp
  moreover have "[0..n - 1] = map int [0..<nat n]"
    by (rule nth_equalityI) auto
  moreover have "\<forall>c \<in> set (clusters b). assignment_name c = cluster_name c \<and> lb_endpoints c \<noteq> []"
  proof
    fix c
    assume "c \<in> set (clusters b)"
    then obtain ds where "ds \<in> set cs" "c \<in> set ds" unfolding b by auto
    then obtain k where "k < length cs" "c \<in> set (cs ! k)" by (auto simp: in_set_conv_nth [of ds])
    then show "assignment_name c = cluster_name c \<and> lb_endpoints c \<noteq> []"
      using named by (simp add: list_all2_conv_all_nth)
  qed
  ultimately show ?thesis using worker_names_distinct [of opts "nat n"]
    by (simp add: worker_names_def [abs_def] comp_def)
qed

lemma bootstrap_total:
  assumes "opt_uri opts \<noteq> None \<or> opt_multi_target_endpoints opts \<noteq> []" "opt_address_family opts \<in> {0, 1, 2}"
  shows "\<exists>r. createBootstrapConfiguration E dns_resolver opts n = Inr r"
proof (cases dns_resolver)
  case (Inr N)
  show ?thesis
  proof (cases "extracted_uris E N opts")
    case (Inl f)
    then have "uri_exception f" using extracted_fails assms(2) by blast
    then show ?thesis
      using Inl Inr by (cases f) (simp_all add: createBootstrapConfiguration_def extractAndResolveUrisFromOptions_def)
  next
    case (Inr r)
    obtain uris encap_uri rs where r: "r = (uris, encap_uri, rs)" by (cases r)
    note ex = Inr [unfolded r]
    note res = extracted_resolved [OF ex]
    let ?ts = "if opt_tunnel_uri opts \<noteq> [] then (case encap_uri of Some u \<Rightarrow> [u] | None \<Rightarrow> []) else uris"
    have ep: "address u \<noteq> None \<Longrightarrow> \<exists>ep. addUriToEndpoints E u = Inr ep" for u
      by (auto simp: addUriToEndpoints_def)
    have "\<exists>eps. for_each (addUriToEndpoints E) ?ts = Inr eps"
      by (rule for_each_total) (use ep res in \<open>auto split: if_splits option.splits\<close>)
    moreover have "\<exists>b. needTransportSocket opts uris = Inr b"
      using res(4) [OF assms(1)] by (cases uris) (simp_all add: needTransportSocket_def)
    moreover have "\<exists>ep. addUriToEndpoints E u = Inr ep" if "rs = Some u" for u
      using ep res(3) [OF that] by blast
    ultimately have "\<exists>cs. worker_clusters E opts (uris, encap_uri, rs) i = Inr cs" for i
      by (cases rs) (auto simp: worker_clusters_def createNighthawkClusterForWorker_def
          createRequestSourceClusterForWorker_def Let_def)
    then have "\<exists>cs. for_each (worker_clusters E opts (uris, encap_uri, rs)) (map int [0..<nat n]) = Inr cs"
      by (intro for_each_total) blast
    then show ?thesis
      using \<open>dns_resolver = Inr N\<close> ex
      by (auto simp: createBootstrapConfiguration_def extractAndResolveUrisFromOptions_def)
  qed
qed (simp add: createBootstrapConfiguration_def)

text \<open>
  C35. Creating the bootstrap configuration never throws. For options with a target and a valid address
  family, whatever the texts of the URIs are and whatever the resolver answers, the result is a
  configuration or an error status: no exception escapes, no missing address is dereferenced and no
  empty vector is read.
\<close>

theorem bootstrap_never_throws:
  assumes "opt_uri opts \<noteq> None \<or> opt_multi_target_endpoints opts \<noteq> []" "opt_address_family opts \<in> {0, 1, 2}"
  shows "\<exists>r. createBootstrapConfiguration E dns_resolver opts n = Inr r"
  using bootstrap_total [OF assms] .

text \<open>
  C36. The closed loop stays within the circuit breakers. The requests that a closed-loop client has in
  flight, and those it lost to pool failures, never exceed what the thresholds of its cluster admit: its
  pending requests plus its connections, or plus its active requests for HTTP/2 and HTTP/3.
\<close>

theorem closed_loop_within_breakers:
  assumes "createNighthawkClusterForWorker B opts uris i = Inr cluster" "circuit_breakers cluster = [t]"
    and "\<not> opt_open_loop opts" "client_reach E (BenchmarkClientFactory_create opts g plugins) c"
  shows "in_flight c + leaked c \<le> unat (thr_max_pending_requests t)
    + unat (if Options_protocol opts = Http2 \<or> Options_protocol opts = Http3 then thr_max_requests t
            else thr_max_connections t)"
proof -
  have t: "t = createCircuitBreakers opts"
    using assms(1,2) by (auto simp: createNighthawkClusterForWorker_def Let_def map_sum_Inr_eq)
  note fresh_bound(2) [OF factory_client(1) assms(4)]
  then show ?thesis
    unfolding factory_client(2,3) t using assms(3) by (auto simp: createCircuitBreakers_def split: if_splits)
qed

lemma terminated_once:
  "pid r \<noteq> - 1 \<Longrightarrow> TerminateEncapSubProcess S r = (st, r') \<Longrightarrow> pid r' = - 1 \<or> r' = r \<and> \<not> ok st \<or> pid r = 0"
  "pid r = - 1 \<Longrightarrow> TerminateEncapSubProcess S r = (OkStatus, r)"
  by (auto simp: TerminateEncapSubProcess_def reap_child_def Let_def ok_def split: sum.splits if_splits prod.splits)

section \<open>An example\<close>

text \<open>Two workers with a request source; every name resolves to one address.\<close>

definition demo_bootstrap_env :: "string bootstrap_env" where
  "demo_bootstrap_env = \<lparr>be_extract = (\<lambda>_. (''h'', ''/'')), be_addressAsString = id,
     be_set_sni = (\<lambda>_ t. t), be_add_alpn = (\<lambda>_ t. t)\<rparr>"

definition demo_dns :: "string dns" where
  "demo_dns = \<lparr>dns_resolve = (\<lambda>_ _. (True, [''127.0.0.1''])), getAddressWithPort = (\<lambda>a _. a),
     has_ipv4 = (\<lambda>_. True), has_ipv6 = (\<lambda>_. False)\<rparr>"

definition demo_bootstrap_options :: Options where
  "demo_bootstrap_options = plain_options\<lparr>opt_request_source := ''h''\<rparr>"

lemma demo_bootstrap_options_values:
  "opt_uri demo_bootstrap_options = Some ''http://h/''" "opt_request_source demo_bootstrap_options = ''h''"
  "opt_tunnel_uri demo_bootstrap_options = []" "opt_address_family demo_bootstrap_options = 0"
  "opt_open_loop demo_bootstrap_options = False"
  by (simp_all add: demo_bootstrap_options_def plain_options_def setNonTrivialDefaults_def initial_options_def)

lemma demo_bootstrap_uris:
  assumes "t \<in> {''http://h/'', ''h''}"
  shows "\<exists>u. new_Uri (be_extract demo_bootstrap_env) t ''http'' = Inr u"
  using assms
  by (auto simp: new_Uri_def demo_bootstrap_env_def findPortSeparator_def rfind_char_def starts_with_def str_lower_def
      lower_char_def default_port_def Uri_isValid_def)

lemma demo_resolve:
  "\<exists>u'. resolve_uri demo_dns demo_bootstrap_options u = Inr u'"
  by (auto simp: resolve_uri_def demo_bootstrap_options_values address_family_of_def demo_dns_def Uri_resolve_def
      performDnsLookup_def Let_def split: prod.splits)

lemma demo_bootstrap:
  "\<exists>b. createBootstrapConfiguration demo_bootstrap_env (Inr demo_dns) demo_bootstrap_options 2 = Inr (Inr b)"
proof -
  obtain u v :: "string Uri" where u: "new_Uri (be_extract demo_bootstrap_env) ''http://h/'' ''http'' = Inr u"
      "new_Uri (be_extract demo_bootstrap_env) ''h'' ''http'' = Inr v"
    using demo_bootstrap_uris [of "''http://h/''"] demo_bootstrap_uris [of "''h''"] by auto
  obtain u' v' where r: "resolve_uri demo_dns demo_bootstrap_options u = Inr u'"
      "resolve_uri demo_dns demo_bootstrap_options v = Inr v'"
    using demo_resolve [of u] demo_resolve [of v] by auto
  have "extracted_uris demo_bootstrap_env demo_dns demo_bootstrap_options = Inr ([u'], None, Some v')"
    by (simp add: extracted_uris_def target_uris_def target_texts_def resolved_new_uri_def demo_bootstrap_options_values u r)
  then have ex: "extractAndResolveUrisFromOptions demo_bootstrap_env demo_dns demo_bootstrap_options
      = Inr (Inr ([u'], None, Some v'))"
    by (simp add: extractAndResolve_Inr)
  have "\<exists>r'. createBootstrapConfiguration demo_bootstrap_env (Inr demo_dns) demo_bootstrap_options 2 = Inr r'"
    by (rule bootstrap_total) (simp_all add: demo_bootstrap_options_values)
  then show ?thesis
    unfolding createBootstrapConfiguration_def sum.case ex prod.case
    by (auto simp: map_sum_Inr_eq demo_bootstrap_options_values)
qed

theorem bootstrap_matches_workers_witness:
  "\<exists>b. createBootstrapConfiguration demo_bootstrap_env (Inr demo_dns) demo_bootstrap_options 2 = Inr (Inr b)
    \<and> map cluster_name (clusters b) = [''0'', ''0.requestsource'', ''1'', ''1.requestsource'']"
proof -
  obtain b where b: "createBootstrapConfiguration demo_bootstrap_env (Inr demo_dns) demo_bootstrap_options 2 = Inr (Inr b)"
    using demo_bootstrap by blast
  have "[0..2 - 1 :: int] = [0, 1]" by (simp add: upto.simps)
  then show ?thesis
    using bootstrap_matches_workers [OF b] b
    by (simp add: demo_bootstrap_options_values worker_cluster_name_def worker_request_source_name_def
        show_int_def show_nat.simps str_simps)
qed

theorem bootstrap_never_throws_witness:
  "\<exists>r. createBootstrapConfiguration demo_bootstrap_env (Inr demo_dns) demo_bootstrap_options 2 = Inr r"
  by (rule bootstrap_never_throws) (simp_all add: demo_bootstrap_options_values)

theorem closed_loop_within_breakers_witness:
  "\<exists>cluster. createNighthawkClusterForWorker demo_bootstrap_env demo_bootstrap_options [] 0 = Inr cluster
    \<and> circuit_breakers cluster = [createCircuitBreakers demo_bootstrap_options]
    \<and> in_flight (BenchmarkClientFactory_create demo_bootstrap_options () [] :: (unit, unit, unit) BenchmarkClient)
      \<le> unat (thr_max_pending_requests (createCircuitBreakers demo_bootstrap_options))
        + unat (thr_max_connections (createCircuitBreakers demo_bootstrap_options))"
proof -
  obtain cluster where c: "createNighthawkClusterForWorker demo_bootstrap_env demo_bootstrap_options [] 0 = Inr cluster"
    by (simp add: createNighthawkClusterForWorker_def Let_def)
  then have t: "circuit_breakers cluster = [createCircuitBreakers demo_bootstrap_options]"
    by (auto simp: createNighthawkClusterForWorker_def Let_def)
  have "Options_protocol demo_bootstrap_options = Http11"
    by (simp add: Options_protocol_def demo_bootstrap_options_def plain_options_def setNonTrivialDefaults_def initial_options_def)
  moreover define c0 where "c0 = (BenchmarkClientFactory_create demo_bootstrap_options () [] :: (unit, unit, unit) BenchmarkClient)"
  moreover have "client_reach E c0 c0" for E by (rule client_reach.initial)
  ultimately have "in_flight c0 + leaked c0 \<le> unat (thr_max_pending_requests (createCircuitBreakers demo_bootstrap_options))
        + unat (thr_max_connections (createCircuitBreakers demo_bootstrap_options))"
    using closed_loop_within_breakers [OF c t, of _ "()" "[]" c0] demo_bootstrap_options_values(5) by simp
  then show ?thesis using c t by (simp add: c0_def)
qed

end
