(* ===== verification/Workers.thy ===== *)
theory Workers
  imports ClientSlots Sequencer
begin

text \<open>
  Worker threads: the life cycle shared by all workers (\<^verbatim>\<open>source/common/worker_impl.{h,cc}\<close>), the
  client worker with its phase (\<^verbatim>\<open>source/client/client_worker_impl.{h,cc}\<close>,
  \<^verbatim>\<open>source/common/phase_impl.{h,cc}\<close>) and the worker that flushes statistics
  (\<^verbatim>\<open>source/client/flush_worker_impl.{h,cc}\<close>).

  The main thread and the worker's thread interleave: the worker's thread is the list of the actions
  it has done so far, and a call of the main thread that waits is a step that is possible only when
  what it waits for has happened.
\<close>

section \<open>The life cycle of a worker\<close>

datatype thread_action = RunDispatcher | DoWork | SetComplete | SeeExit | ShutdownThread | TlsShutdownThread

definition thread_body :: "thread_action list" where
  "thread_body = [RunDispatcher, DoWork, SetComplete, SeeExit, ShutdownThread, TlsShutdownThread]"

text \<open>\<open>w_thread\<close> is \<open>None\<close> before the thread exists; the two promises are the flags \<open>..._set\<close>.\<close>

record WorkerImpl =
  w_started :: bool
  w_shutdown :: bool
  w_exit_signaled :: bool
  w_exit_set :: bool
  w_complete_set :: bool
  w_future_taken :: bool
  w_thread :: "thread_action list option"
  w_joined :: bool

definition new_WorkerImpl :: WorkerImpl where
  "new_WorkerImpl = \<lparr>w_started = False, w_shutdown = True, w_exit_signaled = False, w_exit_set = False,
     w_complete_set = False, w_future_taken = False, w_thread = None, w_joined = False\<rparr>"

definition Worker_destructor :: "WorkerImpl \<Rightarrow> failure + unit" where
  "Worker_destructor w =
     (if w_shutdown w then Inr () else Inl (ReleaseAssertFailure ''Call shutdown() before destruction.''))"

definition Worker_initiateShutdown :: "WorkerImpl \<Rightarrow> WorkerImpl" where
  "Worker_initiateShutdown w =
     (let w = w\<lparr>w_shutdown := True\<rparr>
      in if \<not> w_exit_signaled w then w\<lparr>w_exit_signaled := True, w_exit_set := True\<rparr> else w)"

definition Worker_start :: "WorkerImpl \<Rightarrow> failure + WorkerImpl" where
  "Worker_start w =
     (if w_started w then Inl (ReleaseAssertFailure ''WorkerImpl::start() expected started_ to be false'')
      else Inr (w\<lparr>w_started := True, w_shutdown := False, w_thread := Some []\<rparr>))"

text \<open>What the worker's thread does next; it waits for the exit signal.\<close>

definition thread_step :: "WorkerImpl \<Rightarrow> WorkerImpl option" where
  "thread_step w =
     (case w_thread w of
        None \<Rightarrow> None
      | Some done_actions \<Rightarrow>
          if length thread_body \<le> length done_actions then None
          else (let a = thread_body ! length done_actions;
                    w' = w\<lparr>w_thread := Some (done_actions @ [a])\<rparr>
                in if a = SeeExit \<and> \<not> w_exit_set w then None
                   else Some (if a = SetComplete then w'\<lparr>w_complete_set := True\<rparr> else w')))"

definition thread_finished :: "WorkerImpl \<Rightarrow> bool" where
  "thread_finished w \<longleftrightarrow> w_thread w = Some thread_body"

text \<open>The second half of \<^verbatim>\<open>shutdown()\<close>: joining a thread that exists.\<close>

definition Worker_join :: "WorkerImpl \<Rightarrow> WorkerImpl option" where
  "Worker_join w =
     (if w_thread w = None \<or> w_joined w then Some w
      else if thread_finished w then Some (w\<lparr>w_joined := True\<rparr>) else None)"

text \<open>\<^verbatim>\<open>waitForCompletion()\<close> blocks until the promise is set; its future can be taken only once.\<close>

definition Worker_waitForCompletion :: "WorkerImpl \<Rightarrow> (failure + WorkerImpl) option" where
  "Worker_waitForCompletion w =
     (if w_future_taken w then Some (Inl (StdException ''Future already retrieved''))
      else if w_complete_set w then Some (Inr (w\<lparr>w_future_taken := True\<rparr>)) else None)"

inductive worker_step :: "WorkerImpl \<Rightarrow> WorkerImpl \<Rightarrow> bool" where
  start: "Worker_start w = Inr w' \<Longrightarrow> worker_step w w'"
| runs: "thread_step w = Some w' \<Longrightarrow> worker_step w w'"
| wait: "Worker_waitForCompletion w = Some (Inr w') \<Longrightarrow> worker_step w w'"
| initiate: "worker_step w (Worker_initiateShutdown w)"
| shutdown: "Worker_join (Worker_initiateShutdown w) = Some w' \<Longrightarrow> worker_step w w'"

inductive worker_reach :: "WorkerImpl \<Rightarrow> bool" where
  created: "worker_reach new_WorkerImpl"
| stepped: "worker_reach w \<Longrightarrow> worker_step w w' \<Longrightarrow> worker_reach w'"

section \<open>Phases and the client worker\<close>

text \<open>
  \<^verbatim>\<open>PhaseImpl::run()\<close>: the sequencer is started and its events are handled until it exits the
  dispatcher.
\<close>

inductive Phase_run ::
    "('r, 'w) sequencer_deps \<Rightarrow> clock \<Rightarrow> ('r, 'w) Sequencer \<Rightarrow> ('r, 'w) Sequencer \<Rightarrow> bool" for D where
  "Sequencer_start D c s = Some (Inr s1) \<Longrightarrow> (seq_step D)\<^sup>*\<^sup>* s1 s2 \<Longrightarrow> dispatcher_exit s2 \<Longrightarrow> Phase_run D c s s2"

text \<open>
  The warm-up request. When it was started the dispatcher runs until its completion callback makes
  the dispatcher exit; \<open>meanwhile\<close> are the events delivered until then.
\<close>

record 'h warmup_events =
  wu_pool :: bool
  wu_time :: int
  wu_inside :: "'h stream_event list"
  wu_meanwhile :: "(nat \<times> 'h stream_event) list"

definition simpleWarmup ::
    "('h, 'g, 'p) client_env \<Rightarrow> 'h warmup_events \<Rightarrow> ('h, 'g, 'p) BenchmarkClient
      \<Rightarrow> failure + ('h, 'g, 'p) BenchmarkClient" where
  "simpleWarmup E ev c =
     (case tryStartRequest E (wu_pool ev) (wu_time ev) (wu_inside ev) c of
        Inl f \<Rightarrow> Inl f
      | Inr (True, c) \<Rightarrow> run_steps (map (\<lambda>(i, e). deliver E i e) (wu_meanwhile ev)) c
      | Inr (False, c) \<Rightarrow> Inr c)"

text \<open>The counters of this worker in a snapshot of the store, without their prefixes.\<close>

definition snapshot_counter :: "int \<Rightarrow> string \<times> u64 \<Rightarrow> (string \<times> u64) list \<Rightarrow> (string \<times> u64) list" where
  "snapshot_counter worker_number = (\<lambda>(name, v) m.
     (let stat_name = strip_prefix name ''cluster.'';
          stat_name = strip_prefix stat_name ''worker.'';
          worker_prefix = show_int worker_number @ ''.''
      in if v \<noteq> 0 \<and> starts_with stat_name worker_prefix then map_set (strip_prefix stat_name worker_prefix) v m
         else m))"

definition threadLocalCounterValues :: "int \<Rightarrow> (string \<times> u64) list \<Rightarrow> (string \<times> u64) list" where
  "threadLocalCounterValues worker_number stats = fold (snapshot_counter worker_number) stats []"

text \<open>
  \<^verbatim>\<open>ClientWorkerImpl::work()\<close> up to the phase, which measures latencies, and the snapshot after it:
  \<open>init_generator\<close> is the request source's \<^verbatim>\<open>initOnThread\<close>.
\<close>

definition prepare_client ::
    "('h, 'g, 'p) client_env \<Rightarrow> ('g \<Rightarrow> failure + 'g) \<Rightarrow> 'h warmup_events option
      \<Rightarrow> ('h, 'g, 'p) BenchmarkClient \<Rightarrow> failure + ('h, 'g, 'p) BenchmarkClient" where
  "prepare_client E init_generator warmup c =
     run_steps
       [assign (setShouldMeasureLatencies False),
        (\<lambda>c. map_sum id (\<lambda>g. c\<lparr>generator_state := g\<rparr>) (init_generator (generator_state c))),
        (\<lambda>c. case warmup of Some ev \<Rightarrow> simpleWarmup E ev c | None \<Rightarrow> Inr c),
        assign (setShouldMeasureLatencies True)] c"

text \<open>\<^verbatim>\<open>shutdownThread()\<close>: the client drains, then the request source is destroyed on this thread.\<close>

definition ClientWorker_shutdownThread ::
    "('h, 'g, 'p) client_env \<Rightarrow> ('g \<Rightarrow> 'g) \<Rightarrow> bool \<Rightarrow> (nat \<times> 'h stream_event) list
      \<Rightarrow> ('h, 'g, 'p) BenchmarkClient \<Rightarrow> failure + ('h, 'g, 'p) BenchmarkClient" where
  "ClientWorker_shutdownThread E destroy_generator has_active_connections drained c =
     run_steps
       [BenchmarkClient_terminate E has_active_connections drained,
        assign (\<lambda>c. c\<lparr>generator_state := destroy_generator (generator_state c)\<rparr>)] c"

text \<open>The cancellation that a later event of the worker's dispatcher carries out.\<close>

definition requestExecutionCancellation_posted :: "counters \<Rightarrow> counters" where
  "requestExecutionCancellation_posted counts =
     counts(''graceful_stop_requested'' := counts ''graceful_stop_requested'' + 1)"

text \<open>\<^verbatim>\<open>statistics()\<close>: \<^verbatim>\<open>std::map::insert\<close> keeps the entry that is already there.\<close>

definition ClientWorker_statistics :: "(string \<times> 'v) list \<Rightarrow> (string \<times> 'v) list \<Rightarrow> (string \<times> 'v) list" where
  "ClientWorker_statistics s1 s2 =
     fold (\<lambda>(k, v) m. if map_of m k = None then map_set k v m else m) (s1 @ s2) []"

section \<open>The flush worker\<close>

text \<open>The timer is \<open>None\<close> before \<^verbatim>\<open>work()\<close> and after \<^verbatim>\<open>shutdownThread()\<close>; \<open>flushes\<close> counts snapshots.\<close>

record FlushWorker =
  flush_interval_ms :: int
  stat_flush_timer :: "timer option"
  flushes :: nat

definition flushStats :: "FlushWorker \<Rightarrow> FlushWorker" where
  "flushStats f =
     (let f = f\<lparr>flushes := flushes f + 1\<rparr>
      in case stat_flush_timer f of
           Some _ \<Rightarrow> f\<lparr>stat_flush_timer := Some (Armed (flush_interval_ms f * 1000000))\<rparr>
         | None \<Rightarrow> f)"

definition FlushWorker_work :: "FlushWorker \<Rightarrow> FlushWorker" where
  "FlushWorker_work f = f\<lparr>stat_flush_timer := Some (Armed (flush_interval_ms f * 1000000))\<rparr>"

definition FlushWorker_shutdownThread :: "FlushWorker \<Rightarrow> FlushWorker" where
  "FlushWorker_shutdownThread f = flushStats (f\<lparr>stat_flush_timer := None\<rparr>)"

section \<open>The life cycle is orderly\<close>

definition body_prefix :: "thread_action list \<Rightarrow> bool" where
  "body_prefix as \<longleftrightarrow> take (length as) thread_body = as"

lemma body_prefix_Nil [simp]: "body_prefix []"
  by (simp add: body_prefix_def)

lemma body_prefix_snoc:
  "body_prefix as \<Longrightarrow> length as < length thread_body \<Longrightarrow> body_prefix (as @ [thread_body ! length as])"
  by (simp add: body_prefix_def take_Suc_conv_app_nth)

definition worker_ok :: "WorkerImpl \<Rightarrow> bool" where
  "worker_ok w \<longleftrightarrow>
     w_exit_set w = w_exit_signaled w
     \<and> (w_thread w = None \<longleftrightarrow> \<not> w_started w)
     \<and> (\<forall>as. w_thread w = Some as \<longrightarrow>
           body_prefix as
           \<and> (w_complete_set w \<longleftrightarrow> SetComplete \<in> set as)
           \<and> (SeeExit \<in> set as \<longrightarrow> w_exit_signaled w))
     \<and> (w_thread w = None \<longrightarrow> \<not> w_complete_set w)
     \<and> (w_joined w \<longrightarrow> thread_finished w \<and> w_shutdown w)"

lemma worker_ok_initiate: "worker_ok w \<Longrightarrow> worker_ok (Worker_initiateShutdown w)"
  by (auto simp: worker_ok_def Worker_initiateShutdown_def thread_finished_def Let_def)

lemma worker_ok_thread_step:
  assumes "worker_ok w" "thread_step w = Some w'"
  shows "worker_ok w'"
proof -
  obtain as where as: "w_thread w = Some as" "length as < length thread_body"
    using assms(2) by (auto simp: thread_step_def split: option.splits if_splits)
  define a where "a = thread_body ! length as"
  have w': "w' = w\<lparr>w_thread := Some (as @ [a]), w_complete_set := (w_complete_set w \<or> a = SetComplete)\<rparr>"
    and exit: "a = SeeExit \<longrightarrow> w_exit_set w"
    using assms(2) as by (auto simp: thread_step_def a_def Let_def not_le split: if_splits)
  have "body_prefix (as @ [a])"
    using assms(1) as body_prefix_snoc unfolding worker_ok_def a_def by blast
  moreover have "\<not> w_joined w" using assms(1) as by (auto simp: worker_ok_def thread_finished_def)
  ultimately show ?thesis
    using assms(1) as(1) exit unfolding w' worker_ok_def by auto
qed

lemma worker_ok_join:
  assumes "worker_ok w" "w_shutdown w" "Worker_join w = Some w'"
  shows "worker_ok w'"
proof (cases "w' = w")
  case False
  then have "w' = w\<lparr>w_joined := True\<rparr>" "thread_finished w"
    using assms(3) by (auto simp: Worker_join_def split: if_splits)
  then show ?thesis using assms(1,2) by (simp add: worker_ok_def thread_finished_def)
qed (use assms(1) in simp)

lemma worker_ok_step: "worker_step w w' \<Longrightarrow> worker_ok w \<Longrightarrow> worker_ok w'"
proof (induction rule: worker_step.induct)
  case (start w w')
  then have "\<not> w_started w" "w' = w\<lparr>w_started := True, w_shutdown := False, w_thread := Some []\<rparr>"
    by (auto simp: Worker_start_def split: if_splits)
  then show ?case using start(2) by (auto simp: worker_ok_def thread_finished_def)
next
  case (runs w w')
  then show ?case by (blast intro: worker_ok_thread_step)
next
  case (wait w w')
  then have "w' = w\<lparr>w_future_taken := True\<rparr>" by (auto simp: Worker_waitForCompletion_def split: if_splits)
  then show ?case using wait(2) by (simp add: worker_ok_def thread_finished_def)
next
  case (initiate w)
  then show ?case by (rule worker_ok_initiate)
next
  case (shutdown w w')
  have "w_shutdown (Worker_initiateShutdown w)" by (simp add: Worker_initiateShutdown_def Let_def)
  then show ?case using worker_ok_join [OF worker_ok_initiate [OF shutdown(2)] _ shutdown(1)] by simp
qed

lemma worker_reach_ok: "worker_reach w \<Longrightarrow> worker_ok w"
proof (induction rule: worker_reach.induct)
  case created
  then show ?case by (simp add: worker_ok_def new_WorkerImpl_def)
next
  case (stepped w w')
  then show ?case using worker_ok_step by simp
qed

text \<open>Once signalled, the thread runs to its end without the main thread.\<close>

lemma thread_runs_out:
  assumes "worker_ok w" "w_thread w = Some as" "w_exit_signaled w"
  shows "\<exists>w'. (\<lambda>a b. thread_step a = Some b)\<^sup>*\<^sup>* w w' \<and> thread_finished w'"
  using assms
proof (induction "length thread_body - length as" arbitrary: w as)
  case 0
  have "body_prefix as" using 0(2,3) by (simp add: worker_ok_def)
  then have "as = thread_body" using 0(1) by (simp add: body_prefix_def)
  then show ?case using 0(3) by (auto simp: thread_finished_def)
next
  case (Suc n)
  let ?a = "thread_body ! length as"
  have lt: "length as < length thread_body" using Suc(2) by simp
  have "w_exit_set w" using Suc(3,5) by (simp add: worker_ok_def)
  then obtain w' where w': "thread_step w = Some w'" "w_thread w' = Some (as @ [?a])" "w_exit_signaled w'"
    using Suc(4,5) lt by (cases "?a = SetComplete") (simp_all add: thread_step_def Let_def not_le)
  have "n = length thread_body - length (as @ [?a])" using Suc(2) by simp
  from Suc(1) [OF this worker_ok_thread_step [OF Suc(3) w'(1)] w'(2,3)] obtain w'' where
    "(\<lambda>a b. thread_step a = Some b)\<^sup>*\<^sup>* w' w''" "thread_finished w''" by blast
  then show ?case using w'(1) by (blast intro: converse_rtranclp_into_rtranclp)
qed

lemma thread_steps_frame:
  assumes "(\<lambda>a b. thread_step a = Some b)\<^sup>*\<^sup>* w w'"
  shows "w_shutdown w' = w_shutdown w \<and> (worker_ok w \<longrightarrow> worker_ok w')"
  using assms
proof (induction rule: rtranclp_induct)
  case (step v v')
  then have "w_shutdown v' = w_shutdown v"
    by (auto simp: thread_step_def Let_def split: option.splits if_splits)
  then show ?case using step(2,3) worker_ok_thread_step by auto
qed simp

lemma body_prefix_order:
  assumes "body_prefix as"
  shows "SetComplete \<in> set as \<Longrightarrow> DoWork \<in> set as" "ShutdownThread \<in> set as \<Longrightarrow> SeeExit \<in> set as"
proof -
  have "as \<in> set (map (\<lambda>n. take n thread_body) [0..<7])"
  proof -
    have "length as \<le> length thread_body"
      using assms by (metis body_prefix_def length_take min.cobounded2 min.commute)
    then have "length as \<in> set [0..<7]" by (simp add: thread_body_def)
    then show ?thesis using assms unfolding body_prefix_def by (metis image_eqI set_map)
  qed
  then show "SetComplete \<in> set as \<Longrightarrow> DoWork \<in> set as" "ShutdownThread \<in> set as \<Longrightarrow> SeeExit \<in> set as"
    by (auto simp: thread_body_def upt_rec)
qed



section \<open>Warming up\<close>

text \<open>The latencies that are reported.\<close>

definition latencies_of :: "BenchmarkClientStatistic \<Rightarrow> u64 list list" where
  "latencies_of s = [connect_statistic s, response_statistic s, latency_1xx_statistic s, latency_2xx_statistic s,
     latency_3xx_statistic s, latency_4xx_statistic s, latency_5xx_statistic s, latency_xxx_statistic s]"

definition unmeasured :: "u64 list list \<Rightarrow> ('h, 'g, 'p) BenchmarkClient \<Rightarrow> bool" where
  "unmeasured ls c \<longleftrightarrow> \<not> measure_latencies c \<and> latencies_of (bc_statistic c) = ls
     \<and> (\<forall>i d. decoders c i = Some d \<longrightarrow> \<not> sd_measure_latencies d)"

lemma unmeasured_frame [simp]:
  "unmeasured ls (BenchmarkClient_onComplete E success h c) \<longleftrightarrow> unmeasured ls c"
  "unmeasured ls (handleResponseData E dat c) \<longleftrightarrow> unmeasured ls c"
  "unmeasured ls (BenchmarkClient_onPoolFailure r c) \<longleftrightarrow> unmeasured ls c"
  by (simp_all add: unmeasured_def BenchmarkClient_onComplete_def handleResponseData_def
      BenchmarkClient_onPoolFailure_def Let_def split: prod.splits)

lemma unmeasured_set_decoder:
  "unmeasured ls c \<Longrightarrow> \<not> sd_measure_latencies d \<Longrightarrow> unmeasured ls (set_decoder i d c)"
  by (auto simp: unmeasured_def set_decoder_def)

lemma unmeasured_finish_decoder: "unmeasured ls c \<Longrightarrow> unmeasured ls (finish_decoder i k c)"
  by (auto simp: unmeasured_def finish_decoder_def)

lemma unmeasured_sizes:
  "unmeasured ls c \<Longrightarrow> unmeasured ls (c\<lparr>bc_statistic := (bc_statistic c)\<lparr>response_body_size_statistic := v\<rparr>\<rparr>)"
  "unmeasured ls c \<Longrightarrow> unmeasured ls (c\<lparr>bc_statistic := (bc_statistic c)
     \<lparr>response_header_size_statistic := v, origin_latency_statistic := v'\<rparr>\<rparr>)"
  by (simp_all add: unmeasured_def latencies_of_def)

lemma unmeasured_onComplete:
  assumes "unmeasured ls c" "\<not> sd_measure_latencies d"
  shows "unmeasured ls (StreamDecoder_onComplete E now now' success i d c)"
  using assms(2) unmeasured_sizes(1) [OF assms(1)]
  by (simp add: StreamDecoder_onComplete_def Let_def unmeasured_finish_decoder)

lemma unmeasured_handle_event:
  assumes "handle_event E i d ev c = Inr c'" "unmeasured ls c" "\<not> sd_measure_latencies d"
  shows "unmeasured ls c'"
  using assms(1)
  by (cases ev) (use assms(2,3) in \<open>auto simp: onPoolReady_def StreamDecoder_onPoolFailure_def decodeHeaders_def decodeData_def
      decodeTrailers_def onResetStream_def Let_def split: if_splits
      intro!: unmeasured_onComplete unmeasured_set_decoder unmeasured_finish_decoder unmeasured_sizes\<close>)

lemma unmeasured_deliver: "deliver E i ev c = Inr c' \<Longrightarrow> unmeasured ls c \<Longrightarrow> unmeasured ls c'"
proof -
  assume c': "deliver E i ev c = Inr c'" and c: "unmeasured ls c"
  then obtain d where d: "decoders c i = Some d" "handle_event E i d ev c = Inr c'"
    by (auto simp: deliver_def split: option.splits)
  moreover have "\<not> sd_measure_latencies d" using c d(1) by (simp add: unmeasured_def)
  ultimately show "unmeasured ls c'" using unmeasured_handle_event c by blast
qed

lemma keeps_deliver: "keeps (unmeasured ls) (deliver E i ev)"
  by (rule keepsI) (rule unmeasured_deliver)

lemma unmeasured_tryStartRequest:
  assumes "tryStartRequest E pool now inside c = Inr (b, c')" "unmeasured ls c"
  shows "unmeasured ls c'"
proof -
  have new: "unmeasured ls (set_decoder i (new_StreamDecoder now req (measure_latencies c) n h)
      (c\<lparr>generator_state := g, streams_created := k\<rparr>)\<lparr>requests_initiated := r\<rparr>)" for g i req n h k r
    using assms(2) by (auto simp: unmeasured_def set_decoder_def new_StreamDecoder_def)
  have "keeps (unmeasured ls) (run_steps (map (deliver E i) inside))" for i
    by (rule run_steps_keeps) (simp add: list_all_iff keeps_deliver)
  note inside = keepsD [OF this _ new]
  have g: "unmeasured ls (c\<lparr>generator_state := g\<rparr>)" for g using assms(2) by (simp add: unmeasured_def)
  show ?thesis
    using assms(1) g assms(2) inside
    by (auto simp: tryStartRequest_def Let_def map_sum_Inr_eq split: if_splits prod.splits option.splits)
qed

lemma unmeasured_simpleWarmup:
  assumes "simpleWarmup E ev c = Inr c'" "unmeasured ls c"
  shows "unmeasured ls c'"
proof -
  obtain b c1 where c1: "tryStartRequest E (wu_pool ev) (wu_time ev) (wu_inside ev) c = Inr (b, c1)"
    using assms(1) by (auto simp: simpleWarmup_def split: sum.splits prod.splits)
  have "unmeasured ls c1" by (rule unmeasured_tryStartRequest [OF c1 assms(2)])
  moreover have "keeps (unmeasured ls) (run_steps (map (\<lambda>(i, e). deliver E i e) (wu_meanwhile ev)))"
    by (rule run_steps_keeps) (auto simp: list_all_iff keeps_deliver)
  ultimately show ?thesis using assms(1) c1 by (cases b) (auto simp: simpleWarmup_def dest: keepsD)
qed



end
