(* ===== verification/UserOutput.thy ===== *)
theory UserOutput
  imports BenchmarkClient
begin

text \<open>
  User defined output plugins: how a worker's plugins are created
  (\<^verbatim>\<open>source/user_defined_output/user_defined_output_plugin_creator.cc\<close>) and the plugin that logs
  response headers (\<^verbatim>\<open>log_response_headers_plugin.{h,cc}\<close>). The header logger is the list of the
  entries given to it. How the output of the workers is collected by plugin and aggregated
  (\<^verbatim>\<open>source/client/process_impl.cc\<close>) is here as well.
\<close>

section \<open>Creating the plugins of a worker\<close>

text \<open>A factory, with the two operations the code calls on it; \<open>'p\<close> is the state of a plugin.\<close>

record 'p output_plugin_factory =
  upf_name :: string
  upf_createPlugin :: "opaque \<Rightarrow> int \<Rightarrow> 'p status_or"
  upf_AggregateGlobalOutput :: "UserDefinedOutput list \<Rightarrow> opaque status_or"

type_synonym 'p config_factory_pair = "TypedExtensionConfig \<times> 'p output_plugin_factory"

fun createUserDefinedOutputPlugins ::
    "'p config_factory_pair list \<Rightarrow> int \<Rightarrow> (string \<times> 'p) list status_or" where
  "createUserDefinedOutputPlugins [] worker_number = Inr []"
| "createUserDefinedOutputPlugins ((config, factory) # pairs) worker_number =
     (case upf_createPlugin factory (typed_config config) worker_number of
        Inl st \<Rightarrow> Inl st
      | Inr plugin \<Rightarrow> map_sum id ((#) (upf_name factory, plugin)) (createUserDefinedOutputPlugins pairs worker_number))"

section \<open>The plugin that logs response headers\<close>

datatype LoggingMode = LM_UNKNOWN | LM_LOG_ALL_RESPONSES | LM_SKIP_200_LEVEL_RESPONSES

record LogResponseHeadersConfig =
  log_headers_with_name :: "string list"
  logging_mode :: LoggingMode

record LogResponseHeadersPlugin =
  lrh_config :: LogResponseHeadersConfig
  header_logger :: "(string \<times> string) list"

text \<open>What the plugin calls of Envoy: \<open>iterate\<close> gives the entries of a header map in order.\<close>

record 'h log_env =
  log_headers :: "'h header_map"
  log_iterate :: "'h \<Rightarrow> (string \<times> string) list"
  log_getResponseStatus :: "'h \<Rightarrow> u64"
  log_unpackTo :: "opaque \<Rightarrow> LogResponseHeadersConfig status_or"
  log_empty_output :: opaque

definition shouldLogResponse :: "'h log_env \<Rightarrow> LogResponseHeadersConfig \<Rightarrow> 'h \<Rightarrow> bool" where
  "shouldLogResponse E config h =
     (if logging_mode config = LM_SKIP_200_LEVEL_RESPONSES
      then \<not> (200 \<le> log_getResponseStatus E h \<and> log_getResponseStatus E h < 300)
      else True)"

definition logAllHeaders :: "'h log_env \<Rightarrow> 'h \<Rightarrow> (string \<times> string) list" where
  "logAllHeaders E h = log_iterate E h"

definition logSpecifiedHeaders ::
    "'h log_env \<Rightarrow> LogResponseHeadersConfig \<Rightarrow> 'h \<Rightarrow> (string \<times> string) list" where
  "logSpecifiedHeaders E config h =
     concat (map (\<lambda>header_name.
         let name = LowerCaseString (log_headers E) header_name
         in map (Pair name) (hm_get (log_headers E) h name))
       (log_headers_with_name config))"

fun check_header_names :: "(string \<Rightarrow> string) \<Rightarrow> string list \<Rightarrow> string list \<Rightarrow> status" where
  "check_header_names lower [] seen = OkStatus"
| "check_header_names lower (n # ns) seen =
     (if n = []
      then Status kInvalidArgument ''Invalid configuration for LogResponseHeadersPlugin. Received empty header''
      else if lower n \<in> set seen
      then Status kInvalidArgument (''Invalid configuration for LogResponseHeadersPlugin. Duplicate header '' @ n)
      else check_header_names lower ns (lower n # seen))"

definition validateConfig :: "(string \<Rightarrow> string) \<Rightarrow> LogResponseHeadersConfig \<Rightarrow> status" where
  "validateConfig lower config =
     (if logging_mode config = LM_UNKNOWN
      then Status kInvalidArgument
        ''Invalid configuration for LogResponseHeadersPlugin. Must provide a valid LoggingMode''
      else check_header_names lower (log_headers_with_name config) [])"

definition LogResponseHeaders_handleResponseHeaders ::
    "'h log_env \<Rightarrow> LogResponseHeadersPlugin \<Rightarrow> 'h \<Rightarrow> status \<times> LogResponseHeadersPlugin" where
  "LogResponseHeaders_handleResponseHeaders E p h =
     (OkStatus,
      if shouldLogResponse E (lrh_config p) h
      then p\<lparr>header_logger := header_logger p @
             (if log_headers_with_name (lrh_config p) = [] then logAllHeaders E h
              else logSpecifiedHeaders E (lrh_config p) h)\<rparr>
      else p)"

definition LogResponseHeaders_handleResponseData ::
    "LogResponseHeadersPlugin \<Rightarrow> string \<Rightarrow> status \<times> LogResponseHeadersPlugin" where
  "LogResponseHeaders_handleResponseData p dat = (OkStatus, p)"

definition LogResponseHeaders_createPlugin ::
    "'h log_env \<Rightarrow> opaque \<Rightarrow> int \<Rightarrow> LogResponseHeadersPlugin status_or" where
  "LogResponseHeaders_createPlugin E config_any worker_number =
     (case log_unpackTo E config_any of
        Inl st \<Rightarrow> Inl st
      | Inr config \<Rightarrow>
          (let st = validateConfig (LowerCaseString (log_headers E)) config
           in if \<not> ok st then Inl st else Inr \<lparr>lrh_config = config, header_logger = []\<rparr>))"

definition LogResponseHeadersPluginFactory :: "'h log_env \<Rightarrow> LogResponseHeadersPlugin output_plugin_factory" where
  "LogResponseHeadersPluginFactory E =
     \<lparr>upf_name = ''nighthawk.log_response_headers_plugin'',
      upf_createPlugin = LogResponseHeaders_createPlugin E,
      upf_AggregateGlobalOutput = (\<lambda>_. Inr (log_empty_output E))\<rparr>"

section \<open>Collecting the output of the workers\<close>

text \<open>A hash map by plugin name, of which only lookups are made.\<close>

definition collectUserDefinedOutputs ::
    "UserDefinedOutput list \<Rightarrow> (string \<Rightarrow> UserDefinedOutput list option)
      \<Rightarrow> (string \<Rightarrow> UserDefinedOutput list option)" where
  "collectUserDefinedOutputs worker_outputs m =
     fold (\<lambda>u m. case m (plugin_name u) of
             None \<Rightarrow> m(plugin_name u \<mapsto> [u])
           | Some us \<Rightarrow> m(plugin_name u \<mapsto> us @ [u])) worker_outputs m"

definition compileGlobalUserDefinedPluginOutputs ::
    "(status \<Rightarrow> string) \<Rightarrow> (string \<Rightarrow> UserDefinedOutput list option) \<Rightarrow> 'p config_factory_pair list
      \<Rightarrow> UserDefinedOutput list" where
  "compileGlobalUserDefinedPluginOutputs status_str m pairs =
     map (\<lambda>(config, factory).
       \<lparr>plugin_name = upf_name factory,
        plugin_output =
          (case m (upf_name factory) of
             Some us \<Rightarrow> (case upf_AggregateGlobalOutput factory us of
                           Inr any \<Rightarrow> TypedOutput any
                         | Inl st \<Rightarrow> ErrorMessage (status_str st))
           | None \<Rightarrow> ErrorMessage ''No per worker outputs found for a factory when performing aggregation'')\<rparr>)
       pairs"

section \<open>Facts\<close>

text \<open>The collected map has, for each plugin, the outputs of all workers in worker order.\<close>

lemma collected_outputs:
  "fold collectUserDefinedOutputs outs (\<lambda>_. None) name =
     (let us = filter (\<lambda>u. plugin_name u = name) (concat outs) in if us = [] then None else Some us)"
proof -
  let ?sel = "\<lambda>us. filter (\<lambda>u. plugin_name u = name) us"
  have one: "collectUserDefinedOutputs us m name =
      (case m name of None \<Rightarrow> if ?sel us = [] then None else Some (?sel us) | Some vs \<Rightarrow> Some (vs @ ?sel us))" for us m
    by (induction us arbitrary: m) (auto simp: collectUserDefinedOutputs_def split: option.splits)
  have "fold collectUserDefinedOutputs outs m name =
      (case m name of None \<Rightarrow> if ?sel (concat outs) = [] then None else Some (?sel (concat outs))
       | Some vs \<Rightarrow> Some (vs @ ?sel (concat outs)))" for m
    by (induction outs arbitrary: m) (auto simp: one split: option.splits)
  then show ?thesis by (simp add: Let_def)
qed

lemma created_plugin_names:
  "createUserDefinedOutputPlugins pairs n = Inr ps \<Longrightarrow> map fst ps = map (upf_name \<circ> snd) pairs"
proof (induction pairs arbitrary: ps)
  case (Cons p pairs)
  then show ?case
    by (cases p; cases "createUserDefinedOutputPlugins pairs n") (auto split: sum.splits)
qed simp

lemma valid_header_names:
  "ok (check_header_names lower ns seen) \<longleftrightarrow>
     [] \<notin> set ns \<and> distinct (map lower ns) \<and> set (map lower ns) \<inter> set seen = {}"
  by (induction ns arbitrary: seen) (auto simp: ok_def)

end
