(* ===== verification/Results.thy ===== *)
theory Results
  imports UserOutput Output
begin

text \<open>
  How a process turns the workers' measurements into results (\<^verbatim>\<open>source/client/process_impl.cc\<close>): cloning
  and merging statistics and adding the results of each worker and of all of them to the collector.

  Statistics are used through their virtual operations, a record here; the contract
  \<open>statistic_pool\<close> says what merging needs of them.
\<close>

section \<open>Merging statistics\<close>

record 's statistic_ops =
  op_createNew :: "'s \<Rightarrow> 's"
  op_combine :: "'s \<Rightarrow> 's \<Rightarrow> 's"
  op_id :: "'s \<Rightarrow> string"
  op_setId :: "string \<Rightarrow> 's \<Rightarrow> 's"

definition vectorizeStatisticPtrMap :: "'s statistic_ops \<Rightarrow> (string \<times> 's) list \<Rightarrow> 's list" where
  "vectorizeStatisticPtrMap V stats =
     map (\<lambda>(name, s). op_setId V name (op_combine V (op_createNew V s) s)) stats"

text \<open>One worker's statistics are combined by position; a position past the end is undefined.\<close>

fun merge_worker :: "'s statistic_ops \<Rightarrow> (string \<times> 's) list \<Rightarrow> 's list \<Rightarrow> failure + 's list" where
  "merge_worker V [] merged = Inr merged"
| "merge_worker V (_ # _) [] = Inl (UndefinedBehaviour ''merged_statistics out of range'')"
| "merge_worker V ((_, s) # ss) (m # ms) =
     map_sum id ((#) (op_setId V (op_id V m) (op_combine V m s))) (merge_worker V ss ms)"

definition mergeWorkerStatistics :: "'s statistic_ops \<Rightarrow> (string \<times> 's) list list \<Rightarrow> failure + 's list" where
  "mergeWorkerStatistics V workers =
     (let merged = (case workers of
                      [] \<Rightarrow> []
                    | w0 # _ \<Rightarrow> map (\<lambda>(name, s). op_setId V name (op_createNew V s)) w0)
      in run_steps (map (merge_worker V) workers) merged)"

section \<open>Collecting the results\<close>

record 's worker_result =
  wr_statistics :: "(string \<times> 's) list"
  wr_counters :: "(string \<times> u64) list"
  wr_duration :: int
  wr_first_acquisition :: "int option"
  wr_outputs :: "UserDefinedOutput list"

definition earlier_acquisition :: "int option \<Rightarrow> int option \<Rightarrow> int option" where
  "earlier_acquisition worker_time first =
     (case worker_time of
        None \<Rightarrow> first
      | Some t \<Rightarrow> (case first of None \<Rightarrow> Some t | Some t' \<Rightarrow> Some (min t' t)))"

text \<open>\<open>view\<close> is a statistic as the collector sees it.\<close>

definition add_worker_result ::
    "output_env \<Rightarrow> 's statistic_ops \<Rightarrow> ('s \<Rightarrow> statistic) \<Rightarrow> nat \<Rightarrow> nat \<times> 's worker_result \<Rightarrow> Output \<Rightarrow> Output" where
  "add_worker_result F V view n = (\<lambda>(i, w) out.
     (if 1 < n
      then addResult F (''worker_'' @ show_nat i) (map view (vectorizeStatisticPtrMap V (wr_statistics w)))
             (wr_counters w) (wr_duration w) (wr_first_acquisition w) (wr_outputs w) out
      else out))"

text \<open>
  The total of the signed durations is divided by the unsigned number of workers, in 64 bits.
\<close>

definition mean_duration :: "int \<Rightarrow> nat \<Rightarrow> int" where
  "mean_duration sum_ns n = sint ((word_of_int sum_ns :: u64) div of_nat n)"

definition collect_results ::
    "output_env \<Rightarrow> 's statistic_ops \<Rightarrow> ('s \<Rightarrow> statistic) \<Rightarrow> (status \<Rightarrow> string) \<Rightarrow> 'p config_factory_pair list
      \<Rightarrow> (string \<times> u64) list \<Rightarrow> 's worker_result list \<Rightarrow> Output \<Rightarrow> failure + bool \<times> Output" where
  "collect_results F V view status_str factories global_counters ws out =
     (let out = fold (add_worker_result F V view (length ws)) (enumerate 0 ws) out;
          total_execution_duration = sum_list (map wr_duration ws);
          first_acquisition_time = fold (\<lambda>w. earlier_acquisition (wr_first_acquisition w)) ws None;
          by_plugin = fold collectUserDefinedOutputs (map wr_outputs ws) (\<lambda>_. None);
          global_outputs = compileGlobalUserDefinedPluginOutputs status_str by_plugin factories;
          success = (map_of global_counters ''sequencer.failed_terminations'' = None)
      in if ws = [] then Inr (success, out)
         else map_sum id
           (\<lambda>merged. (success,
              addResult F ''global'' (map view merged) global_counters
                (mean_duration total_execution_duration (length ws)) first_acquisition_time global_outputs out))
           (mergeWorkerStatistics V (map wr_statistics ws)))"

lemma mean_duration_exact:
  assumes "0 \<le> t" "t < 2 ^ 63" "0 < n" "n < 2 ^ 64"
  shows "mean_duration t n = t div int n"
proof -
  have "uint ((word_of_int t :: u64) div of_nat n) = t div int n"
    using assms by (simp add: uint_div uint_word_of_int_eq unsigned_of_nat take_bit_int_eq_self take_bit_nat_eq_self)
  moreover have "t div int n \<le> t" "0 \<le> t div int n"
    using assms int_one_le_iff_zero_less zdiv_mono2 [of t 1 "int n"] by (simp_all add: pos_imp_zdiv_nonneg_iff)
  ultimately show ?thesis
    using assms by (simp add: mean_duration_def sint_uint signed_take_bit_int_eq_self)
qed

lemma earlier_acquisition_simps [simp]:
  "earlier_acquisition None first = first"
  "earlier_acquisition (Some t) None = Some t"
  "earlier_acquisition (Some t) (Some t') = Some (min t' t)"
  by (simp_all add: earlier_acquisition_def)

lemma first_acquisition_from:
  "fold earlier_acquisition ts (Some t) = Some (Min (insert t (Option.these (set ts))))"
proof (induction ts arbitrary: t)
  case (Cons t' ts)
  have "Option.these (insert (Some x) A) = insert x (Option.these A)" "Option.these (insert None A) = Option.these A"
    for x :: int and A by auto
  moreover have "finite (Option.these (set ts))" by (simp add: Option.these_def)
  ultimately show ?case
    using Cons.IH by (cases t'; cases "Option.these (set ts) = {}") (simp_all add: min.assoc)
qed simp

lemma first_acquisition_earliest:
  "fold earlier_acquisition ts None =
     (if Option.these (set ts) = {} then None else Some (Min (Option.these (set ts))))"
proof (induction ts)
  case (Cons t ts)
  then show ?case by (cases t) (simp_all add: first_acquisition_from)
qed simp

section \<open>The contract of a statistic\<close>

text \<open>\<open>pools s xs\<close>: the statistic \<open>s\<close> is that of the samples \<open>xs\<close>.\<close>

locale statistic_pool =
  fixes V :: "'s statistic_ops" and pools :: "'s \<Rightarrow> 'x list \<Rightarrow> bool"
  assumes new_law: "pools (op_createNew V s) []"
    and combine_law: "pools a xs \<Longrightarrow> pools b ys \<Longrightarrow> length xs + length ys < 2 ^ 64 \<Longrightarrow> pools (op_combine V a b) (xs @ ys)"
    and setId_law: "pools (op_setId V i s) xs \<longleftrightarrow> pools s xs"
    and id_law: "op_id V (op_setId V i s) = i"
begin

lemma merge_worker_pools:
  assumes "list_all2 pools ms xss" "list_all2 (\<lambda>(_, s) ys. pools s ys) ss yss" "length ss = length ms"
    "\<forall>i < length ms. length (xss ! i) + length (yss ! i) < 2 ^ 64"
  shows "\<exists>ms'. merge_worker V ss ms = Inr ms' \<and> list_all2 pools ms' (map2 (@) xss yss) \<and> map (op_id V) ms' = map (op_id V) ms"
  using assms
proof (induction V \<equiv> V ss ms arbitrary: xss yss rule: merge_worker.induct)
  case (3 n s ss m ms)
  obtain xs xss' ys yss' where e: "xss = xs # xss'" "yss = ys # yss'" "pools m xs" "pools s ys"
      "list_all2 pools ms xss'" "list_all2 (\<lambda>(_, s) ys. pools s ys) ss yss'"
    using 3(2,3) by (auto simp: list_all2_Cons1)
  have bound: "length xs + length ys < 2 ^ 64" "\<forall>i < length ms. length (xss' ! i) + length (yss' ! i) < 2 ^ 64"
    using 3(5) e(1,2) by auto
  from 3(1) [OF e(5,6) _ bound(2)] 3(4) show ?case
    using e combine_law [OF e(3,4) bound(1)] by (auto simp: setId_law id_law)
qed auto

lemma merge_workers_pool:
  assumes "list_all2 pools ms xss" "length ms = n"
    "list_all2 (\<lambda>w yss. length w = n \<and> list_all2 (\<lambda>(_, s) ys. pools s ys) w yss) ws ysss"
    "\<forall>i < n. length (xss ! i) + (\<Sum>yss \<leftarrow> ysss. length (yss ! i)) < 2 ^ 64"
  shows "\<exists>ms'. run_steps (map (merge_worker V) ws) ms = Inr ms' \<and> map (op_id V) ms' = map (op_id V) ms
    \<and> (\<forall>i < n. pools (ms' ! i) (xss ! i @ concat (map (\<lambda>yss. yss ! i) ysss)))"
  using assms
proof (induction ws arbitrary: ms xss ysss)
  case Nil
  then show ?case by (auto simp: list_all2_conv_all_nth)
next
  case (Cons w ws)
  obtain yss ysss' where y: "ysss = yss # ysss'" "length w = n" "list_all2 (\<lambda>(_, s) ys. pools s ys) w yss"
      "list_all2 (\<lambda>w yss. length w = n \<and> list_all2 (\<lambda>(_, s) ys. pools s ys) w yss) ws ysss'"
    using Cons(4) by (auto simp: list_all2_Cons1)
  have len: "length xss = n" "length yss = n"
    using Cons(2,3) y(2,3) by (auto dest: list_all2_lengthD)
  have "\<forall>i < length ms. length (xss ! i) + length (yss ! i) < 2 ^ 64"
    using Cons(3,5) y(1) by (force simp: add.assoc)
  from merge_worker_pools [OF Cons(2) y(3) _ this] obtain ms1 where ms1: "merge_worker V w ms = Inr ms1"
      "list_all2 pools ms1 (map2 (@) xss yss)" "map (op_id V) ms1 = map (op_id V) ms"
    using y(2) Cons(3) by auto
  have "length ms1 = n" using ms1(3) Cons(3) by (metis length_map)
  moreover have nth: "map2 (@) xss yss ! i = xss ! i @ yss ! i" if "i < n" for i using len that by simp
  moreover have "\<forall>i < n. length (map2 (@) xss yss ! i) + (\<Sum>zss \<leftarrow> ysss'. length (zss ! i)) < 2 ^ 64"
    using Cons(5) y(1) by (simp add: nth add.assoc)
  ultimately obtain ms' where ms': "run_steps (map (merge_worker V) ws) ms1 = Inr ms'" "map (op_id V) ms' = map (op_id V) ms1"
      "\<forall>i < n. pools (ms' ! i) (map2 (@) xss yss ! i @ concat (map (\<lambda>zss. zss ! i) ysss'))"
    using Cons.IH [OF ms1(2) _ y(4)] by blast
  then show ?case using ms1 nth y(1) by simp
qed

lemma merged_pools:
  assumes "list_all2 (\<lambda>w yss. length w = n \<and> list_all2 (\<lambda>(_, s) ys. pools s ys) w yss) (w0 # ws) ysss"
    "\<forall>i < n. (\<Sum>yss \<leftarrow> ysss. length (yss ! i)) < 2 ^ 64"
  shows "\<exists>ms. mergeWorkerStatistics V (w0 # ws) = Inr ms \<and> map (op_id V) ms = map fst w0
    \<and> (\<forall>i < n. pools (ms ! i) (concat (map (\<lambda>yss. yss ! i) ysss)))"
proof -
  define m0 where "m0 = map (\<lambda>(name, s). op_setId V name (op_createNew V s)) w0"
  have m0: "list_all2 pools m0 (replicate n [])" "length m0 = n" "map (op_id V) m0 = map fst w0"
  proof -
    have n: "length w0 = n" using assms(1) by (auto simp: list_all2_Cons1)
    then show "list_all2 pools m0 (replicate n [])"
      by (auto simp: m0_def list_all2_conv_all_nth new_law setId_law split: prod.splits)
    show "length m0 = n" "map (op_id V) m0 = map fst w0"
      using n by (auto simp: m0_def id_law)
  qed
  have "\<forall>i < n. length (replicate n [] ! i) + (\<Sum>yss \<leftarrow> ysss. length (yss ! i)) < 2 ^ 64" using assms(2) by simp
  from merge_workers_pool [OF m0(1,2) assms(1) this] show ?thesis
    unfolding mergeWorkerStatistics_def list.case Let_def m0_def [symmetric] using m0(3) by auto
qed

end

section \<open>The statistics of the model\<close>

definition streaming_statistic_ops :: "'d::{zero, plus, minus, times, inverse} float_ops \<Rightarrow> 'd StreamingStatistic statistic_ops" where
  "streaming_statistic_ops F = \<lparr>op_createNew = (\<lambda>_. new_StreamingStatistic), op_combine = StreamingStatistic_combine F,
     op_id = stat_id, op_setId = setId\<rparr>"

definition in_memory_statistic_ops :: "'d::{zero, plus, minus, times, inverse} float_ops \<Rightarrow> 'd InMemoryStatistic statistic_ops" where
  "in_memory_statistic_ops F = \<lparr>op_createNew = (\<lambda>_. new_InMemoryStatistic), op_combine = InMemoryStatistic_combine F,
     op_id = stat_id, op_setId = setId\<rparr>"

lemma streaming_strip: "(streaming_of F ys)\<lparr>stat_id := []\<rparr> = streaming_of F ys"
  by (rule StreamingStatistic.equality) (simp_all add: streaming_id)

interpretation streaming: statistic_pool "streaming_statistic_ops real_ops"
    "\<lambda>s xs. s\<lparr>stat_id := []\<rparr> = streaming_of real_ops xs"
proof
  show "(op_createNew (streaming_statistic_ops real_ops) s)\<lparr>stat_id := []\<rparr> = streaming_of real_ops []" for s
    by (simp add: streaming_statistic_ops_def new_StreamingStatistic_def streaming_of_def)
  have id: "StreamingStatistic_combine real_ops a b
      = StreamingStatistic_combine real_ops (a\<lparr>stat_id := []\<rparr>) (b\<lparr>stat_id := []\<rparr>)" for a b :: "real StreamingStatistic"
    by (simp add: StreamingStatistic_combine_def StreamingStatistic_mean_def Let_def)
  show "(op_combine (streaming_statistic_ops real_ops) a b)\<lparr>stat_id := []\<rparr> = streaming_of real_ops (xs @ ys)"
    if "a\<lparr>stat_id := []\<rparr> = streaming_of real_ops xs" "b\<lparr>stat_id := []\<rparr> = streaming_of real_ops ys"
      "length xs + length ys < 2 ^ 64" for a b :: "real StreamingStatistic" and xs ys
    using streaming_combine_real [OF that(3)] id [of a b] that(1,2) by (simp add: streaming_statistic_ops_def streaming_strip)
qed (simp_all add: streaming_statistic_ops_def setId_def)

interpretation in_memory: statistic_pool "in_memory_statistic_ops double_ops" "\<lambda>s xs. samples s = xs"
  by unfold_locales (simp_all add: in_memory_statistic_ops_def new_InMemoryStatistic_def InMemoryStatistic_combine_def setId_def)



end
