(* ===== verification/Process.thy ===== *)
theory Process
  imports Bootstrap Workers Results
begin

text \<open>
  A load generation process (\<^verbatim>\<open>source/client/process_impl.{h,cc}\<close>): the number of workers and their
  staggered starts, creating the process and its workers, starting them, cancellation and the orderly
  shutdown. The threads of the workers interleave with the main thread and with a cancelling thread;
  \<^verbatim>\<open>workers_lock_\<close> makes starting, cancelling and the end of the shutdown atomic or exclusive.

  What Envoy answers while it is set up (the tag producer, the runtime loader, the cluster manager) is a
  parameter, as are the results of the system calls.
\<close>

section \<open>Concurrency and starting times\<close>

definition determineConcurrency :: "u32 \<Rightarrow> Options \<Rightarrow> failure + u32" where
  "determineConcurrency cpu_count opts =
     (if opt_concurrency opts = ''auto'' then Inr cpu_count
      else case stoi (opt_concurrency opts) of
             Parsed i \<Rightarrow> Inr (word_of_int i)
           | InvalidArgument \<Rightarrow> Inl (StdException ''stoi: invalid argument'')
           | OutOfRange \<Rightarrow> Inl (StdException ''stoi: out of range''))"

text \<open>Times and delays are in nanoseconds.\<close>

definition computeFirstWorkerStart :: "clock \<Rightarrow> int option \<Rightarrow> u32 \<Rightarrow> int" where
  "computeFirstWorkerStart c scheduled_start concurrency =
     (let first_worker_delay = (case scheduled_start of
                                  Some t \<Rightarrow> t - systemTime c
                                | None \<Rightarrow> 500000000 + uint concurrency * 50000000)
      in monotonicTime c + first_worker_delay)"

definition computeInterWorkerDelay :: "u32 \<Rightarrow> u32 \<Rightarrow> int" where
  "computeInterWorkerDelay concurrency rps =
     (let inter_worker_delay_usec =
            (1 / double_of_u64 (ucast rps)) * to_double 1000000 / double_of_u64 (ucast concurrency)
      in sint (i64_of_double (inter_worker_delay_usec * to_double 1000)))"

section \<open>Client workers\<close>

text \<open>What the factories of a worker use: registries, Envoy's header maps and the target to call.\<close>

record ('h, 'q, 'p, 'l) worker_env =
  we_options :: options_env
  we_headers :: "'h header_map"
  we_sources :: "('h, 'q) source_registry"
  we_limiters :: "'l limiter_registry"
  we_limiter_ops :: "'l limiter_plugin_ops"
  we_engine :: "nat \<Rightarrow> u64"
  we_target :: "clock \<Rightarrow> ('h, ('h, 'q) built_source, 'p) BenchmarkClient
                  \<Rightarrow> bool \<times> clock list \<times> ('h, ('h, 'q) built_source, 'p) BenchmarkClient"
  we_counters :: "('h, ('h, 'q) built_source, 'p) BenchmarkClient \<Rightarrow> counters"

record ('h, 'q, 'p, 'l) ClientWorker =
  cw_number :: int
  cw_starting_time :: int
  cw_warmup :: bool
  cw_deps :: "('l built_limiter, ('h, ('h, 'q) built_source, 'p) BenchmarkClient) sequencer_deps"
  cw_sequencer :: "('l built_limiter, ('h, ('h, 'q) built_source, 'p) BenchmarkClient) Sequencer"

definition termination_options_of :: "Options \<Rightarrow> termination_options" where
  "termination_options_of opts =
     \<lparr>no_duration = opt_no_duration opts, duration_secs = uint (opt_duration opts),
      failurePredicates = opt_failure_predicates opts, terminationPredicates = opt_termination_predicates opts\<rparr>"

definition new_ClientWorker ::
    "('h, 'q, 'p, 'l) worker_env \<Rightarrow> Options \<Rightarrow> clock \<Rightarrow> int \<Rightarrow> int \<Rightarrow> (string \<times> 'p) list
      \<Rightarrow> failure + ('h, 'q, 'p, 'l) ClientWorker" where
  "new_ClientWorker W opts c worker_number starting_time plugins =
     (case RequestSourceFactory_create (we_options W) (we_headers W) (we_sources W) opts
             (worker_request_source_name worker_number) of
        Inl f \<Rightarrow> Inl f
      | Inr source \<Rightarrow>
          (case TerminationPredicateFactory_create (termination_options_of opts) starting_time of
             Inl f \<Rightarrow> Inl f
           | Inr preds \<Rightarrow>
               map_sum id
                 (\<lambda>(D, s). \<lparr>cw_number = worker_number, cw_starting_time = starting_time,
                            cw_warmup = opt_simple_warmup opts, cw_deps = D, cw_sequencer = s\<rparr>)
                 (SequencerFactory_create (we_limiters W) (we_limiter_ops W) (we_engine W) opts c (we_target W)
                    (we_counters W) preds starting_time (BenchmarkClientFactory_create opts source plugins))))"

section \<open>The process\<close>

text \<open>A worker with its thread and the number of cancellations posted to its dispatcher.\<close>

record 'w worker_thread =
  wt_worker :: 'w
  wt_life :: WorkerImpl
  wt_cancellations :: nat

record ('w, 'p) Process =
  number_of_workers :: int
  p_workers :: "'w worker_thread list"
  flush_worker :: "WorkerImpl option"
  p_shutdown :: bool
  p_cancelled :: bool
  encap_runner :: "SubProcessRunner option"
  p_bootstrap :: Bootstrap
  p_factories :: "'p config_factory_pair list"

definition getUserDefinedFactoryConfigPairs ::
    "(TypedExtensionConfig \<Rightarrow> failure + 'p output_plugin_factory) \<Rightarrow> Options
      \<Rightarrow> failure + 'p config_factory_pair list" where
  "getUserDefinedFactoryConfigPairs getAndCheckFactory opts =
     for_each (\<lambda>config. map_sum id (Pair config) (getAndCheckFactory config))
       (opt_user_defined_output_plugin_configs opts)"

definition CreateProcessImpl ::
    "'addr bootstrap_env \<Rightarrow> 'addr dns status_or \<Rightarrow> u32
      \<Rightarrow> (TypedExtensionConfig \<Rightarrow> failure + 'p output_plugin_factory) \<Rightarrow> Options
      \<Rightarrow> failure + ('w, 'p) Process status_or" where
  "CreateProcessImpl E dns_resolver cpu_count getAndCheckFactory opts =
     (case determineConcurrency cpu_count opts of
        Inl f \<Rightarrow> Inl f
      | Inr n \<Rightarrow>
          (case createBootstrapConfiguration E dns_resolver opts (sint n) of
             Inl f \<Rightarrow> Inl f
           | Inr (Inl st) \<Rightarrow> Inr (Inl st)
           | Inr (Inr b) \<Rightarrow>
               map_sum id
                 (\<lambda>pairs. Inr \<lparr>number_of_workers = sint n, p_workers = [], flush_worker = None, p_shutdown = True,
                             p_cancelled = False, encap_runner = None, p_bootstrap = b, p_factories = pairs\<rparr>)
                 (getUserDefinedFactoryConfigPairs getAndCheckFactory opts)))"

definition Process_destructor :: "('w, 'p) Process \<Rightarrow> failure + unit" where
  "Process_destructor p =
     (if p_shutdown p then Inr () else Inl (ReleaseAssertFailure ''shutdown not called before destruction.''))"

section \<open>Creating the workers\<close>

text \<open>The loop of \<^verbatim>\<open>createWorkers\<close>: an error status or an exception leaves the workers made so far.\<close>

fun create_loop ::
    "(int \<Rightarrow> failure + 'w status_or) \<Rightarrow> nat \<Rightarrow> int \<Rightarrow> 'w worker_thread list
      \<Rightarrow> (failure + status) \<times> 'w worker_thread list" where
  "create_loop mk 0 worker_number ws = (Inr OkStatus, ws)"
| "create_loop mk (Suc k) worker_number ws =
     (case mk worker_number of
        Inl f \<Rightarrow> (Inl f, ws)
      | Inr (Inl st) \<Rightarrow> (Inr st, ws)
      | Inr (Inr w) \<Rightarrow> create_loop mk k (worker_number + 1)
          (ws @ [\<lparr>wt_worker = w, wt_life = new_WorkerImpl, wt_cancellations = 0\<rparr>]))"

definition make_worker ::
    "('h, 'q, 'p, 'l) worker_env \<Rightarrow> Options \<Rightarrow> clock \<Rightarrow> 'p config_factory_pair list \<Rightarrow> int \<Rightarrow> int \<Rightarrow> int
      \<Rightarrow> failure + ('h, 'q, 'p, 'l) ClientWorker status_or" where
  "make_worker W opts c factories first_worker_start inter_worker_delay worker_number =
     (case createUserDefinedOutputPlugins factories worker_number of
        Inl st \<Rightarrow> Inr (Inl st)
      | Inr plugins \<Rightarrow>
          map_sum id Inr
            (new_ClientWorker W opts c worker_number (first_worker_start + inter_worker_delay * worker_number) plugins))"

definition createWorkers ::
    "('h, 'q, 'p, 'l) worker_env \<Rightarrow> Options \<Rightarrow> clock \<Rightarrow> int option \<Rightarrow> (('h, 'q, 'p, 'l) ClientWorker, 'p) Process
      \<Rightarrow> (failure + status) \<times> (('h, 'q, 'p, 'l) ClientWorker, 'p) Process" where
  "createWorkers W opts c scheduled_start p =
     (let concurrency = word_of_int (number_of_workers p) :: u32;
          first_worker_start = computeFirstWorkerStart c scheduled_start concurrency;
          inter_worker_delay = computeInterWorkerDelay concurrency (opt_requests_per_second opts);
          (r, ws) = create_loop (make_worker W opts c (p_factories p) first_worker_start inter_worker_delay)
                      (unat concurrency - length (p_workers p)) 0 (p_workers p)
      in (r, p\<lparr>p_workers := ws\<rparr>))"

section \<open>Tracing\<close>

text \<open>The cluster of the tracing backend. Only its name, its timeout and its endpoint are set.\<close>

definition addTracingCluster :: "'addr bootstrap_env \<Rightarrow> Options \<Rightarrow> 'addr Uri \<Rightarrow> Bootstrap \<Rightarrow> failure + Bootstrap" where
  "addTracingCluster E opts uri b =
     map_sum id
       (\<lambda>ep. b\<lparr>clusters := clusters b @
          [\<lparr>cluster_name = ''tracing'', connect_timeout_seconds = uint (opt_timeout opts),
            http_protocol_options = None,
            circuit_breakers = [], assignment_name = ''tracing'', lb_endpoints = [ep], transport_socket = None\<rparr>]\<rparr>)
       (addUriToEndpoints E uri)"

section \<open>Running\<close>

record envoy_setup =
  zipkin_enabled :: bool
  tag_producer :: status
  runtime_loader :: status
  cluster_manager :: "Bootstrap \<Rightarrow> status"
  cluster_manager_init :: "Bootstrap \<Rightarrow> status"
  tracing_driver :: "failure + unit"
  runtime_init :: status
  stats_sinks_setup :: "failure + unit"

text \<open>
  How far a run has come: it has returned, it left by an exception, or the workers are started and it
  waits for them.
\<close>

datatype run_outcome = Returned bool | Threw failure | Waiting

type_synonym ('w, 'p) run_step = "('w, 'p) Process \<Rightarrow> (run_outcome \<times> ('w, 'p) Process) + ('w, 'p) Process"

definition return_if :: "(('w, 'p) Process \<Rightarrow> bool) \<Rightarrow> run_outcome \<Rightarrow> ('w, 'p) run_step" where
  "return_if cond outcome p = (if cond p then Inl (outcome, p) else Inr p)"

definition or_throw :: "(('w, 'p) Process \<Rightarrow> failure + ('w, 'p) Process) \<Rightarrow> ('w, 'p) run_step" where
  "or_throw f p = (case f p of Inl e \<Rightarrow> Inl (Threw e, p) | Inr p' \<Rightarrow> Inr p')"

definition setup_tracing ::
    "'addr bootstrap_env \<Rightarrow> Options \<Rightarrow> envoy_setup \<Rightarrow> 'addr Uri option \<Rightarrow> ('w, 'p) Process \<Rightarrow> failure + ('w, 'p) Process" where
  "setup_tracing E opts I tracing_uri p =
     (case tracing_uri of
        None \<Rightarrow> Inr p
      | Some uri \<Rightarrow>
          if zipkin_enabled I \<and> scheme uri \<noteq> ''zipkin'' then Inl (ReleaseAssertFailure ''Only zipkin is supported'')
          else map_sum id (\<lambda>b. p\<lparr>p_bootstrap := b\<rparr>) (addTracingCluster E opts uri (p_bootstrap p)))"

definition start_flush_worker :: "Options \<Rightarrow> ('w, 'p) Process \<Rightarrow> failure + ('w, 'p) Process" where
  "start_flush_worker opts p =
     (if opt_stats_sinks opts \<noteq> [] then map_sum id (\<lambda>w. p\<lparr>flush_worker := Some w\<rparr>) (Worker_start new_WorkerImpl)
      else Inr p)"

definition start_workers :: "('w, 'p) Process \<Rightarrow> failure + ('w, 'p) Process" where
  "start_workers p =
     map_sum id (\<lambda>ws. p\<lparr>p_workers := ws\<rparr>)
       (for_each (\<lambda>w. map_sum id (\<lambda>l. w\<lparr>wt_life := l\<rparr>) (Worker_start (wt_life w))) (p_workers p))"

definition create_workers_step ::
    "('h, 'q, 'p, 'l) worker_env \<Rightarrow> Options \<Rightarrow> clock \<Rightarrow> int option
      \<Rightarrow> (('h, 'q, 'p, 'l) ClientWorker, 'p) run_step" where
  "create_workers_step W opts c scheduled_start p =
     (case createWorkers W opts c scheduled_start p of
        (Inl f, p') \<Rightarrow> Inl (Threw f, p')
      | (Inr st, p') \<Rightarrow> if ok st then Inr p' else Inl (Returned False, p'))"

text \<open>The steps of the function that runs while \<^verbatim>\<open>workers_lock_\<close> is held.\<close>

definition nighthawk_steps ::
    "'addr bootstrap_env \<Rightarrow> ('h, 'q, 'p, 'l) worker_env \<Rightarrow> Options \<Rightarrow> envoy_setup \<Rightarrow> clock \<Rightarrow> int option
      \<Rightarrow> 'addr Uri option \<Rightarrow> (('h, 'q, 'p, 'l) ClientWorker, 'p) run_step list" where
  "nighthawk_steps E W opts I c scheduled_start tracing_uri =
     [return_if (\<lambda>_. opt_stats_sinks opts \<noteq> [] \<and> \<not> ok (tag_producer I)) (Returned False),
      create_workers_step W opts c scheduled_start,
      return_if (\<lambda>_. \<not> ok (runtime_loader I)) (Returned False),
      or_throw (setup_tracing E opts I tracing_uri),
      return_if (\<lambda>p. \<not> ok (cluster_manager I (p_bootstrap p))) (Returned False),
      return_if (\<lambda>p. \<not> ok (cluster_manager_init I (p_bootstrap p))) (Returned False),
      or_throw (\<lambda>p. map_sum id (\<lambda>_. p) (tracing_driver I)),
      return_if (\<lambda>_. \<not> ok (runtime_init I)) (Returned False),
      or_throw (\<lambda>p. map_sum id (\<lambda>_. p) (stats_sinks_setup I)),
      or_throw (start_flush_worker opts),
      or_throw start_workers]"

text \<open>A process cancelled before it started has no workers to wait for.\<close>

definition nighthawk_fn ::
    "'addr bootstrap_env \<Rightarrow> ('h, 'q, 'p, 'l) worker_env \<Rightarrow> Options \<Rightarrow> envoy_setup \<Rightarrow> clock \<Rightarrow> int option
      \<Rightarrow> 'addr Uri option \<Rightarrow> (('h, 'q, 'p, 'l) ClientWorker, 'p) Process
      \<Rightarrow> run_outcome \<times> (('h, 'q, 'p, 'l) ClientWorker, 'p) Process" where
  "nighthawk_fn E W opts I c scheduled_start tracing_uri p =
     (if p_cancelled p then (Waiting, p)
      else case run_steps (nighthawk_steps E W opts I c scheduled_start tracing_uri) (p\<lparr>p_shutdown := False\<rparr>) of
             Inl r \<Rightarrow> r
           | Inr p \<Rightarrow> (Waiting, p))"

text \<open>
  \<^verbatim>\<open>runInternal\<close> up to the point where it waits: a start that has passed, the configuration of the
  encapsulating proxy and the fork. \<open>child\<close> is the result of \<^verbatim>\<open>fork\<close> in the parent: \<open>- 1\<close> or the child.
\<close>

definition encap_configured ::
    "'addr bootstrap_env \<Rightarrow> 'addr dns \<Rightarrow> Options \<Rightarrow> failure + unit" where
  "encap_configured E N opts =
     (if opt_tunnel_uri opts = [] then Inr ()
      else case new_Uri (be_extract E) (opt_tunnel_uri opts) ''http'' of
             Inl f \<Rightarrow> Inl f
           | Inr tunnel_uri \<Rightarrow> map_sum id (\<lambda>_. ()) (createEncapBootstrap E N opts tunnel_uri))"

definition runInternal ::
    "'addr bootstrap_env \<Rightarrow> ('h, 'q, 'p, 'l) worker_env \<Rightarrow> Options \<Rightarrow> envoy_setup \<Rightarrow> 'addr dns \<Rightarrow> clock \<Rightarrow> int
      \<Rightarrow> 'addr Uri option \<Rightarrow> (('h, 'q, 'p, 'l) ClientWorker, 'p) Process
      \<Rightarrow> run_outcome \<times> (('h, 'q, 'p, 'l) ClientWorker, 'p) Process" where
  "runInternal E W opts I N c child tracing_uri p =
     (if (case opt_scheduled_start opts of Some t \<Rightarrow> t < systemTime c | None \<Rightarrow> False) then (Returned False, p)
      else case encap_configured E N opts of
             Inl f \<Rightarrow> (Threw f, p)
           | Inr _ \<Rightarrow>
               (let (_, status, r) = RunWithSubprocess child new_SubProcessRunner;
                    p = p\<lparr>encap_runner := Some r\<rparr>
                in if \<not> ok status then (Returned False, p)
                   else nighthawk_fn E W opts I c (opt_scheduled_start opts) tracing_uri p))"

definition Process_run ::
    "'addr bootstrap_env \<Rightarrow> ('h, 'q, 'p, 'l) worker_env \<Rightarrow> Options \<Rightarrow> envoy_setup \<Rightarrow> 'addr dns status_or \<Rightarrow> clock \<Rightarrow> int
      \<Rightarrow> (('h, 'q, 'p, 'l) ClientWorker, 'p) Process \<Rightarrow> run_outcome \<times> (('h, 'q, 'p, 'l) ClientWorker, 'p) Process" where
  "Process_run E W opts I dns_resolver c child p =
     (case dns_resolver of
        Inl _ \<Rightarrow> (Returned False, p)
      | Inr N \<Rightarrow>
          (case (if opt_trace opts \<noteq> [] then map_sum id Some (resolved_new_uri E N opts (opt_trace opts)) else Inr None) of
             Inl (UriException _) \<Rightarrow> (Returned False, p)
           | Inl f \<Rightarrow> (Threw f, p)
           | Inr tracing_uri \<Rightarrow> runInternal E W opts I N c child tracing_uri p))"

section \<open>Cancelling and shutting down\<close>

definition terminate_encap :: "process_calls \<Rightarrow> ('w, 'p) Process \<Rightarrow> status \<times> ('w, 'p) Process" where
  "terminate_encap S p =
     (case encap_runner p of
        None \<Rightarrow> (OkStatus, p)
      | Some r \<Rightarrow> (case TerminateEncapSubProcess S r of (st, r') \<Rightarrow> (st, p\<lparr>encap_runner := Some r'\<rparr>)))"

definition requestExecutionCancellation :: "process_calls \<Rightarrow> ('w, 'p) Process \<Rightarrow> bool \<times> ('w, 'p) Process" where
  "requestExecutionCancellation S p =
     (let p = p\<lparr>p_workers := map (\<lambda>w. w\<lparr>wt_cancellations := wt_cancellations w + 1\<rparr>) (p_workers p)\<rparr>;
          (st, p) = terminate_encap S p
      in if st \<noteq> OkStatus then (False, p) else (True, p\<lparr>p_cancelled := True\<rparr>))"

text \<open>
  \<^verbatim>\<open>shutdown()\<close> waits twice, for the thread of the flush worker and for those of the client workers; these
  are the parts between the waits. Clearing the vector of workers runs their destructors.
\<close>

definition shutdown_flush :: "process_calls \<Rightarrow> ('w, 'p) Process \<Rightarrow> ('w, 'p) Process" where
  "shutdown_flush S p =
     (let p = snd (terminate_encap S p)
      in p\<lparr>flush_worker := map_option Worker_initiateShutdown (flush_worker p)\<rparr>)"

definition join_flush :: "('w, 'p) Process \<Rightarrow> ('w, 'p) Process option" where
  "join_flush p =
     map_option (\<lambda>p. p\<lparr>p_workers := map (\<lambda>w. w\<lparr>wt_life := Worker_initiateShutdown (wt_life w)\<rparr>) (p_workers p)\<rparr>)
       (case flush_worker p of
          None \<Rightarrow> Some p
        | Some w \<Rightarrow> map_option (\<lambda>w. p\<lparr>flush_worker := Some w\<rparr>) (Worker_join w))"

definition join_workers :: "('w, 'p) Process \<Rightarrow> (failure + ('w, 'p) Process) option" where
  "join_workers p =
     (if list_all (\<lambda>w. Worker_join (Worker_initiateShutdown (wt_life w)) \<noteq> None) (p_workers p)
      then Some (if list_all (\<lambda>w. Worker_destructor (the (Worker_join (Worker_initiateShutdown (wt_life w)))) = Inr ())
                       (p_workers p)
                 then Inr (p\<lparr>p_workers := [], p_shutdown := True\<rparr>)
                 else Inl (ReleaseAssertFailure ''Call shutdown() before destruction.''))
      else None)"

section \<open>Interleavings\<close>

datatype main_phase = Created | Running | Finished | Unwinding | JoiningFlush | JoiningWorkers | ShutDown

fun phase_after :: "run_outcome \<Rightarrow> main_phase" where
  "phase_after Waiting = Running"
| "phase_after (Returned _) = Finished"
| "phase_after (Threw _) = Unwinding"

text \<open>
  The main thread runs, waits and shuts down; every worker's thread advances on its own; a cancellation
  can come whenever \<^verbatim>\<open>workers_lock_\<close> is free.
\<close>

inductive process_step ::
    "'addr bootstrap_env \<Rightarrow> ('h, 'q, 'p, 'l) worker_env \<Rightarrow> Options
      \<Rightarrow> main_phase \<times> (('h, 'q, 'p, 'l) ClientWorker, 'p) Process
      \<Rightarrow> main_phase \<times> (('h, 'q, 'p, 'l) ClientWorker, 'p) Process \<Rightarrow> bool" for E W opts where
  runs: "Process_run E W opts I dns_resolver c child p = (outcome, p')
    \<Longrightarrow> process_step E W opts (Created, p) (phase_after outcome, p')"
| waited: "list_all2 (\<lambda>w w'. \<exists>l. Worker_waitForCompletion (wt_life w) = Some (Inr l) \<and> w' = w\<lparr>wt_life := l\<rparr>)
      (p_workers p) ws
    \<Longrightarrow> process_step E W opts (Running, p) (Finished, p\<lparr>p_workers := ws\<rparr>)"
| thread: "i < length (p_workers p) \<Longrightarrow> thread_step (wt_life (p_workers p ! i)) = Some l
    \<Longrightarrow> process_step E W opts (ph, p) (ph, p\<lparr>p_workers := (p_workers p)[i := (p_workers p ! i)\<lparr>wt_life := l\<rparr>]\<rparr>)"
| flush_thread: "flush_worker p = Some w \<Longrightarrow> thread_step w = Some w'
    \<Longrightarrow> process_step E W opts (ph, p) (ph, p\<lparr>flush_worker := Some w'\<rparr>)"
| cancels: "ph \<notin> {JoiningFlush, JoiningWorkers} \<Longrightarrow> requestExecutionCancellation S p = (accepted, p')
    \<Longrightarrow> process_step E W opts (ph, p) (ph, p')"
| shuts_down: "ph \<in> {Created, Finished} \<Longrightarrow> process_step E W opts (ph, p) (JoiningFlush, shutdown_flush S p)"
| flush_joined: "join_flush p = Some p' \<Longrightarrow> process_step E W opts (JoiningFlush, p) (JoiningWorkers, p')"
| workers_joined: "join_workers p = Some (Inr p') \<Longrightarrow> process_step E W opts (JoiningWorkers, p) (ShutDown, p')"

definition fresh_process :: "('w, 'p) Process \<Rightarrow> bool" where
  "fresh_process p \<longleftrightarrow> p_workers p = [] \<and> flush_worker p = None \<and> p_shutdown p"

inductive process_reach for E W opts p0 where
  initial: "process_reach E W opts p0 (Created, p0)"
| stepped: "process_reach E W opts p0 s \<Longrightarrow> process_step E W opts s s' \<Longrightarrow> process_reach E W opts p0 s'"

section \<open>Starting\<close>

definition threads_ok :: "('w, 'p) Process \<Rightarrow> bool" where
  "threads_ok p \<longleftrightarrow> (\<forall>w \<in> set (p_workers p). worker_ok (wt_life w)) \<and> (\<forall>w. flush_worker p = Some w \<longrightarrow> worker_ok w)"

text \<open>Steps that keep a property of the process whether they go on, return or throw.\<close>

definition carries :: "('s \<Rightarrow> bool) \<Rightarrow> ('s \<Rightarrow> ('o \<times> 's) + 's) \<Rightarrow> bool" where
  "carries P f \<longleftrightarrow> (\<forall>s. P s \<longrightarrow> (case f s of Inl r \<Rightarrow> P (snd r) | Inr s' \<Rightarrow> P s'))"

lemma run_steps_carries: "list_all (carries P) fs \<Longrightarrow> carries P (run_steps fs)"
proof (induction fs)
  case (Cons f fs)
  have f: "carries P f" and fs: "carries P (run_steps fs)" using Cons by simp_all
  have "case run_steps (f # fs) s of Inl r \<Rightarrow> P (snd r) | Inr s' \<Rightarrow> P s'" if "P s" for s
  proof (cases "f s")
    case (Inl r)
    then show ?thesis using f that unfolding carries_def by (metis run_steps.simps(2) sum.case(1))
  next
    case (Inr s')
    then have "P s'" using f that unfolding carries_def by (metis sum.case(2))
    then show ?thesis using fs Inr by (simp add: carries_def)
  qed
  then show ?case by (simp add: carries_def)
qed (simp add: carries_def)

lemma carries_return_if: "carries P (return_if cond outcome)"
  by (simp add: carries_def return_if_def)

lemma carries_or_throw: "(\<And>p p'. f p = Inr p' \<Longrightarrow> P p \<Longrightarrow> P p') \<Longrightarrow> carries P (or_throw f)"
  by (auto simp: carries_def or_throw_def split: sum.splits)

lemma carries_throw_only: "carries P (or_throw (\<lambda>p. map_sum id (\<lambda>_. p) r))"
  by (rule carries_or_throw) (auto simp: map_sum_Inr_eq)

lemma carries_tracing:
  "(\<And>p b. P p \<Longrightarrow> P (p\<lparr>p_bootstrap := b\<rparr>)) \<Longrightarrow> carries P (or_throw (setup_tracing E opts I u))"
  by (rule carries_or_throw) (auto simp: setup_tracing_def map_sum_Inr_eq split: option.splits if_splits)

lemma nighthawk_fn_carries:
  assumes "nighthawk_fn E W opts I c t u p = (outcome, p')" "\<not> p_cancelled p"
    and "carries P (run_steps (nighthawk_steps E W opts I c t u))" "P (p\<lparr>p_shutdown := False\<rparr>)"
  shows "P p'"
proof (cases "run_steps (nighthawk_steps E W opts I c t u) (p\<lparr>p_shutdown := False\<rparr>)")
  case (Inl r)
  then have "P (snd r)" using assms(3,4) unfolding carries_def by (metis sum.case(1))
  then show ?thesis using assms(1,2) Inl by (simp add: nighthawk_fn_def)
next
  case (Inr q)
  then have "P q" using assms(3,4) unfolding carries_def by (metis sum.case(2))
  then show ?thesis using assms(1,2) Inr by (simp add: nighthawk_fn_def)
qed

lemma new_worker_ok: "worker_ok new_WorkerImpl"
  by (rule worker_reach_ok) (rule worker_reach.created)

lemma Worker_start_ok: "worker_ok w \<Longrightarrow> Worker_start w = Inr w' \<Longrightarrow> worker_ok w'"
  using worker_ok_step worker_step.start by blast

lemma create_loop_ok:
  assumes "create_loop mk k n ws = (r, ws')" "\<forall>w \<in> set ws. worker_ok (wt_life w)"
  shows "\<forall>w \<in> set ws'. worker_ok (wt_life w)"
  using assms
proof (induction k arbitrary: n ws)
  case (Suc k)
  show ?case
  proof (cases "\<exists>w. mk n = Inr (Inr w)")
    case True
    then obtain w where w: "mk n = Inr (Inr w)" by blast
    show ?thesis using Suc(1) [of "n + 1" "ws @ [\<lparr>wt_worker = w, wt_life = new_WorkerImpl, wt_cancellations = 0\<rparr>]"] Suc(2,3) w new_worker_ok
      by simp
  next
    case False
    then show ?thesis using Suc(2,3) by (auto split: sum.splits)
  qed
qed simp

lemma threads_ok_frame [simp]:
  "threads_ok (p\<lparr>p_shutdown := b\<rparr>) = threads_ok p" "threads_ok (p\<lparr>p_bootstrap := x\<rparr>) = threads_ok p"
  "threads_ok (p\<lparr>encap_runner := r\<rparr>) = threads_ok p" "threads_ok (p\<lparr>p_cancelled := b\<rparr>) = threads_ok p"
  by (simp_all add: threads_ok_def)

lemma start_workers_ok: "start_workers p = Inr p' \<Longrightarrow> threads_ok p \<Longrightarrow> threads_ok p'"
proof -
  assume p: "start_workers p = Inr p'" "threads_ok p"
  then obtain ws where ws: "list_all2 (\<lambda>w w'. \<exists>l. Worker_start (wt_life w) = Inr l \<and> w' = w\<lparr>wt_life := l\<rparr>) (p_workers p) ws"
      "p' = p\<lparr>p_workers := ws\<rparr>"
    by (auto simp: start_workers_def map_sum_Inr_eq for_each_Inr)
  have "worker_ok (wt_life w)" if "w \<in> set ws" for w
  proof -
    obtain v l where "v \<in> set (p_workers p)" "Worker_start (wt_life v) = Inr l" "w = v\<lparr>wt_life := l\<rparr>"
      using ws(1) \<open>w \<in> set ws\<close> by (fastforce simp: list_all2_conv_all_nth in_set_conv_nth)
    then show ?thesis using Worker_start_ok p(2) by (auto simp: threads_ok_def)
  qed
  then show "threads_ok p'" using p(2) ws(2) by (simp add: threads_ok_def)
qed

lemma start_flush_ok: "start_flush_worker opts p = Inr p' \<Longrightarrow> threads_ok p \<Longrightarrow> threads_ok p'"
  using Worker_start_ok [OF new_worker_ok]
  by (auto simp: start_flush_worker_def map_sum_Inr_eq threads_ok_def split: if_splits)

lemma createWorkers_ok: "createWorkers W opts c t p = (r, p') \<Longrightarrow> threads_ok p \<Longrightarrow> threads_ok p' \<and> p_shutdown p' = p_shutdown p"
  using create_loop_ok by (fastforce simp: createWorkers_def Let_def threads_ok_def split: prod.splits)

lemma nighthawk_steps_ok: "carries threads_ok (run_steps (nighthawk_steps E W opts I c t u))"
proof -
  have "carries threads_ok (create_workers_step W opts c t)"
    using createWorkers_ok by (fastforce simp: carries_def create_workers_step_def split: prod.splits sum.splits)
  then show ?thesis
    unfolding nighthawk_steps_def
    by (intro run_steps_carries)
      (simp add: carries_return_if carries_or_throw carries_throw_only carries_tracing start_flush_ok start_workers_ok)
qed

text \<open>From the moment that the workers are created the process has to be shut down.\<close>

lemma start_keeps_shutdown:
  "start_flush_worker opts p = Inr p' \<Longrightarrow> p_shutdown p' = p_shutdown p"
  "start_workers p = Inr p' \<Longrightarrow> p_shutdown p' = p_shutdown p"
  by (auto simp: start_flush_worker_def start_workers_def map_sum_Inr_eq split: if_splits)

lemma nighthawk_steps_unsafe: "carries (\<lambda>p. \<not> p_shutdown p) (run_steps (nighthawk_steps E W opts I c t u))"
proof -
  have "carries (\<lambda>p. \<not> p_shutdown p) (create_workers_step W opts c t)"
    by (auto simp: carries_def create_workers_step_def createWorkers_def Let_def split: prod.splits sum.splits)
  then show ?thesis
    unfolding nighthawk_steps_def
    by (intro run_steps_carries)
      (simp add: carries_return_if carries_or_throw carries_throw_only carries_tracing start_keeps_shutdown)
qed

lemma Process_run_cases:
  assumes "Process_run E W opts I dns_resolver c child p = (outcome, p')"
  shows "p' = p \<and> outcome \<noteq> Waiting
    \<or> (\<exists>r. p' = p\<lparr>encap_runner := Some r\<rparr> \<and> outcome = Returned False)
    \<or> (\<exists>r t u. nighthawk_fn E W opts I c t u (p\<lparr>encap_runner := Some r\<rparr>) = (outcome, p'))"
  using assms
  by (auto simp: Process_run_def runInternal_def Let_def split: sum.splits prod.splits if_splits failure.splits)

lemma Process_run_ok:
  assumes "Process_run E W opts I dns_resolver c child p = (outcome, p')" "threads_ok p"
  shows "threads_ok p'"
proof -
  have "threads_ok p'" if "nighthawk_fn E W opts I c t u (p\<lparr>encap_runner := Some r\<rparr>) = (outcome, p')" for r t u
    using that assms(2) nighthawk_fn_carries [OF that _ nighthawk_steps_ok]
    by (cases "p_cancelled p") (auto simp: nighthawk_fn_def)
  then show ?thesis using Process_run_cases [OF assms(1)] assms(2) by auto
qed

section \<open>The shutdown is orderly\<close>

definition signalled :: "WorkerImpl \<Rightarrow> bool" where
  "signalled w \<longleftrightarrow> w_shutdown w \<and> w_exit_signaled w"

definition process_inv :: "main_phase \<times> ('w, 'p) Process \<Rightarrow> bool" where
  "process_inv = (\<lambda>(ph, p). threads_ok p
     \<and> (ph = Created \<longrightarrow> fresh_process p)
     \<and> (ph \<in> {JoiningFlush, JoiningWorkers, ShutDown} \<longrightarrow> (\<forall>w. flush_worker p = Some w \<longrightarrow> signalled w))
     \<and> (ph = JoiningWorkers \<longrightarrow> (\<forall>w \<in> set (p_workers p). signalled (wt_life w)))
     \<and> (ph = ShutDown \<longrightarrow> p_workers p = [] \<and> p_shutdown p))"

lemma signalled_initiate: "signalled (Worker_initiateShutdown w)"
  by (simp add: signalled_def Worker_initiateShutdown_def Let_def)

lemma signalled_thread_step: "thread_step w = Some w' \<Longrightarrow> signalled w' = signalled w"
  by (auto simp: thread_step_def signalled_def Let_def split: option.splits if_splits)

lemma Worker_join_cases: "Worker_join w = Some w' \<Longrightarrow> w' = w \<or> w' = w\<lparr>w_joined := True\<rparr>"
  by (auto simp: Worker_join_def split: if_splits)

lemma signalled_join: "Worker_join w = Some w' \<Longrightarrow> signalled w' = signalled w"
  using Worker_join_cases by (fastforce simp: signalled_def)

lemma join_ok: "worker_ok w \<Longrightarrow> signalled w \<Longrightarrow> Worker_join w = Some w' \<Longrightarrow> worker_ok w'"
  using worker_ok_join by (simp add: signalled_def)

lemma wait_ok: "worker_ok w \<Longrightarrow> Worker_waitForCompletion w = Some (Inr w') \<Longrightarrow> worker_ok w'"
  using worker_ok_step worker_step.wait by blast

lemma terminate_encap_frame [simp]:
  "p_workers (snd (terminate_encap S p)) = p_workers p" "flush_worker (snd (terminate_encap S p)) = flush_worker p"
  "p_shutdown (snd (terminate_encap S p)) = p_shutdown p"
  by (simp_all add: terminate_encap_def split: option.splits prod.splits)

lemma cancellation_frame:
  assumes "requestExecutionCancellation S p = (b, p')"
  shows "p_workers p' = map (\<lambda>w. w\<lparr>wt_cancellations := wt_cancellations w + 1\<rparr>) (p_workers p)"
    "flush_worker p' = flush_worker p" "p_shutdown p' = p_shutdown p"
proof -
  let ?p = "p\<lparr>p_workers := map (\<lambda>w. w\<lparr>wt_cancellations := wt_cancellations w + 1\<rparr>) (p_workers p)\<rparr>"
  have "p' = snd (terminate_encap S ?p) \<or> p' = (snd (terminate_encap S ?p))\<lparr>p_cancelled := True\<rparr>"
    using assms by (auto simp: requestExecutionCancellation_def Let_def split: prod.splits if_splits)
  then show "p_workers p' = map (\<lambda>w. w\<lparr>wt_cancellations := wt_cancellations w + 1\<rparr>) (p_workers p)"
    "flush_worker p' = flush_worker p" "p_shutdown p' = p_shutdown p" by auto
qed

lemma waited_ok:
  assumes "list_all2 (\<lambda>w w'. \<exists>l. Worker_waitForCompletion (wt_life w) = Some (Inr l) \<and> w' = w\<lparr>wt_life := l\<rparr>) ws ws'"
    "\<forall>w \<in> set ws. worker_ok (wt_life w)"
  shows "\<forall>w \<in> set ws'. worker_ok (wt_life w)"
  using assms by (induction rule: list_all2_induct) (auto dest: wait_ok)

lemma process_inv_step: "process_step E W opts s s' \<Longrightarrow> process_inv s \<Longrightarrow> process_inv s'"
proof (induction rule: process_step.induct)
  case (runs I dns_resolver c child p outcome p')
  have "phase_after outcome \<in> {Running, Finished, Unwinding}" by (cases outcome) auto
  then show ?case using runs Process_run_ok by (auto simp: process_inv_def)
next
  case (waited p ws)
  then show ?case using waited_ok by (auto simp: process_inv_def threads_ok_def)
next
  case (thread i p l ph)
  have w: "p_workers p ! i \<in> set (p_workers p)" using thread(1) by simp
  have "worker_ok l"
    using w thread(3) worker_ok_thread_step [OF _ thread(2)] by (auto simp: process_inv_def threads_ok_def)
  moreover have "signalled l = signalled (wt_life (p_workers p ! i))" by (rule signalled_thread_step [OF thread(2)])
  ultimately show ?case
    using thread(1,3) w by (auto simp: process_inv_def threads_ok_def fresh_process_def dest!: set_update_subset_insert [THEN subsetD])
next
  case (flush_thread p w w' ph)
  then show ?case
    using worker_ok_thread_step [OF _ flush_thread(2)] signalled_thread_step [OF flush_thread(2)]
    by (auto simp: process_inv_def threads_ok_def fresh_process_def)
next
  case (cancels ph S p accepted p')
  then show ?case
    using cancellation_frame [OF cancels(2)] by (auto simp: process_inv_def threads_ok_def fresh_process_def)
next
  case (shuts_down ph p S)
  then show ?case
    by (auto simp: process_inv_def threads_ok_def shutdown_flush_def Let_def signalled_initiate worker_ok_initiate)
next
  case (flush_joined p p')
  then show ?case
    by (auto simp: process_inv_def threads_ok_def join_flush_def signalled_initiate worker_ok_initiate signalled_join
        intro: join_ok split: option.splits)
next
  case (workers_joined p p')
  then show ?case by (auto simp: process_inv_def threads_ok_def join_workers_def split: if_splits)
qed

lemma process_reach_inv: "process_reach E W opts p0 s \<Longrightarrow> fresh_process p0 \<Longrightarrow> process_inv s"
proof (induction rule: process_reach.induct)
  case initial
  then show ?case by (simp add: process_inv_def threads_ok_def fresh_process_def)
next
  case (stepped s s')
  then show ?case using process_inv_step by blast
qed

text \<open>Signalled threads run out, one after the other.\<close>

definition thread_over :: "WorkerImpl \<Rightarrow> bool" where
  "thread_over w \<longleftrightarrow> w_thread w = None \<or> thread_finished w"

lemma over_joins: "thread_over w \<Longrightarrow> \<exists>w'. Worker_join w = Some w'"
  by (auto simp: thread_over_def Worker_join_def)

lemma thread_runs_lift:
  assumes "(\<lambda>a b. thread_step a = Some b)\<^sup>*\<^sup>* l l'" "i < length (p_workers p)" "wt_life (p_workers p ! i) = l"
  shows "(process_step E W opts)\<^sup>*\<^sup>* (ph, p) (ph, p\<lparr>p_workers := (p_workers p)[i := (p_workers p ! i)\<lparr>wt_life := l'\<rparr>]\<rparr>)"
  using assms
proof (induction rule: rtranclp_induct)
  case base
  then have "p\<lparr>p_workers := (p_workers p)[i := (p_workers p ! i)\<lparr>wt_life := l\<rparr>]\<rparr> = p" by auto
  then show ?case by simp
next
  case (step l1 l2)
  let ?p = "p\<lparr>p_workers := (p_workers p)[i := (p_workers p ! i)\<lparr>wt_life := l1\<rparr>]\<rparr>"
  have "process_step E W opts (ph, ?p) (ph, ?p\<lparr>p_workers := (p_workers ?p)[i := (p_workers ?p ! i)\<lparr>wt_life := l2\<rparr>]\<rparr>)"
    using step(2,4) by (intro process_step.thread) simp_all
  then show ?case using step(3) [OF step(4,5)] step(4) by (auto intro: rtranclp.rtrancl_into_rtrancl)
qed

lemma flush_runs_lift:
  assumes "(\<lambda>a b. thread_step a = Some b)\<^sup>*\<^sup>* l l'" "flush_worker p = Some l"
  shows "(process_step E W opts)\<^sup>*\<^sup>* (ph, p) (ph, p\<lparr>flush_worker := Some l'\<rparr>)"
  using assms
proof (induction rule: rtranclp_induct)
  case base
  then have "p\<lparr>flush_worker := Some l\<rparr> = p" by simp
  then show ?case by simp
next
  case (step l1 l2)
  have "process_step E W opts (ph, p\<lparr>flush_worker := Some l1\<rparr>) (ph, (p\<lparr>flush_worker := Some l1\<rparr>)\<lparr>flush_worker := Some l2\<rparr>)"
    using step(2) by (intro process_step.flush_thread) simp_all
  then show ?case using step(3) [OF step(4)] by (auto intro: rtranclp.rtrancl_into_rtrancl)
qed

lemma over_reached:
  assumes "worker_ok w" "signalled w"
  shows "\<exists>w'. (\<lambda>a b. thread_step a = Some b)\<^sup>*\<^sup>* w w' \<and> thread_over w'"
proof (cases "w_thread w")
  case (Some as)
  then show ?thesis
    using thread_runs_out [OF assms(1) Some] assms(2) by (auto simp: signalled_def thread_over_def)
qed (auto simp: thread_over_def)

lemma steps_inv: "(process_step E W opts)\<^sup>*\<^sup>* s s' \<Longrightarrow> process_inv s \<Longrightarrow> process_inv s'"
  by (induction rule: rtranclp_induct) (auto intro: process_inv_step)

lemma workers_run_out:
  assumes "process_inv (JoiningWorkers, p)" "k \<le> length (p_workers p)"
  shows "\<exists>p'. (process_step E W opts)\<^sup>*\<^sup>* (JoiningWorkers, p) (JoiningWorkers, p')
    \<and> length (p_workers p') = length (p_workers p) \<and> (\<forall>i < k. thread_over (wt_life (p_workers p' ! i)))"
  using assms(2)
proof (induction k)
  case (Suc k)
  then obtain p1 where p1: "(process_step E W opts)\<^sup>*\<^sup>* (JoiningWorkers, p) (JoiningWorkers, p1)"
      "length (p_workers p1) = length (p_workers p)" "\<forall>i < k. thread_over (wt_life (p_workers p1 ! i))" by auto
  have k: "k < length (p_workers p1)" using Suc(2) p1(2) by simp
  have inv: "process_inv (JoiningWorkers, p1)" by (rule steps_inv [OF p1(1) assms(1)])
  obtain l where l: "(\<lambda>a b. thread_step a = Some b)\<^sup>*\<^sup>* (wt_life (p_workers p1 ! k)) l" "thread_over l"
    using over_reached inv k by (fastforce simp: process_inv_def threads_ok_def)
  let ?p = "p1\<lparr>p_workers := (p_workers p1)[k := (p_workers p1 ! k)\<lparr>wt_life := l\<rparr>]\<rparr>"
  have "(process_step E W opts)\<^sup>*\<^sup>* (JoiningWorkers, p) (JoiningWorkers, ?p)"
    using p1(1) thread_runs_lift [OF l(1) k refl] by (rule rtranclp_trans)
  moreover have "\<forall>i < Suc k. thread_over (wt_life (p_workers ?p ! i))"
    using p1(3) l(2) k by (auto simp: less_Suc_eq nth_list_update)
  ultimately show ?case using p1(2) by (intro exI [of _ ?p]) simp
qed auto

lemma join_workers_over:
  assumes "\<forall>w \<in> set (p_workers p). thread_over (wt_life w)"
  shows "join_workers p = Some (Inr (p\<lparr>p_workers := [], p_shutdown := True\<rparr>))"
proof -
  have over: "thread_over (Worker_initiateShutdown l)" if "thread_over l" for l
    using that by (simp add: thread_over_def thread_finished_def Worker_initiateShutdown_def Let_def)
  have "\<exists>l'. Worker_join (Worker_initiateShutdown l) = Some l' \<and> Worker_destructor l' = Inr ()" if l: "thread_over l" for l
  proof -
    obtain l' where l': "Worker_join (Worker_initiateShutdown l) = Some l'" using over_joins [OF over [OF l]] by blast
    then have "signalled l'" using signalled_join signalled_initiate by blast
    then show ?thesis using l' by (simp add: Worker_destructor_def signalled_def)
  qed
  then have "list_all (\<lambda>w. \<exists>l'. Worker_join (Worker_initiateShutdown (wt_life w)) = Some l' \<and> Worker_destructor l' = Inr ()) (p_workers p)"
    using assms by (simp add: list_all_iff)
  then show ?thesis by (fastforce simp: join_workers_def list_all_iff)
qed


text \<open>
  C39. An exception aborts the process. When the function that starts the workers leaves by an exception
  (an unknown plugin, a frequency that a rate limiter rejects), nothing has called \<^verbatim>\<open>shutdown()\<close>: the
  destructor of the process, which unwinding runs, fails its release assertion.
\<close>

theorem run_exception_aborts:
  assumes "nighthawk_fn E W opts I c t u p = (Threw f, p')"
  shows "Process_destructor p' = Inl (ReleaseAssertFailure ''shutdown not called before destruction.'')"
proof -
  have "\<not> p_cancelled p" using assms by (auto simp: nighthawk_fn_def)
  from nighthawk_fn_carries [OF assms this nighthawk_steps_unsafe] show ?thesis
    by (simp add: Process_destructor_def)
qed

section \<open>Staggered starts\<close>

lemma approx_in_range:
  assumes "approx k x y" "k \<le> 3" "2 powi (-100) \<le> x" "x \<le> 2 ^ 100"
  shows "2 powi (-1022) \<le> y" "\<bar>y\<bar> \<le> 2 ^ 1023" "0 < y"
proof -
  have x: "0 < x" using assms(3) pow2_pos [of "-100"] by linarith
  have "(1 / 8 :: rat) = (1 / 2) ^ 3" by (simp add: power3_eq_cube)
  also have "\<dots> \<le> (1 / 2 :: rat) ^ k" using assms(2) by (intro power_decreasing) simp_all
  also have "\<dots> \<le> (1 - roundoff) ^ k" by (intro power_mono) simp_all
  finally have "x * (1 / 8) \<le> x * (1 - roundoff) ^ k" using x mult_left_mono less_imp_le by blast
  then have lo: "x / 8 \<le> y" using assms(1) by (simp add: approx_def)
  have "(1 + roundoff) ^ k \<le> (2 :: rat) ^ k" by (intro power_mono) simp_all
  also have "\<dots> \<le> 2 ^ 3" using assms(2) by (intro power_increasing) simp_all
  finally have "x * (1 + roundoff) ^ k \<le> x * 8" using x by (intro mult_left_mono) simp_all
  then have hi: "y \<le> x * 8" using assms(1) by (simp add: approx_def)
  have "(2 :: rat) powi (-1022) * 8 \<le> 2 powi (-100)" by (simp add: power_int_minus divide_simps)
  then show "2 powi (-1022) \<le> y" using lo assms(3) by linarith
  then show pos: "0 < y" using pow2_pos [of "-1022"] by linarith
  have "(2 :: rat) ^ 100 * 8 \<le> 2 ^ 1023" by simp
  then show "\<bar>y\<bar> \<le> 2 ^ 1023" using hi assms(4) pos by linarith
qed

lemma approx_round:
  assumes "approx k x y" "k \<le> 3" "2 powi (-100) \<le> x" "x \<le> 2 ^ 100"
  shows "to_double y = Fin (rnd y)" "approx (Suc k) x (rnd y)"
  using approx_in_range [OF assms] approx_rnd [OF assms(1)] to_double_Fin by simp_all

lemma delay_double:
  assumes "0 < (c :: u32)" "0 < (r :: u32)"
  shows "\<exists>y. (1 / double_of_u64 (ucast r)) * to_double 1000000 / double_of_u64 (ucast c) * to_double 1000 = Fin y
    \<and> approx 4 (1000000000 / (of_nat (unat r) * of_nat (unat c))) y"
proof -
  define R C :: rat where "R = of_nat (unat r)" and "C = of_nat (unat c)"
  have exact: "double_of_u64 (ucast w) = Fin (of_nat (unat w))" for w :: u32
    using unat_lt2p [of w] double_of_u64_exact [of "ucast w"] by simp
  have range: "1 \<le> (of_nat (unat w) :: rat)" "(of_nat (unat w) :: rat) \<le> 2 ^ 32" if "0 < w" for w :: u32
  proof -
    have "1 \<le> unat w" using that by (simp add: word_gt_0 unat_gt_0 Suc_le_eq)
    then show "1 \<le> (of_nat (unat w) :: rat)" by (metis of_nat_1 of_nat_le_iff)
    have "unat w \<le> 2 ^ 32" using unat_lt2p [of w] by simp
    then show "(of_nat (unat w) :: rat) \<le> 2 ^ 32" by (metis of_nat_le_iff of_nat_numeral of_nat_power)
  qed
  note R = range [OF assms(2), folded R_def] and C = range [OF assms(1), folded C_def]
  have pos: "0 < R" "0 < C" "0 < R * C" using R(1) C(1) by simp_all
  have RC: "R * C \<le> 2 ^ 32 * 2 ^ 32" using R C by (intro mult_mono) simp_all
  have "(2 :: rat) powi (-100) \<le> 1 / (2 ^ 32 * 2 ^ 32)" by (simp add: power_int_minus divide_simps)
  also have "\<dots> \<le> 1 / (R * C)" using RC pos by (intro divide_left_mono) simp_all
  finally have small: "2 powi (-100) \<le> 1 / (R * C)" .
  have lo: "1 / (R * C) \<le> 1 / R" using C(1) pos by (simp add: divide_simps)
  have up: "1 / R \<le> 1" "(1000000000 :: rat) \<le> 2 ^ 100" using R(1) by simp_all
  have b1: "2 powi (-100) \<le> 1 / R" "1 / R \<le> 2 ^ 100"
    and b2: "2 powi (-100) \<le> 1 / R * 1000000" "1 / R * 1000000 \<le> 2 ^ 100"
    using small lo up pow2_pos [of "-100"] by linarith+
  have e3: "1 / R * 1000000 * (1 / C) = 1000000 * (1 / (R * C))" by simp
  have b3: "2 powi (-100) \<le> 1 / R * 1000000 * (1 / C)" "1 / R * 1000000 * (1 / C) \<le> 2 ^ 100"
    and b4: "2 powi (-100) \<le> 1 / R * 1000000 * (1 / C) * 1000" "1 / R * 1000000 * (1 / C) * 1000 \<le> 2 ^ 100"
    unfolding e3 using small lo up pow2_pos [of "-100"] by linarith+
  note s1 = approx_round [OF approx_refl _ b1]
  note s2 = approx_round [OF approx_scale [OF s1(2), of 1000000] _ b2]
  note s3 = approx_round [OF approx_scale [OF s2(2), of "1 / C"] _ b3]
  note s4 = approx_round [OF approx_scale [OF s3(2), of 1000] _ b4]
  let ?y = "rnd (rnd (rnd (rnd (1 / R) * 1000000) * (1 / C)) * 1000)"
  have "(1 / Fin R) * Fin 1000000 / Fin C * Fin 1000 = Fin ?y"
    using s1(1) s2(1) s3(1) s4(1) pos by (simp add: dbl_defs)
  moreover have "approx 4 (1000000000 / (R * C)) ?y" using s4(2) pos by (simp add: e3 numeral_eq_Suc)
  moreover have "to_double 1000000 = Fin 1000000" "to_double 1000 = Fin 1000"
    using to_double_nat [of 1000000] to_double_nat [of 1000] by simp_all
  ultimately show ?thesis by (simp only: exact R_def C_def) blast
qed

lemma inter_worker_delay_bounds:
  assumes "0 < (c :: u32)" "0 < (r :: u32)"
  defines "x \<equiv> 1000000000 / (of_nat (unat r) * of_nat (unat c)) :: rat"
  shows "x - 1 - 1 / 1000000 < of_int (computeInterWorkerDelay c r)"
    "of_int (computeInterWorkerDelay c r) \<le> x + 1 / 1000000"
proof -
  obtain y where y: "(1 / double_of_u64 (ucast r)) * to_double 1000000 / double_of_u64 (ucast c) * to_double 1000 = Fin y"
      "approx 4 x y"
    using delay_double [OF assms(1,2)] unfolding x_def by blast
  have "1 \<le> unat r * unat c" using assms(1,2) by (simp add: word_gt_0 unat_gt_0 Suc_le_eq)
  then have "1 \<le> (of_nat (unat r * unat c) :: rat)" by (metis of_nat_1 of_nat_le_iff)
  then have x: "0 \<le> x" "x \<le> 1000000000" by (simp_all add: x_def divide_simps)
  have "(1 - roundoff) ^ 4 \<ge> 1 - 5 * roundoff" "(1 + roundoff) ^ 4 \<le> 1 + 5 * roundoff" by (simp_all add: power4_eq_xxxx)
  then have "x * (1 - 5 * roundoff) \<le> y" "y \<le> x * (1 + 5 * roundoff)"
    using y(2) x(1) unfolding approx_def by (meson mult_left_mono order_trans)+
  then have near: "x - 1 / 1000000 \<le> y" "y \<le> x + 1 / 1000000" "0 \<le> y" using x by (simp_all add: algebra_simps)
  have "0 \<le> \<lfloor>y\<rfloor>" "\<lfloor>y\<rfloor> < 2 ^ 63" using near x(2) by (auto simp: floor_less_iff)
  then have "computeInterWorkerDelay c r = \<lfloor>y\<rfloor>"
    using near(3) unfolding computeInterWorkerDelay_def Let_def y(1) by (simp add: truncate_rat_def sint_of_int_64)
  then show "x - 1 - 1 / 1000000 < of_int (computeInterWorkerDelay c r)"
    "of_int (computeInterWorkerDelay c r) \<le> x + 1 / 1000000"
    using near(1,2) floor_correct [of y] by linarith+
qed

lemma createWorkers_loop:
  assumes "createWorkers W opts c t p = (r, p')"
  shows "create_loop
      (make_worker W opts c (p_factories p) (computeFirstWorkerStart c t (word_of_int (number_of_workers p)))
        (computeInterWorkerDelay (word_of_int (number_of_workers p)) (opt_requests_per_second opts)))
      (unat (word_of_int (number_of_workers p) :: u32) - length (p_workers p)) 0 (p_workers p) = (r, p_workers p')"
  using assms by (auto simp: createWorkers_def Let_def split: prod.splits)

lemma create_loop_workers:
  assumes "create_loop mk k n ws = (r, ws')"
  shows "\<exists>new. ws' = ws @ new \<and> length new \<le> k
    \<and> (\<forall>i < length new. mk (n + int i) = Inr (Inr (wt_worker (new ! i))))
    \<and> (r = Inr OkStatus \<longrightarrow> (\<forall>j. mk j \<noteq> Inr (Inl OkStatus)) \<longrightarrow> length new = k)"
  using assms
proof (induction k arbitrary: n ws)
  case (Suc k)
  show ?case
  proof (cases "\<exists>w. mk n = Inr (Inr w)")
    case True
    then obtain w where w: "mk n = Inr (Inr w)" by blast
    let ?w = "\<lparr>wt_worker = w, wt_life = new_WorkerImpl, wt_cancellations = 0\<rparr> :: 'a worker_thread"
    have "create_loop mk k (n + 1) (ws @ [?w]) = (r, ws')" using Suc(2) w by simp
    then obtain new where new: "ws' = (ws @ [?w]) @ new" "length new \<le> k"
        "\<forall>i < length new. mk (n + 1 + int i) = Inr (Inr (wt_worker (new ! i)))"
        "r = Inr OkStatus \<longrightarrow> (\<forall>j. mk j \<noteq> Inr (Inl OkStatus)) \<longrightarrow> length new = k"
      using Suc(1) by blast
    have "mk (n + int i) = Inr (Inr (wt_worker ((?w # new) ! i)))" if "i < length (?w # new)" for i
      using that w new(3) by (cases i) (auto simp: algebra_simps)
    then show ?thesis using new(1,2,4) by (intro exI [of _ "?w # new"]) simp
  next
    case False
    then show ?thesis using Suc(2) by (auto split: sum.splits)
  qed
qed simp

lemma new_ClientWorker_start:
  "new_ClientWorker W opts c n t plugins = Inr w \<Longrightarrow> cw_starting_time w = t \<and> cw_number w = n"
  by (auto simp: new_ClientWorker_def map_sum_Inr_eq split: sum.splits)

lemma make_worker_start:
  "make_worker W opts c fs first d n = Inr (Inr w) \<Longrightarrow> cw_starting_time w = first + d * n \<and> cw_number w = n"
  using new_ClientWorker_start by (fastforce simp: make_worker_def map_sum_Inr_eq split: sum.splits)

lemma make_worker_ok:
  "make_worker W opts c fs first d n = Inr (Inl st) \<Longrightarrow> createUserDefinedOutputPlugins fs n = Inl st"
  by (auto simp: make_worker_def map_sum_Inr_eq split: sum.splits)

lemma unat_u32_of_int: "0 \<le> i \<Longrightarrow> i < 2 ^ 31 \<Longrightarrow> unat (word_of_int i :: u32) = nat i"
  by (simp add: unat_eq_nat_uint uint_word_of_int)

lemma stagger_scale:
  assumes "\<bar>of_int d - q / m\<bar> \<le> (e :: rat)"
  shows "\<bar>of_int (d * int i) - of_nat i / m * q\<bar> \<le> of_nat i * e"
proof -
  have "of_int (d * int i) - of_nat i / m * q = of_nat i * (of_int d - q / m)"
    by (simp add: algebra_simps)
  then have "\<bar>of_int (d * int i) - of_nat i / m * q\<bar> = of_nat i * \<bar>of_int d - q / m\<bar>"
    by (simp add: abs_mult)
  then show ?thesis using mult_left_mono [OF assms, of "of_nat i"] by simp
qed

text \<open>
  C40. The workers start staggered. Created for the first time, the workers of a process of \<open>n\<close> workers are
  numbered from 0; the first starts at the time that \<^verbatim>\<open>computeFirstWorkerStart\<close> gives, and worker \<open>i\<close>
  starts \<open>i / n\<close> of the period between two requests of one worker later. In double arithmetic that is
  off by at most \<open>i\<close> nanoseconds and a millionth of that. Unless creation fails there are \<open>n\<close> workers.
\<close>

theorem workers_staggered:
  assumes "createWorkers W opts c t p = (r, p')" "p_workers p = []" "0 < opt_requests_per_second opts"
    and n: "0 < number_of_workers p" "number_of_workers p < 2 ^ 31"
  defines "period \<equiv> 1000000000 / of_nat (unat (opt_requests_per_second opts)) :: rat"
  shows "int (length (p_workers p')) \<le> number_of_workers p
    \<and> (r = Inr OkStatus \<longrightarrow> (\<forall>j. createUserDefinedOutputPlugins (p_factories p) j \<noteq> Inl OkStatus)
         \<longrightarrow> int (length (p_workers p')) = number_of_workers p)
    \<and> (\<forall>i < length (p_workers p'). let w = wt_worker (p_workers p' ! i);
           lag = cw_starting_time w - computeFirstWorkerStart c t (word_of_int (number_of_workers p)) in
         cw_number w = int i
         \<and> \<bar>of_int lag - of_nat i / of_int (number_of_workers p) * period\<bar> \<le> of_nat i * (1 + 1 / 1000000))"
proof -
  let ?C = "word_of_int (number_of_workers p) :: u32"
  let ?first = "computeFirstWorkerStart c t ?C" and ?d = "computeInterWorkerDelay ?C (opt_requests_per_second opts)"
  let ?mk = "make_worker W opts c (p_factories p) ?first ?d"
  have C: "unat ?C = nat (number_of_workers p)" by (rule unat_u32_of_int) (use n in linarith)+
  then have C0: "0 < ?C" using n(1) by (metis unat_gt_0 word_gt_0 zero_less_nat_eq)
  define new where "new = p_workers p'"
  have loop: "create_loop ?mk (unat ?C) 0 [] = (r, new)"
    using createWorkers_loop [OF assms(1)] unfolding assms(2) new_def by (simp only: list.size diff_zero)
  obtain ws where ws: "new = [] @ ws" "length ws \<le> unat ?C"
      "\<forall>i < length ws. ?mk (0 + int i) = Inr (Inr (wt_worker (ws ! i)))"
      "r = Inr OkStatus \<longrightarrow> (\<forall>j. ?mk j \<noteq> Inr (Inl OkStatus)) \<longrightarrow> length ws = unat ?C"
    using create_loop_workers [OF loop] by (elim exE conjE)
  then have new: "length new \<le> unat ?C" "\<forall>i < length new. ?mk (int i) = Inr (Inr (wt_worker (new ! i)))"
      "r = Inr OkStatus \<longrightarrow> (\<forall>j. ?mk j \<noteq> Inr (Inl OkStatus)) \<longrightarrow> length new = unat ?C"
    by (simp_all only: append_Nil add_0)
  have start: "cw_number (wt_worker (new ! i)) = int i"
      "cw_starting_time (wt_worker (new ! i)) - ?first = ?d * int i" if "i < length new" for i
    using make_worker_start [OF new(2) [rule_format, OF that]] by linarith+
  have "of_nat (unat ?C) = (of_int (number_of_workers p) :: rat)" using n C by simp
  then have x: "period / of_int (number_of_workers p)
      = 1000000000 / (of_nat (unat (opt_requests_per_second opts)) * of_nat (unat ?C))"
    unfolding period_def by (simp only: divide_divide_eq_left)
  have "\<bar>of_int ?d - period / of_int (number_of_workers p)\<bar> \<le> 1 + 1 / 1000000"
    unfolding x using inter_worker_delay_bounds [OF C0 assms(3)] by linarith
  then have near: "\<bar>of_int (?d * int i) - of_nat i / of_int (number_of_workers p) * period\<bar> \<le> of_nat i * (1 + 1 / 1000000)" for i
    by (rule stagger_scale)
  have ok: "\<forall>j. ?mk j \<noteq> Inr (Inl OkStatus)" if "\<forall>j. createUserDefinedOutputPlugins (p_factories p) j \<noteq> Inl OkStatus"
    using that make_worker_ok by metis
  have len: "int (length new) \<le> number_of_workers p" using new(1) C n(1) by linarith
  have full: "int (length new) = number_of_workers p"
    if "r = Inr OkStatus" "\<forall>j. createUserDefinedOutputPlugins (p_factories p) j \<noteq> Inl OkStatus"
    using new(3) ok [OF that(2)] that(1) C n(1) by simp
  show ?thesis
    unfolding new_def [symmetric] Let_def
    by (intro conjI impI allI len full) (simp_all only: start near simp_thms)
qed


section \<open>An example\<close>

text \<open>A target that starts every request, and registries that know no plugin.\<close>

definition demo_worker_env :: "((string \<times> string) list, unit, unit, unit) worker_env" where
  "demo_worker_env =
     \<lparr>we_options = plain_env, we_headers = assoc_headers, we_sources = (\<lambda>_. Inl (EnvoyException ''unknown'')),
      we_limiters = (\<lambda>_. Inl (EnvoyException ''unknown'')), we_limiter_ops = idle_plugin, we_engine = (\<lambda>_. 0),
      we_target = (\<lambda>_ b. (True, [], b)), we_counters = (\<lambda>_ _. 0)\<rparr>"

definition demo_envoy_setup :: envoy_setup where
  "demo_envoy_setup =
     \<lparr>zipkin_enabled = True, tag_producer = OkStatus, runtime_loader = OkStatus, cluster_manager = (\<lambda>_. OkStatus),
      cluster_manager_init = (\<lambda>_. OkStatus), tracing_driver = Inr (), runtime_init = OkStatus, stats_sinks_setup = Inr ()\<rparr>"

definition demo_process :: "(((string \<times> string) list, unit, unit, unit) ClientWorker, unit) Process" where
  "demo_process =
     \<lparr>number_of_workers = 2, p_workers = [], flush_worker = None, p_shutdown = True, p_cancelled = False,
      encap_runner = None,
      p_bootstrap = \<lparr>clusters = [], stats_sinks = [], stats_flush_interval = zero_duration, upstream_bind_config = None\<rparr>,
      p_factories = []\<rparr>"

abbreviation "unknown_limiter_options \<equiv>
  plain_options\<lparr>opt_rate_limiter_plugin_config := Some \<lparr>ext_name = ''x'', typed_config = []\<rparr>\<rparr>"

lemmas demo_option_values = plain_options_def setNonTrivialDefaults_def initial_options_def

lemma demo_source:
  assumes "opts \<in> {plain_options, plain_options\<lparr>opt_stats_sinks := [[]]\<rparr>, unknown_limiter_options}"
  shows "\<exists>src. RequestSourceFactory_create plain_env assoc_headers r opts n = Inr src"
proof -
  obtain u where u: "new_Uri (env_extract plain_env) ''http://h/'' ''http'' = Inr (u :: unit Uri)" using plain_uri by blast
  have o: "opt_uri opts = Some ''http://h/''" "opt_request_source opts = []" "opt_request_source_plugin_config opts = None"
    "opt_request_headers opts = []"
    using assms by (auto simp: demo_option_values)
  have "\<exists>m. toCommandLineOptionsInternal plain_env opts = Inr m"
    using o by (simp add: toCommandLineOptionsInternal_def request_to_proto_def)
  then show ?thesis
    using o u by (auto simp: RequestSourceFactory_create_def base_request_header_def target_header_def Let_def
        new_StaticRequestSource_def)
qed

lemma demo_predicates: "\<exists>ps. TerminationPredicateFactory_create o1 t = Inr ps"
  by (simp add: TerminationPredicateFactory_create_chain)

lemma demo_worker:
  assumes "opts \<in> {plain_options, plain_options\<lparr>opt_stats_sinks := [[]]\<rparr>}"
  shows "\<exists>w. make_worker demo_worker_env opts c [] first d n = Inr (Inr w)"
proof -
  obtain src where src: "RequestSourceFactory_create plain_env assoc_headers (we_sources demo_worker_env) opts
      (worker_request_source_name n) = Inr src"
    using demo_source assms by blast
  obtain ps where ps: "TerminationPredicateFactory_create (termination_options_of opts) (first + d * n) = Inr ps"
    using demo_predicates by blast
  have o: "0 < opt_requests_per_second opts" "opt_rate_limiter_plugin_config opts = None" "opt_burst_size opts = 0"
      "opt_jitter_uniform opts < 2 ^ 62"
    using assms by (auto simp: demo_option_values)
  obtain stack where st: "create_rate_limiter (we_limiters demo_worker_env) (we_engine demo_worker_env) opts (first + d * n) = Inr stack"
    using fresh_built [OF o(1,2) disjI1 [OF o(3)] o(4)] by blast
  show ?thesis
    using src ps st by (simp add: make_worker_def new_ClientWorker_def SequencerFactory_create_def demo_worker_env_def)
qed

lemma demo_unknown_limiter:
  "\<exists>f. make_worker demo_worker_env unknown_limiter_options c [] first d n = Inl f"
proof -
  obtain src where src: "RequestSourceFactory_create plain_env assoc_headers (we_sources demo_worker_env) unknown_limiter_options
      (worker_request_source_name n) = Inr src"
    using demo_source by blast
  obtain ps where ps: "TerminationPredicateFactory_create (termination_options_of unknown_limiter_options) (first + d * n) = Inr ps"
    using demo_predicates by blast
  show ?thesis
    using src ps
    by (simp add: make_worker_def new_ClientWorker_def SequencerFactory_create_def demo_worker_env_def create_rate_limiter_def
        LoadRateLimiterPlugin_def catch_EnvoyException_def split: sum.splits)
qed

lemma create_loop_two: "create_loop mk 2 n ws = create_loop mk (Suc (Suc 0)) n ws"
  by (simp only: numeral_2_eq_2)

lemma demo_created:
  assumes "opts \<in> {plain_options, plain_options\<lparr>opt_stats_sinks := [[]]\<rparr>}"
    "number_of_workers p = 2" "p_workers p = []" "p_factories p = []"
  shows "\<exists>w1 w2. createWorkers demo_worker_env opts c t p = (Inr OkStatus, p\<lparr>p_workers :=
      [\<lparr>wt_worker = w1, wt_life = new_WorkerImpl, wt_cancellations = 0\<rparr>,
       \<lparr>wt_worker = w2, wt_life = new_WorkerImpl, wt_cancellations = 0\<rparr>]\<rparr>)"
proof -
  let ?mk = "make_worker demo_worker_env opts c [] (computeFirstWorkerStart c t 2)
      (computeInterWorkerDelay 2 (opt_requests_per_second opts))"
  obtain w1 w2 where "?mk 0 = Inr (Inr w1)" "?mk 1 = Inr (Inr w2)" using demo_worker [OF assms(1)] by blast
  then show ?thesis
    using assms(2-4) by (intro exI [of _ w1] exI [of _ w2]) (simp add: createWorkers_def Let_def create_loop_two)
qed

text \<open>A run that ends early: the two workers exist when the cluster manager fails.\<close>

lemma demo_run:
  "\<exists>p. Process_run demo_bootstrap_env demo_worker_env plain_options
      (demo_envoy_setup\<lparr>cluster_manager_init := (\<lambda>_. Status kInternal [])\<rparr>) (Inr demo_dns) (clock_at 0) 7 demo_process
      = (Returned False, p) \<and> length (p_workers p) = 2 \<and> flush_worker p = None"
proof -
  let ?p = "demo_process\<lparr>encap_runner := Some \<lparr>pid = 7, hard_kills = 0\<rparr>, p_shutdown := False\<rparr>"
  have o: "opt_trace plain_options = []" "opt_tunnel_uri plain_options = []" "opt_scheduled_start plain_options = None"
    by (simp_all add: demo_option_values)
  obtain w1 w2 where c: "createWorkers demo_worker_env plain_options (clock_at 0) None ?p
      = (Inr OkStatus, ?p\<lparr>p_workers := [\<lparr>wt_worker = w1, wt_life = new_WorkerImpl, wt_cancellations = 0\<rparr>,
          \<lparr>wt_worker = w2, wt_life = new_WorkerImpl, wt_cancellations = 0\<rparr>]\<rparr>)"
    using demo_created [of plain_options ?p "clock_at 0" None] by (auto simp: demo_process_def)
  have "\<not> p_cancelled demo_process" "flush_worker demo_process = None" by (simp_all add: demo_process_def)
  then show ?thesis using o c
    by (simp add: Process_run_def runInternal_def encap_configured_def RunWithSubprocess_def new_SubProcessRunner_def Let_def
        nighthawk_fn_def nighthawk_steps_def return_if_def or_throw_def create_workers_step_def setup_tracing_def
        demo_envoy_setup_def ok_def)
qed


theorem run_exception_aborts_witness:
  "\<exists>f p. nighthawk_fn demo_bootstrap_env demo_worker_env unknown_limiter_options demo_envoy_setup (clock_at 0) None None demo_process
      = (Threw f, p)
    \<and> Process_destructor p = Inl (ReleaseAssertFailure ''shutdown not called before destruction.'')"
proof -
  obtain f where "make_worker demo_worker_env unknown_limiter_options (clock_at 0) [] (computeFirstWorkerStart (clock_at 0) None 2)
      (computeInterWorkerDelay 2 (opt_requests_per_second unknown_limiter_options)) 0 = Inl f"
    using demo_unknown_limiter by blast
  then have "\<exists>p. nighthawk_fn demo_bootstrap_env demo_worker_env unknown_limiter_options demo_envoy_setup (clock_at 0) None None
      demo_process = (Threw f, p)"
    by (simp add: nighthawk_fn_def nighthawk_steps_def return_if_def or_throw_def create_workers_step_def createWorkers_def
        create_loop_two demo_process_def demo_envoy_setup_def ok_def Let_def)
  then show ?thesis using run_exception_aborts by blast
qed

theorem workers_staggered_witness:
  "\<exists>p'. createWorkers demo_worker_env plain_options (clock_at 0) None demo_process = (Inr OkStatus, p')
    \<and> int (length (p_workers p')) = 2
    \<and> \<bar>of_int (cw_starting_time (wt_worker (p_workers p' ! 1)) - computeFirstWorkerStart (clock_at 0) None 2)
         - of_nat 1 / of_int 2 * (1000000000 / of_nat (unat (opt_requests_per_second plain_options)))\<bar>
       \<le> (of_nat 1 * (1 + 1 / 1000000) :: rat)"
proof -
  obtain p' where p: "createWorkers demo_worker_env plain_options (clock_at 0) None demo_process = (Inr OkStatus, p')"
    using demo_created [of plain_options demo_process "clock_at 0" None] by (auto simp: demo_process_def)
  have d: "p_workers demo_process = []" "number_of_workers demo_process = 2" "p_factories demo_process = []"
    "0 < opt_requests_per_second plain_options"
    by (simp_all add: demo_process_def demo_option_values)
  have "0 < number_of_workers demo_process" "number_of_workers demo_process < 2 ^ 31" by (simp_all add: d(2))
  note facts = workers_staggered [OF p d(1,4) this, unfolded d(2,3) Let_def]
  have len: "int (length (p_workers p')) = 2" using facts by simp
  then have "1 < length (p_workers p')" by linarith
  then show ?thesis using p len facts by (intro exI [of _ p'] conjI) (assumption | simp only: word_of_int_numeral)+
qed

end
