(* ===== verification/Spec2Isabelle.thy ===== *)
theory Spec2Isabelle
  imports AdaptiveLoad Process
begin

text \<open>
  A verification library for Nighthawk, a load generator for HTTP services.

  \<^bold>\<open>Parts.\<close> \<^verbatim>\<open>source/common\<close> holds rate limiters that decide when a request may be released.

  \<^item> \<open>Prelude\<close>: machine integers, failures, status codes and string functions.
  \<^item> \<open>Doubles\<close>: binary64 arithmetic.
  \<^item> \<open>RateLimiter\<close>: \<^verbatim>\<open>rate_limiter_impl.{h,cc}\<close> and \<^verbatim>\<open>frequency.h\<close>.
  \<^item> \<open>LimiterStack\<close>: the contract of the wrapping limiters.
\<close>

end
